theory Spec2Isabelle
  imports Complex_Main
begin

section \<open>ECMAScript time values\<close>

text \<open>
  The utilities of \<^verbatim>\<open>lib/utils\<close> compute with Luxon \<^verbatim>\<open>DateTime\<close> values, and Luxon
  computes calendar fields with the built-in \<^verbatim>\<open>Date\<close> in UTC.  This section embeds the
  abstract operations of ECMA-262 (section "Date Objects") that \<^verbatim>\<open>Date.UTC\<close>,
  \<^verbatim>\<open>getUTCFullYear\<close>, \<^verbatim>\<open>getUTCMonth\<close>, \<^verbatim>\<open>getUTCDate\<close>, \<^verbatim>\<open>getUTCDay\<close> and the time-of-day
  getters are defined by.  A time value is a whole number of milliseconds since
  1970-01-01T00:00Z, at most 8.64e15 either way (20 April -271821 to 13 September 275760);
  \<open>TimeClip\<close> answers NaN, here \<open>None\<close>, for any other number.
\<close>

definition msPerDay :: int where
  "msPerDay = 86400000"

definition Day :: "int \<Rightarrow> int" where
  "Day t = t div msPerDay"

definition TimeWithinDay :: "int \<Rightarrow> int" where
  "TimeWithinDay t = t mod msPerDay"

definition DaysInYear :: "int \<Rightarrow> int" where
  "DaysInYear y =
     (if y mod 4 \<noteq> 0 then 365 else if y mod 100 \<noteq> 0 then 366
      else if y mod 400 \<noteq> 0 then 365 else 366)"

definition DayFromYear :: "int \<Rightarrow> int" where
  "DayFromYear y =
     365 * (y - 1970) + (y - 1969) div 4 - (y - 1901) div 100 + (y - 1601) div 400"

text \<open>
  ECMA-262 specifies the year of a time value as the largest \<open>y\<close> whose first day is not
  after it.  \<open>YearFromDay\<close> computes it from the mean length of a Gregorian year, corrected
  by one year either way; lemmas \<open>YearFromDay_bounds\<close> and \<open>YearFromDay_unique\<close> below show
  that it is that year.
\<close>

definition YearFromDay :: "int \<Rightarrow> int" where
  "YearFromDay d =
     (let y = 1970 + (400 * d) div 146097 in
      if d < DayFromYear y then y - 1
      else if DayFromYear (y + 1) \<le> d then y + 1 else y)"

definition InLeapYear :: "int \<Rightarrow> int" where
  "InLeapYear y = (if DaysInYear y = 366 then 1 else 0)"

definition DayWithinYear :: "int \<Rightarrow> int" where
  "DayWithinYear d = d - DayFromYear (YearFromDay d)"

text \<open>The month (0 = January) and the day of the month of a day number, by the table of ECMA-262.\<close>

definition MonthFromDay :: "int \<Rightarrow> int" where
  "MonthFromDay d =
     (let w = DayWithinYear d; l = InLeapYear (YearFromDay d) in
      if w < 31 then 0
      else if w < 59 + l then 1
      else if w < 90 + l then 2
      else if w < 120 + l then 3
      else if w < 151 + l then 4
      else if w < 181 + l then 5
      else if w < 212 + l then 6
      else if w < 243 + l then 7
      else if w < 273 + l then 8
      else if w < 304 + l then 9
      else if w < 334 + l then 10
      else 11)"

definition DateFromDay :: "int \<Rightarrow> int" where
  "DateFromDay d =
     (let w = DayWithinYear d; l = InLeapYear (YearFromDay d); m = MonthFromDay d in
      if m = 0 then w + 1
      else if m = 1 then w - 30
      else if m = 2 then w - 58 - l
      else if m = 3 then w - 89 - l
      else if m = 4 then w - 119 - l
      else if m = 5 then w - 150 - l
      else if m = 6 then w - 180 - l
      else if m = 7 then w - 211 - l
      else if m = 8 then w - 242 - l
      else if m = 9 then w - 272 - l
      else if m = 10 then w - 303 - l
      else w - 333 - l)"

definition YearFromTime :: "int \<Rightarrow> int" where
  "YearFromTime t = YearFromDay (Day t)"

definition MonthFromTime :: "int \<Rightarrow> int" where
  "MonthFromTime t = MonthFromDay (Day t)"

definition DateFromTime :: "int \<Rightarrow> int" where
  "DateFromTime t = DateFromDay (Day t)"

definition WeekDay :: "int \<Rightarrow> int" where
  \<comment> \<open>0 = Sunday; day 0 (1 January 1970) was a Thursday\<close>
  "WeekDay t = (Day t + 4) mod 7"

definition HourFromTime :: "int \<Rightarrow> int" where
  "HourFromTime t = (t div 3600000) mod 24"

definition MinFromTime :: "int \<Rightarrow> int" where
  "MinFromTime t = (t div 60000) mod 60"

definition SecFromTime :: "int \<Rightarrow> int" where
  "SecFromTime t = (t div 1000) mod 60"

definition msFromTime :: "int \<Rightarrow> int" where
  "msFromTime t = t mod 1000"

definition firstDayOfMonth :: "int \<Rightarrow> int \<Rightarrow> int" where
  \<comment> \<open>the day within the year of the first day of month \<open>mn\<close> (0 = January); \<open>l\<close> is 1 in a leap year\<close>
  "firstDayOfMonth mn l =
     (if mn = 0 then 0
      else if mn = 1 then 31
      else if mn = 2 then 59 + l
      else if mn = 3 then 90 + l
      else if mn = 4 then 120 + l
      else if mn = 5 then 151 + l
      else if mn = 6 then 181 + l
      else if mn = 7 then 212 + l
      else if mn = 8 then 243 + l
      else if mn = 9 then 273 + l
      else if mn = 10 then 304 + l
      else 334 + l)"

definition MakeDay :: "int \<Rightarrow> int \<Rightarrow> int \<Rightarrow> int" where
  \<comment> \<open>months beyond 0..11 carry into the year, days beyond the month run on linearly\<close>
  "MakeDay yr mo dt =
     (let ym = yr + mo div 12; mn = mo mod 12 in
      DayFromYear ym + firstDayOfMonth mn (InLeapYear ym) + dt - 1)"

definition MakeTime :: "int \<Rightarrow> int \<Rightarrow> int \<Rightarrow> int \<Rightarrow> int" where
  "MakeTime h m s milli = h * 3600000 + m * 60000 + s * 1000 + milli"

definition MakeDate :: "int \<Rightarrow> int \<Rightarrow> int" where
  "MakeDate dy tm = dy * msPerDay + tm"


definition TimeClip :: "int \<Rightarrow> int option" where
  "TimeClip t = (if - 8640000000000000 \<le> t \<and> t \<le> 8640000000000000 then Some t else None)"

text \<open>A \<^verbatim>\<open>Date\<close> object: a time value, or the Invalid Date (time value NaN).\<close>

datatype jsdate = Date int | InvalidDate

definition newDate :: "int option \<Rightarrow> jsdate" where
  \<comment> \<open>\<^verbatim>\<open>new Date(value)\<close>\<close>
  "newDate v =
     (case v of
        None \<Rightarrow> InvalidDate
      | Some t \<Rightarrow> (case TimeClip t of None \<Rightarrow> InvalidDate | Some u \<Rightarrow> Date u))"

section \<open>The Luxon operations the utilities call\<close>

text \<open>
  Luxon is a library the repository requires, not part of it.  The definitions of this
  section follow the sources of Luxon 3: \<^verbatim>\<open>fixOffset\<close>, \<^verbatim>\<open>objToTS\<close>, \<^verbatim>\<open>tsToObj\<close>,
  \<^verbatim>\<open>adjustTime\<close>, \<^verbatim>\<open>clone\<close>, the constructor and the methods of \<^verbatim>\<open>DateTime\<close> (its
  \<^verbatim>\<open>datetime.js\<close>); \<^verbatim>\<open>objToLocalTS\<close>, \<^verbatim>\<open>daysInMonth\<close>, \<^verbatim>\<open>isLeapYear\<close>, \<^verbatim>\<open>normalizeObject\<close> and
  \<^verbatim>\<open>asNumber\<close> (its \<^verbatim>\<open>impl/util.js\<close>); \<^verbatim>\<open>dayOfWeek\<close> (its \<^verbatim>\<open>impl/conversions.js\<close>); the
  difference in minutes (its \<^verbatim>\<open>impl/diff.js\<close>); \<^verbatim>\<open>IANAZone.offset\<close> and \<^verbatim>\<open>SystemZone.offset\<close>
  (its \<^verbatim>\<open>zones\<close>).  Only the units of a \<^verbatim>\<open>Duration\<close> and the arguments of \<^verbatim>\<open>set\<close> and
  \<^verbatim>\<open>fromObject\<close> that the utilities pass are represented.

  Luxon answers an invalid \<^verbatim>\<open>DateTime\<close> instead of throwing (\<^verbatim>\<open>Settings.throwOnInvalid\<close> is
  left at its default in this repository), with two exceptions that the utilities can
  reach: \<^verbatim>\<open>fromObject\<close> throws an \<^verbatim>\<open>InvalidArgumentError\<close> for a unit that is NaN, and
  \<^verbatim>\<open>toFormat\<close> lets through the \<^verbatim>\<open>RangeError\<close> that \<^verbatim>\<open>Intl\<close> raises for a locale tag it does
  not take.  A function that can throw returns \<open>Inl\<close> of the error or \<open>Inr\<close> of its value.
\<close>

datatype error = InvalidArgumentError | RangeError

definition andThen :: "error + 'a \<Rightarrow> ('a \<Rightarrow> error + 'b) \<Rightarrow> error + 'b" where
  \<comment> \<open>sequencing: an error thrown by the first computation leaves the function\<close>
  "andThen r f = (case r of Inl x \<Rightarrow> Inl x | Inr v \<Rightarrow> f v)"

text \<open>
  A zone is what \<^verbatim>\<open>Zone.offset(ts)\<close> answers at a time value: the offset from UTC in
  minutes (whole minutes; the offsets of local mean time, before standard time, are not).
  No zone that Luxon resolves is 100 hours from UTC: the zones of the time zone database
  stay within 16 hours, and a fixed-offset specifier has at most two digits for the hours.
  \<open>zone_offset\<close> is the method itself: it makes a \<^verbatim>\<open>Date\<close> of its argument and answers NaN
  when that is the Invalid Date.  (A zone of fixed offset answers its offset at any number;
  it is taken to answer NaN outside the time values like the zones of the database.  What a
  utility returns is a \<^verbatim>\<open>Date\<close> made of such a number, the Invalid Date in either case.)

  The time zone database, the system zone, the locale data behind \<^verbatim>\<open>toFormat\<close> and the
  clock \<^verbatim>\<open>Settings.now()\<close> are not part of the repository; they are the fields of an
  environment that every function takes.  \<open>tzdata\<close> answers \<open>None\<close> for an identifier that
  does not resolve; \<open>validLocale\<close> tells whether \<^verbatim>\<open>Intl\<close> takes a locale tag (it raises a
  \<^verbatim>\<open>RangeError\<close> for one that is not a well-formed language tag, such as "en_US").
\<close>

typedef zone = "{z :: int \<Rightarrow> int. \<forall>t. - 6000 \<le> z t \<and> z t \<le> 6000}"
  by (rule exI [where x = "\<lambda>t. 0"]) simp

setup_lifting type_definition_zone

lift_definition offsetAt :: "zone \<Rightarrow> int \<Rightarrow> int" is "\<lambda>z. z" .

definition zone_offset :: "zone \<Rightarrow> int \<Rightarrow> int option" where
  "zone_offset z ts = (case TimeClip ts of None \<Rightarrow> None | Some t \<Rightarrow> Some (offsetAt z t))"

record env =
  tzdata :: "string \<Rightarrow> zone option"
  systemZone :: zone
  defaultLocale :: string
  clock :: int
  validLocale :: "string \<Rightarrow> bool"
  monthLong :: "string \<Rightarrow> int \<Rightarrow> string"
  yearText :: "string \<Rightarrow> int \<Rightarrow> string"

text \<open>The calendar fields of a local time (the object Luxon calls \<^verbatim>\<open>c\<close>).\<close>

record localObj =
  c_year :: int
  c_month :: int
  c_day :: int
  c_hour :: int
  c_minute :: int
  c_second :: int
  c_millisecond :: int

text \<open>
  A valid \<^verbatim>\<open>DateTime\<close> holds its time value \<^verbatim>\<open>ts\<close>, its zone, the offset \<^verbatim>\<open>o\<close> it reads its
  local fields with, and its locale; the local fields \<^verbatim>\<open>c\<close> that Luxon keeps beside them are
  \<^verbatim>\<open>tsToObj(ts, o)\<close> wherever it sets them, and are \<open>dt_c\<close> here.  An invalid one
  (unresolvable zone, invalid input) holds nothing.
\<close>

record dt_fields =
  dt_ts :: int
  dt_zone :: zone
  dt_o :: int
  dt_loc :: string

datatype DateTime = Invalid | Valid dt_fields

record duration =
  d_months :: int
  d_days :: int
  d_hours :: int

definition isLeapYear :: "int \<Rightarrow> bool" where
  "isLeapYear yr \<longleftrightarrow> yr mod 4 = 0 \<and> (yr mod 100 \<noteq> 0 \<or> yr mod 400 = 0)"

definition daysInMonth :: "int \<Rightarrow> int \<Rightarrow> int" where
  "daysInMonth yr mo =
     (let modMonth = (mo - 1) mod 12 + 1; modYear = yr + (mo - modMonth) div 12 in
      if modMonth = 2 then (if isLeapYear modYear then 29 else 28)
      else if modMonth = 4 \<or> modMonth = 6 \<or> modMonth = 9 \<or> modMonth = 11 then 30
      else 31)"

definition objToLocalTS :: "localObj \<Rightarrow> int option" where
  \<comment> \<open>\<^verbatim>\<open>Date.UTC\<close> of the fields, with Luxon's repair of the years 0 to 99; NaN beyond the
      range of time values\<close>
  "objToLocalTS obj =
     TimeClip (MakeDate (MakeDay (c_year obj) (c_month obj - 1) (c_day obj))
       (MakeTime (c_hour obj) (c_minute obj) (c_second obj) (c_millisecond obj)))"

definition utcFields :: "int \<Rightarrow> localObj" where
  \<comment> \<open>the UTC getters of the \<^verbatim>\<open>Date\<close> with time value \<open>t\<close>\<close>
  "utcFields t =
     \<lparr>c_year = YearFromTime t, c_month = MonthFromTime t + 1, c_day = DateFromTime t,
      c_hour = HourFromTime t, c_minute = MinFromTime t, c_second = SecFromTime t,
      c_millisecond = msFromTime t\<rparr>"

definition tsToObj :: "int \<Rightarrow> int \<Rightarrow> localObj option" where
  \<comment> \<open>the fields are NaN, here \<open>None\<close>, when \<open>ts\<close> moved by the offset is not a time value\<close>
  "tsToObj ts offset = map_option utcFields (TimeClip (ts + offset * 60 * 1000))"

definition fixOffset :: "int \<Rightarrow> int \<Rightarrow> zone \<Rightarrow> (int \<times> int) option" where
  \<comment> \<open>the time value of a local time: guess with offset \<open>o1\<close>, correct the guess once, and in a
      gap of the zone keep the later reading; NaN when a guess is not a time value\<close>
  "fixOffset localTS o1 tz =
     (let utcGuess = localTS - o1 * 60 * 1000 in
      case zone_offset tz utcGuess of
        None \<Rightarrow> None
      | Some o2 \<Rightarrow>
          if o1 = o2 then Some (utcGuess, o1)
          else
            let utcGuess2 = utcGuess - (o2 - o1) * 60 * 1000 in
            (case zone_offset tz utcGuess2 of
               None \<Rightarrow> None
             | Some o3 \<Rightarrow>
                 if o2 = o3 then Some (utcGuess2, o2)
                 else Some (localTS - min o2 o3 * 60 * 1000, max o2 o3)))"

definition objToTS :: "localObj \<Rightarrow> int option \<Rightarrow> zone \<Rightarrow> (int \<times> int) option" where
  \<comment> \<open>a local time or a provisional offset that is NaN gives NaN\<close>
  "objToTS obj offset tz =
     (case objToLocalTS obj of
        None \<Rightarrow> None
      | Some localTS \<Rightarrow> (case offset of None \<Rightarrow> None | Some o1 \<Rightarrow> fixOffset localTS o1 tz))"

definition dayOfWeek :: "int \<Rightarrow> int \<Rightarrow> int \<Rightarrow> int" where
  \<comment> \<open>ISO weekday: 1 = Monday ... 7 = Sunday\<close>
  "dayOfWeek yr mo dy =
     (let js = WeekDay (MakeDate (MakeDay yr (mo - 1) dy) 0) in if js = 0 then 7 else js)"

definition dt_c :: "dt_fields \<Rightarrow> localObj" where
  "dt_c inst = utcFields (dt_ts inst + dt_o inst * 60 * 1000)"

definition newDateTime :: "int \<Rightarrow> zone \<Rightarrow> int \<Rightarrow> string \<Rightarrow> DateTime" where
  \<comment> \<open>the constructor, given a time value and the offset to read it with: it computes the
      local fields, and a NaN year there makes the \<^verbatim>\<open>DateTime\<close> invalid\<close>
  "newDateTime ts z offset l =
     (case tsToObj ts offset of
        None \<Rightarrow> Invalid
      | Some c \<Rightarrow> Valid \<lparr>dt_ts = ts, dt_zone = z, dt_o = offset, dt_loc = l\<rparr>)"

definition clone :: "dt_fields \<Rightarrow> int option \<Rightarrow> int option \<Rightarrow> DateTime" where
  \<comment> \<open>a copy with a new time value in the same zone: NaN gives an invalid copy, an unchanged
      time value keeps the old fields and offset, a changed one asks the zone (the offset
      handed in is not used)\<close>
  "clone inst ts offset =
     (case ts of
        None \<Rightarrow> Invalid
      | Some t \<Rightarrow>
          if t = dt_ts inst then Valid inst
          else
            (case zone_offset (dt_zone inst) t of
               None \<Rightarrow> Invalid
             | Some ot \<Rightarrow> newDateTime t (dt_zone inst) ot (dt_loc inst)))"

definition DateTime_fromObject ::
  "env \<Rightarrow> int option \<Rightarrow> int \<Rightarrow> int \<Rightarrow> string \<Rightarrow> error + DateTime" where
  \<comment> \<open>\<^verbatim>\<open>DateTime.fromObject({ year, month, day }, { zone })\<close>; the year is a number, \<open>None\<close> is
      NaN.  The zone is looked at first, then the units are normalized (NaN throws), then
      checked against the calendar, then resolved from the zone's offset at the clock.\<close>
  "DateTime_fromObject e yr mo dy timezone =
     (case tzdata e timezone of
        None \<Rightarrow> Inr Invalid
      | Some z \<Rightarrow>
          (case yr of
             None \<Rightarrow> Inl InvalidArgumentError
           | Some y \<Rightarrow>
               if \<not> (1 \<le> mo \<and> mo \<le> 12 \<and> 1 \<le> dy \<and> dy \<le> daysInMonth y mo) then Inr Invalid
               else
                 let offsetProvis = zone_offset z (clock e);
                     normalized = \<lparr>c_year = y, c_month = mo, c_day = dy, c_hour = 0,
                        c_minute = 0, c_second = 0, c_millisecond = 0\<rparr>
                 in (case objToTS normalized offsetProvis z of
                       None \<Rightarrow> Inr Invalid
                     | Some (tsFinal, offsetFinal) \<Rightarrow>
                         Inr (newDateTime tsFinal z offsetFinal (defaultLocale e)))))"

definition DateTime_local :: "env \<Rightarrow> int \<Rightarrow> DateTime" where
  \<comment> \<open>\<^verbatim>\<open>new DateTime({ ts })\<close>: a time value read in the system zone\<close>
  "DateTime_local e ts =
     (case zone_offset (systemZone e) ts of
        None \<Rightarrow> Invalid
      | Some ot \<Rightarrow> newDateTime ts (systemZone e) ot (defaultLocale e))"

definition DateTime_now :: "env \<Rightarrow> DateTime" where
  "DateTime_now e = DateTime_local e (clock e)"

definition DateTime_fromJSDate :: "env \<Rightarrow> jsdate \<Rightarrow> DateTime" where
  "DateTime_fromJSDate e d = (case d of InvalidDate \<Rightarrow> Invalid | Date t \<Rightarrow> DateTime_local e t)"

definition setZone :: "env \<Rightarrow> DateTime \<Rightarrow> string \<Rightarrow> DateTime" where
  \<comment> \<open>the same time value read in another zone (for the zone it already has, the same
      value); an invalid \<^verbatim>\<open>DateTime\<close> stays invalid\<close>
  "setZone e dt timezone =
     (case tzdata e timezone of
        None \<Rightarrow> Invalid
      | Some z \<Rightarrow>
          (case dt of
             Invalid \<Rightarrow> Invalid
           | Valid inst \<Rightarrow>
               (case zone_offset z (dt_ts inst) of
                  None \<Rightarrow> Invalid
                | Some ot \<Rightarrow> newDateTime (dt_ts inst) z ot (dt_loc inst))))"

definition setLocale :: "DateTime \<Rightarrow> string \<Rightarrow> DateTime" where
  "setLocale dt l = (case dt of Invalid \<Rightarrow> Invalid | Valid inst \<Rightarrow> Valid (inst\<lparr>dt_loc := l\<rparr>))"

definition toJSDate :: "DateTime \<Rightarrow> jsdate" where
  \<comment> \<open>\<^verbatim>\<open>new Date(this.isValid ? this.ts : NaN)\<close>\<close>
  "toJSDate dt = newDate (case dt of Invalid \<Rightarrow> None | Valid inst \<Rightarrow> Some (dt_ts inst))"

definition valueOf :: "DateTime \<Rightarrow> int option" where
  \<comment> \<open>what the comparison operators see: the time value, NaN (\<open>None\<close>) when invalid\<close>
  "valueOf dt = (case dt of Invalid \<Rightarrow> None | Valid inst \<Rightarrow> Some (dt_ts inst))"

definition js_lt :: "int option \<Rightarrow> int option \<Rightarrow> bool" where
  "js_lt a b = (case (a, b) of (Some x, Some y) \<Rightarrow> x < y | _ \<Rightarrow> False)"

definition js_ge :: "int option \<Rightarrow> int option \<Rightarrow> bool" where
  "js_ge a b = (case (a, b) of (Some x, Some y) \<Rightarrow> x \<ge> y | _ \<Rightarrow> False)"

definition dt_year :: "DateTime \<Rightarrow> int option" where
  "dt_year dt = (case dt of Invalid \<Rightarrow> None | Valid inst \<Rightarrow> Some (c_year (dt_c inst)))"

definition dt_day :: "DateTime \<Rightarrow> int option" where
  "dt_day dt = (case dt of Invalid \<Rightarrow> None | Valid inst \<Rightarrow> Some (c_day (dt_c inst)))"

definition weekday :: "DateTime \<Rightarrow> int option" where
  "weekday dt =
     (case dt of
        Invalid \<Rightarrow> None
      | Valid inst \<Rightarrow>
          Some (dayOfWeek (c_year (dt_c inst)) (c_month (dt_c inst)) (c_day (dt_c inst))))"

definition adjustTime :: "dt_fields \<Rightarrow> duration \<Rightarrow> (int \<times> int option) option" where
  \<comment> \<open>months and days are added to the calendar fields (the day first clamped to the length
      of the target month) and the result is resolved in the zone; hours are added to the
      time value afterwards, and the offset read again\<close>
  "adjustTime inst dur =
     (let oPre = dt_o inst;
          c = dt_c inst;
          yr = c_year c;
          mo = c_month c + d_months dur;
          c2 = c\<lparr>c_year := yr, c_month := mo,
                 c_day := min (c_day c) (daysInMonth yr mo) + d_days dur\<rparr>;
          millisToAdd = d_hours dur * 3600000
      in case objToTS c2 (Some oPre) (dt_zone inst) of
           None \<Rightarrow> None
         | Some (ts, offset) \<Rightarrow>
             if millisToAdd \<noteq> 0
             then Some (ts + millisToAdd, zone_offset (dt_zone inst) (ts + millisToAdd))
             else Some (ts, Some offset))"

definition plus :: "DateTime \<Rightarrow> duration \<Rightarrow> DateTime" where
  "plus dt dur =
     (case dt of
        Invalid \<Rightarrow> Invalid
      | Valid inst \<Rightarrow>
          (case adjustTime inst dur of
             None \<Rightarrow> clone inst None None
           | Some (ts, offset) \<Rightarrow> clone inst (Some ts) offset))"

definition negate :: "duration \<Rightarrow> duration" where
  "negate dur = \<lparr>d_months = - d_months dur, d_days = - d_days dur, d_hours = - d_hours dur\<rparr>"

definition minus :: "DateTime \<Rightarrow> duration \<Rightarrow> DateTime" where
  "minus dt dur = plus dt (negate dur)"

definition set_time :: "DateTime \<Rightarrow> int \<Rightarrow> int \<Rightarrow> int \<Rightarrow> int \<Rightarrow> DateTime" where
  \<comment> \<open>\<^verbatim>\<open>dt.set({ hour, minute, second, millisecond })\<close>\<close>
  "set_time dt h m s milli =
     (case dt of
        Invalid \<Rightarrow> Invalid
      | Valid inst \<Rightarrow>
          (let c = dt_c inst;
               mixed = c\<lparr>c_hour := h, c_minute := m, c_second := s, c_millisecond := milli,
                  c_day := min (daysInMonth (c_year c) (c_month c)) (c_day c)\<rparr>
           in case objToTS mixed (Some (dt_o inst)) (dt_zone inst) of
                None \<Rightarrow> clone inst None None
              | Some (ts, offset) \<Rightarrow> clone inst (Some ts) (Some offset)))"

definition diff_minutes :: "DateTime \<Rightarrow> DateTime \<Rightarrow> rat option" where
  \<comment> \<open>\<^verbatim>\<open>a.diff(b, 'minutes').minutes\<close>: the difference of the time values in minutes, a
      fraction (exact here, a double in the program); NaN when either is invalid\<close>
  "diff_minutes a b =
     (case (valueOf a, valueOf b) of
        (Some x, Some y) \<Rightarrow> Some (of_int (x - y) / 60000)
      | _ \<Rightarrow> None)"

definition Math_round :: "rat option \<Rightarrow> int option" where
  \<comment> \<open>the nearest integer, a tie going up (towards positive infinity); NaN stays NaN\<close>
  "Math_round x = (case x of None \<Rightarrow> None | Some r \<Rightarrow> Some \<lfloor>r + 1 / 2\<rfloor>)"

definition toFormat_MMMM :: "env \<Rightarrow> DateTime \<Rightarrow> error + string" where
  \<comment> \<open>the long name of the month in the locale of the \<^verbatim>\<open>DateTime\<close>; an invalid one is
      formatted without a look at the locale\<close>
  "toFormat_MMMM e dt =
     (case dt of
        Invalid \<Rightarrow> Inr ''Invalid DateTime''
      | Valid inst \<Rightarrow>
          if validLocale e (dt_loc inst)
          then Inr (monthLong e (dt_loc inst) (c_month (dt_c inst)))
          else Inl RangeError)"

definition toFormat_yyyy :: "env \<Rightarrow> DateTime \<Rightarrow> error + string" where
  "toFormat_yyyy e dt =
     (case dt of
        Invalid \<Rightarrow> Inr ''Invalid DateTime''
      | Valid inst \<Rightarrow>
          if validLocale e (dt_loc inst)
          then Inr (yearText e (dt_loc inst) (c_year (dt_c inst)))
          else Inl RangeError)"

section \<open>lib/utils/earthHourDate.js\<close>

definition daysToSubtract :: "int \<Rightarrow> int" where
  \<comment> \<open>\<^verbatim>\<open>{ 6: 0, 7: 1 }[weekday] ?? weekday + 1\<close>\<close>
  "daysToSubtract wd = (if wd = 6 then 0 else if wd = 7 then 1 else wd + 1)"

definition getEarthHourDate :: "env \<Rightarrow> int option \<Rightarrow> string \<Rightarrow> error + jsdate" where
  \<comment> \<open>an invalid \<open>date\<close> has the weekday NaN, and \<^verbatim>\<open>minus\<close> hands an invalid \<open>date\<close> back\<close>
  "getEarthHourDate e yr timezone =
     andThen (DateTime_fromObject e yr 3 31 timezone) (\<lambda>date.
       let lastSaturday =
             (case weekday date of
                None \<Rightarrow> date
              | Some wd \<Rightarrow>
                  minus date \<lparr>d_months = 0, d_days = daysToSubtract wd, d_hours = 0\<rparr>);
           earthHourDateTime = set_time lastSaturday 20 30 0 0
       in Inr (toJSDate earthHourDateTime))"

definition addHourToStart :: "env \<Rightarrow> jsdate \<Rightarrow> string \<Rightarrow> jsdate" where
  "addHourToStart e startDate timezone =
     toJSDate (plus (setZone e (DateTime_fromJSDate e startDate) timezone)
       \<lparr>d_months = 0, d_days = 0, d_hours = 1\<rparr>)"

definition getEarthHourEnd :: "env \<Rightarrow> int option \<Rightarrow> string \<Rightarrow> error + jsdate" where
  "getEarthHourEnd e yr timezone =
     andThen (getEarthHourDate e yr timezone) (\<lambda>start. Inr (addHourToStart e start timezone))"

definition getUpcomingEarthHourStart :: "env \<Rightarrow> string \<Rightarrow> error + jsdate" where
  "getUpcomingEarthHourStart e timezone =
     (let now = setZone e (DateTime_now e) timezone;
          currentYear = dt_year now
      in andThen (getEarthHourDate e currentYear timezone) (\<lambda>d.
           let thisYearEarthHour = setZone e (DateTime_fromJSDate e d) timezone
           in if js_ge (valueOf now) (valueOf thisYearEarthHour)
              then getEarthHourDate e (map_option (\<lambda>y. y + 1) currentYear) timezone
              else Inr (toJSDate thisYearEarthHour)))"

definition getUpcomingEarthHourEnd :: "env \<Rightarrow> string \<Rightarrow> error + jsdate" where
  "getUpcomingEarthHourEnd e timezone =
     andThen (getUpcomingEarthHourStart e timezone) (\<lambda>start.
       Inr (addHourToStart e start timezone))"

definition getThisYearsEarthHourStart :: "env \<Rightarrow> string \<Rightarrow> error + jsdate" where
  "getThisYearsEarthHourStart e timezone =
     (let yr = dt_year (setZone e (DateTime_now e) timezone)
      in getEarthHourDate e yr timezone)"

definition getThisYearsEarthHourEnd :: "env \<Rightarrow> string \<Rightarrow> error + jsdate" where
  "getThisYearsEarthHourEnd e timezone =
     andThen (getThisYearsEarthHourStart e timezone) (\<lambda>start.
       Inr (addHourToStart e start timezone))"

definition getOneMonthBeforeEarthHour :: "env \<Rightarrow> int option \<Rightarrow> string \<Rightarrow> error + jsdate" where
  "getOneMonthBeforeEarthHour e yr timezone =
     andThen (getEarthHourDate e yr timezone) (\<lambda>d.
       let eh = setZone e (DateTime_fromJSDate e d) timezone
       in Inr (toJSDate (minus eh \<lparr>d_months = 1, d_days = 0, d_hours = 0\<rparr>)))"

section \<open>lib/utils/earthHourTime.js\<close>

definition minutesUntil :: "env \<Rightarrow> jsdate \<Rightarrow> string \<Rightarrow> DateTime \<Rightarrow> int option" where
  "minutesUntil e targetDate timezone now =
     (let target = setZone e (DateTime_fromJSDate e targetDate) timezone
      in Math_round (diff_minutes target now))"

definition getMinutesUntilEarthHourStart :: "env \<Rightarrow> string \<Rightarrow> error + int option" where
  "getMinutesUntilEarthHourStart e timezone =
     (let now = setZone e (DateTime_now e) timezone
      in andThen (getThisYearsEarthHourEnd e timezone) (\<lambda>endDate.
           let thisYearEnd = setZone e (DateTime_fromJSDate e endDate) timezone
           in andThen
                (if js_lt (valueOf now) (valueOf thisYearEnd)
                 then getThisYearsEarthHourStart e timezone
                 else getUpcomingEarthHourStart e timezone)
                (\<lambda>startDate. Inr (minutesUntil e startDate timezone now))))"

definition getMinutesUntilEarthHourEnd :: "env \<Rightarrow> string \<Rightarrow> error + int option" where
  "getMinutesUntilEarthHourEnd e timezone =
     (let now = setZone e (DateTime_now e) timezone
      in andThen (getThisYearsEarthHourEnd e timezone) (\<lambda>endDate.
           let thisYearEnd = setZone e (DateTime_fromJSDate e endDate) timezone
           in andThen
                (if js_lt (valueOf now) (valueOf thisYearEnd)
                 then getThisYearsEarthHourEnd e timezone
                 else getUpcomingEarthHourEnd e timezone)
                (\<lambda>endDate2. Inr (minutesUntil e endDate2 timezone now))))"

section \<open>lib/utils/earthHourChecks.js\<close>

definition isCurrentlyEarthHour :: "env \<Rightarrow> string \<Rightarrow> error + bool" where
  "isCurrentlyEarthHour e timezone =
     (let now = setZone e (DateTime_now e) timezone
      in andThen (getThisYearsEarthHourStart e timezone) (\<lambda>startDate.
           let start = setZone e (DateTime_fromJSDate e startDate) timezone
           in andThen (getThisYearsEarthHourEnd e timezone) (\<lambda>endDate.
                let endDt = setZone e (DateTime_fromJSDate e endDate) timezone
                in Inr (js_ge (valueOf now) (valueOf start) \<and> js_lt (valueOf now) (valueOf endDt)))))"

section \<open>lib/utils/dateFormat.js\<close>

definition digit :: "nat \<Rightarrow> char" where
  "digit n = char_of (48 + n)"

fun decimal :: "nat \<Rightarrow> string" where
  "decimal n = (if n < 10 then [digit n] else decimal (n div 10) @ [digit (n mod 10)])"

definition numberToString :: "int \<Rightarrow> string" where
  \<comment> \<open>what string concatenation makes of an integer number\<close>
  "numberToString n = (if n < 0 then CHR ''-'' # decimal (nat (- n)) else decimal (nat n))"

definition js_rem :: "int \<Rightarrow> int \<Rightarrow> int" where
  \<comment> \<open>the remainder operator: the result has the sign of the dividend\<close>
  "js_rem a b = (if 0 \<le> a then a mod \<bar>b\<bar> else - ((- a) mod \<bar>b\<bar>))"

definition index :: "string list \<Rightarrow> int \<Rightarrow> string option" where
  \<comment> \<open>an array read: undefined (\<open>None\<close>) outside the array\<close>
  "index xs i = (if 0 \<le> i \<and> i < int (length xs) then Some (xs ! nat i) else None)"

definition or_else :: "string option \<Rightarrow> string option \<Rightarrow> string option" where
  \<comment> \<open>\<^verbatim>\<open>a || b\<close> on strings: undefined and the empty string are falsy\<close>
  "or_else a b = (case a of None \<Rightarrow> b | Some x \<Rightarrow> if x = [] then b else Some x)"

definition ordinalEn :: "int \<Rightarrow> string" where
  "ordinalEn dy =
     (let s = [''th'', ''st'', ''nd'', ''rd''];
          v = js_rem dy 100
      in numberToString dy
         @ (case or_else (or_else (index s (js_rem (v - 20) 10)) (index s v)) (index s 0) of
              None \<Rightarrow> ''undefined''
            | Some x \<Rightarrow> x))"

definition or_default :: "string option \<Rightarrow> string \<Rightarrow> string" where
  \<comment> \<open>\<^verbatim>\<open>locale || 'en'\<close>: an omitted (\<open>None\<close>) or empty locale gives the default\<close>
  "or_default a b = (case a of None \<Rightarrow> b | Some x \<Rightarrow> if x = [] then b else x)"

definition startsWith :: "string \<Rightarrow> string \<Rightarrow> bool" where
  "startsWith s p \<longleftrightarrow> take (length p) s = p"

definition formatDateFriendly ::
  "env \<Rightarrow> jsdate \<Rightarrow> string \<Rightarrow> string option \<Rightarrow> error + string" where
  \<comment> \<open>the day of an invalid \<open>dt\<close> is NaN: \<^verbatim>\<open>ordinalEn(NaN)\<close> is "NaNth"\<close>
  "formatDateFriendly e date timezone locale =
     (let loc = or_default locale ''en'';
          dt = setLocale (setZone e (DateTime_fromJSDate e date) timezone) loc
      in andThen (toFormat_MMMM e dt) (\<lambda>month.
           andThen (toFormat_yyyy e dt) (\<lambda>yr.
             let dy = dt_day dt
             in if startsWith loc ''en''
                then Inr ((case dy of None \<Rightarrow> ''NaNth'' | Some n \<Rightarrow> ordinalEn n)
                       @ '' '' @ month @ '' '' @ yr)
                else Inr ((case dy of None \<Rightarrow> ''NaN'' | Some n \<Rightarrow> numberToString n)
                       @ '' '' @ month @ '' '' @ yr))))"

definition formatDateFriendlyNoYear ::
  "env \<Rightarrow> jsdate \<Rightarrow> string \<Rightarrow> string option \<Rightarrow> error + string" where
  "formatDateFriendlyNoYear e date timezone locale =
     (let loc = or_default locale ''en'';
          dt = setLocale (setZone e (DateTime_fromJSDate e date) timezone) loc
      in andThen (toFormat_MMMM e dt) (\<lambda>month.
           let dy = dt_day dt
           in if startsWith loc ''en''
              then Inr ((case dy of None \<Rightarrow> ''NaNth'' | Some n \<Rightarrow> ordinalEn n) @ '' '' @ month)
              else Inr ((case dy of None \<Rightarrow> ''NaN'' | Some n \<Rightarrow> numberToString n) @ '' '' @ month)))"

section \<open>Notions the statements use\<close>

definition toObject :: "DateTime \<Rightarrow> localObj option" where
  \<comment> \<open>the calendar fields a \<^verbatim>\<open>DateTime\<close> shows in its zone\<close>
  "toObject dt = (case dt of Invalid \<Rightarrow> None | Valid inst \<Rightarrow> Some (dt_c inst))"

definition inZone :: "env \<Rightarrow> jsdate \<Rightarrow> string \<Rightarrow> DateTime" where
  \<comment> \<open>\<^verbatim>\<open>DateTime.fromJSDate(d).setZone(timezone)\<close>, the way the utilities and the tests read a
      \<^verbatim>\<open>Date\<close> in a zone\<close>
  "inZone e d timezone = setZone e (DateTime_fromJSDate e d) timezone"

definition wallClock :: "localObj \<Rightarrow> int" where
  \<comment> \<open>a wall-clock reading as a local time value: its fields taken as if they were UTC\<close>
  "wallClock obj =
     MakeDate (MakeDay (c_year obj) (c_month obj - 1) (c_day obj))
       (MakeTime (c_hour obj) (c_minute obj) (c_second obj) (c_millisecond obj))"

definition marchAt :: "int \<Rightarrow> int \<Rightarrow> int \<Rightarrow> int \<Rightarrow> int" where
  \<comment> \<open>the wall-clock reading "day \<open>dy\<close> of March of year \<open>yr\<close>, \<open>h\<close>:\<open>m\<close>"\<close>
  "marchAt yr dy h m =
     wallClock \<lparr>c_year = yr, c_month = 3, c_day = dy, c_hour = h, c_minute = m,
       c_second = 0, c_millisecond = 0\<rparr>"

definition februaryAt :: "int \<Rightarrow> int \<Rightarrow> int \<Rightarrow> int \<Rightarrow> int" where
  \<comment> \<open>the same for a day of February\<close>
  "februaryAt yr dy h m =
     wallClock \<lparr>c_year = yr, c_month = 2, c_day = dy, c_hour = h, c_minute = m,
       c_second = 0, c_millisecond = 0\<rparr>"

definition lastSaturday :: "int \<Rightarrow> int" where
  \<comment> \<open>the day of March that the subtraction rule of \<open>getEarthHourDate\<close> arrives at\<close>
  "lastSaturday yr = 31 - daysToSubtract (dayOfWeek yr 3 31)"



text \<open>
  A wall-clock reading \<open>L\<close> is settled at offset \<open>c\<close> when the zone answers \<open>c\<close> at every
  time value that \<open>L\<close> can stand for under an offset between \<open>lo\<close> and \<open>hi\<close>: \<open>L\<close> is not in
  a gap of the zone, nor repeated, nor nearer to a change of offset than \<open>lo\<close> and \<open>hi\<close>
  differ.
\<close>

definition settled :: "zone \<Rightarrow> int \<Rightarrow> int \<Rightarrow> int \<Rightarrow> int \<Rightarrow> bool" where
  "settled z lo hi L c \<longleftrightarrow>
     lo \<le> c \<and> c \<le> hi \<and> (\<forall>o1. lo \<le> o1 \<and> o1 \<le> hi \<longrightarrow> offsetAt z (L - o1 * 60000) = c)"

definition zone_settled_for :: "zone \<Rightarrow> int \<Rightarrow> int \<Rightarrow> int \<Rightarrow> int \<Rightarrow> bool" where
  \<comment> \<open>the three readings \<open>getEarthHourDate\<close> resolves for year \<open>yr\<close> are settled, the last one
      (Saturday 20:30) at offset \<open>c\<close>\<close>
  "zone_settled_for z lo hi yr c \<longleftrightarrow>
     (\<exists>c1. settled z lo hi (marchAt yr 31 0 0) c1) \<and>
     (\<exists>c2. settled z lo hi (marchAt yr (lastSaturday yr) 0 0) c2) \<and>
     settled z lo hi (marchAt yr (lastSaturday yr) 20 30) c"



text \<open>
  The English ordinal suffix in the words of the specification: units digit 1 gives st, 2
  gives nd, 3 gives rd, anything else th, except that 11 to 13 give th.
\<close>

definition englishOrdinalSuffix :: "int \<Rightarrow> string" where
  "englishOrdinalSuffix n =
     (if n mod 100 = 11 \<or> n mod 100 = 12 \<or> n mod 100 = 13 then ''th''
      else if n mod 10 = 1 then ''st''
      else if n mod 10 = 2 then ''nd''
      else if n mod 10 = 3 then ''rd''
      else ''th'')"

text \<open>
  "The locale is English", for the language tags the specification has the locale provider
  supply: the language of a tag is its first subtag, up to the first hyphen, and tags are
  compared without regard to case; the language English is "en".
\<close>

definition lowerCase :: "char \<Rightarrow> char" where
  "lowerCase ch =
     (if (65::nat) \<le> of_char ch \<and> of_char ch \<le> (90::nat) then char_of (of_char ch + (32::nat))
      else ch)"

definition languageOf :: "string \<Rightarrow> string" where
  "languageOf l = map lowerCase (takeWhile (\<lambda>ch. ch \<noteq> CHR ''-'') l)"

definition isEnglish :: "string \<Rightarrow> bool" where
  "isEnglish l \<longleftrightarrow> languageOf l = ''en''"

text \<open>
  An environment for the examples of the specification and of \<^verbatim>\<open>tests/earthHour.test.js\<close>.
  The zone Europe/Amsterdam is as the time zone database has it from 2024 to 2026 (Central
  European Time, offset 60; summer time, offset 120, from 01:00 UTC on the last Sunday of
  March to 01:00 UTC on the last Sunday of October), and Asia/Beirut as it has it in 2024
  (offset 120; summer time, offset 180, from 00:00 local time on Sunday 31 March, which is
  22:00 UTC on the 30th, to 00:00 local time on 27 October); outside these years the two
  answer their standard offset throughout and are not the zones.  The system zone is UTC and
  the locale of the system English.  \<^verbatim>\<open>Intl\<close> takes the tags the examples use and no other
  string: among them are "EN", which it reads as "en", and "enm" (Middle English), a
  well-formed tag it has no data for, so that it formats with the locale of the system.  The
  locale data name the months in Dutch for "nl" and in English otherwise, and write a year
  in decimal digits.  The clock is set as the tests set it.
\<close>

lift_definition europe_amsterdam :: zone is
  "\<lambda>t. if 1711846800000 \<le> t \<and> t < 1729990800000 then 120
       else if 1743296400000 \<le> t \<and> t < 1761440400000 then 120
       else if 1774746000000 \<le> t \<and> t < 1792890000000 then 120
       else (60::int)"
  by simp

lift_definition asia_beirut :: zone is
  "\<lambda>t. if 1711836000000 \<le> t \<and> t < 1729976400000 then 180 else (120::int)"
  by simp

lift_definition utc :: zone is "\<lambda>t. 0"
  by simp

definition test_env :: "int \<Rightarrow> env" where
  "test_env now =
     \<lparr>tzdata = (\<lambda>n. if n = ''Europe/Amsterdam'' then Some europe_amsterdam
                     else if n = ''Asia/Beirut'' then Some asia_beirut else None),
      systemZone = utc,
      defaultLocale = ''en'',
      clock = now,
      validLocale = (\<lambda>l. l \<in> set [''en'', ''en-GB'', ''en-US'', ''nl'', ''EN'', ''enm'']),
      monthLong = (\<lambda>l m.
        if 1 \<le> m \<and> m \<le> 12
        then (if l = ''nl''
              then [''januari'', ''februari'', ''maart'', ''april'', ''mei'', ''juni'', ''juli'',
                    ''augustus'', ''september'', ''oktober'', ''november'', ''december'']
              else [''January'', ''February'', ''March'', ''April'', ''May'', ''June'', ''July'',
                    ''August'', ''September'', ''October'', ''November'', ''December''])
             ! nat (m - 1)
        else []),
      yearText = (\<lambda>l y. numberToString y)\<rparr>"
section \<open>Lemmas\<close>

subsection \<open>Years and days\<close>

lemma div_succ:
  fixes a n :: int
  assumes "0 < n"
  shows "(a + 1) div n = a div n + (if (a + 1) mod n = 0 then 1 else 0)"
proof -
  define q where "q = a div n"
  define r where "r = a mod n"
  have a: "a = q * n + r" and r0: "0 \<le> r" and rn: "r < n"
    using assms by (simp_all add: q_def r_def)
  show ?thesis
  proof (cases "r + 1 = n")
    case True
    then have "a + 1 = (q + 1) * n" using a by (simp add: algebra_simps)
    then show ?thesis using assms by (simp add: q_def [symmetric])
  next
    case False
    then have lt: "r + 1 < n" using rn by simp
    have e: "a + 1 = (r + 1) + q * n" using a by simp
    have "(a + 1) div n = q" and "(a + 1) mod n = r + 1"
      unfolding e using lt r0 by (simp_all add: div_pos_pos_trivial mod_pos_pos_trivial)
    then show ?thesis using r0 by (simp add: q_def [symmetric])
  qed
qed

lemma mod_sub_mult: "(y - k * n) mod n = y mod (n::int)"
proof -
  have "(y - k * n) mod n = (y + (- k) * n) mod n" by simp
  also have "\<dots> = y mod n" by (rule mod_mult_self1)
  finally show ?thesis .
qed

lemma DayFromYear_Suc: "DayFromYear (y + 1) = DayFromYear y + DaysInYear y"
proof -
  have a: "(y - 1968) div 4 = (y - 1969) div 4 + (if y mod 4 = 0 then 1 else 0)"
    using div_succ [of 4 "y - 1969"] mod_sub_mult [of y 492 4] by simp
  have b: "(y - 1900) div 100 = (y - 1901) div 100 + (if y mod 100 = 0 then 1 else 0)"
    using div_succ [of 100 "y - 1901"] mod_sub_mult [of y 19 100] by simp
  have c: "(y - 1600) div 400 = (y - 1601) div 400 + (if y mod 400 = 0 then 1 else 0)"
    using div_succ [of 400 "y - 1601"] mod_sub_mult [of y 4 400] by simp
  have d: "y mod 400 = 0 \<Longrightarrow> y mod 100 = 0" "y mod 100 = 0 \<Longrightarrow> y mod 4 = 0"
    using mod_mod_cancel [of 100 400 y] mod_mod_cancel [of 4 100 y] by simp_all
  have e: "DayFromYear (y + 1) =
      365 * (y - 1969) + (y - 1968) div 4 - (y - 1900) div 100 + (y - 1600) div 400"
    by (simp add: DayFromYear_def)
  have f: "DayFromYear y = 365 * (y - 1970) + (y - 1969) div 4 - (y - 1901) div 100 + (y - 1601) div 400"
    by (simp add: DayFromYear_def)
  show ?thesis
  proof (cases "y mod 4 = 0")
    case False
    with d have "y mod 100 \<noteq> 0" "y mod 400 \<noteq> 0" by auto
    with False show ?thesis unfolding e f a b c DaysInYear_def by simp
  next
    case y4: True
    show ?thesis
    proof (cases "y mod 100 = 0")
      case False
      with d have "y mod 400 \<noteq> 0" by auto
      with False y4 show ?thesis unfolding e f a b c DaysInYear_def by simp
    next
      case y100: True
      show ?thesis
      proof (cases "y mod 400 = 0")
        case False
        with y4 y100 show ?thesis unfolding e f a b c DaysInYear_def by simp
      next
        case True
        with y4 y100 show ?thesis unfolding e f a b c DaysInYear_def by simp
      qed
    qed
  qed
qed

lemma div_bounds:
  fixes a n :: int
  assumes "0 < n"
  shows "n * (a div n) \<le> a" and "a < n * (a div n) + n"
proof -
  have "a = n * (a div n) + a mod n" by simp
  moreover have "0 \<le> a mod n" "a mod n < n" using assms by simp_all
  ultimately show "n * (a div n) \<le> a" and "a < n * (a div n) + n" by linarith+
qed

lemma DayFromYear_bounds:
  "400 * DayFromYear (1970 + k) \<le> 146097 * k + 600"
  "146097 * k - 610 \<le> 400 * DayFromYear (1970 + k)"
proof -
  define q4 where "q4 = (k + 1) div 4"
  define q100 where "q100 = (k + 69) div 100"
  define q400 where "q400 = (k + 369) div 400"
  have e: "DayFromYear (1970 + k) = 365 * k + q4 - q100 + q400"
    by (simp add: DayFromYear_def q4_def q100_def q400_def add.commute)
  have b: "4 * q4 \<le> k + 1" "k + 1 < 4 * q4 + 4" "100 * q100 \<le> k + 69"
    "k + 69 < 100 * q100 + 100" "400 * q400 \<le> k + 369" "k + 369 < 400 * q400 + 400"
    unfolding q4_def q100_def q400_def by (simp_all add: div_bounds)
  have e400: "400 * DayFromYear (1970 + k) = 146000 * k + 400 * q4 - 400 * q100 + 400 * q400"
    by (simp add: e)
  show "400 * DayFromYear (1970 + k) \<le> 146097 * k + 600"
    unfolding e400 using b by linarith
  show "146097 * k - 610 \<le> 400 * DayFromYear (1970 + k)"
    unfolding e400 using b by linarith
qed



lemma YearFromDay_bounds:
  "DayFromYear (YearFromDay d) \<le> d" "d < DayFromYear (YearFromDay d + 1)"
proof -
  define k where "k = (400 * d) div 146097"
  have k: "146097 * k \<le> 400 * d" "400 * d < 146097 * k + 146097"
    unfolding k_def by (simp_all add: div_bounds)
  have lo: "DayFromYear (1970 + k - 1) \<le> d"
    using DayFromYear_bounds(1) [of "k - 1"] k by (simp add: algebra_simps)
  have hi: "d < DayFromYear (1970 + k + 2)"
    using DayFromYear_bounds(2) [of "k + 2"] k by (simp add: algebra_simps)
  have y: "YearFromDay d = (if d < DayFromYear (1970 + k) then 1970 + k - 1
     else if DayFromYear (1970 + k + 1) \<le> d then 1970 + k + 1 else 1970 + k)"
    by (simp add: YearFromDay_def k_def Let_def)
  show "DayFromYear (YearFromDay d) \<le> d"
    unfolding y using lo by auto
  show "d < DayFromYear (YearFromDay d + 1)"
    unfolding y using hi by (auto simp: algebra_simps)
qed

lemma DaysInYear_range: "DaysInYear y = 365 \<or> DaysInYear y = 366"
  by (simp add: DaysInYear_def)

lemma DayFromYear_mono_aux: "0 \<le> n \<Longrightarrow> DayFromYear y + 365 * n \<le> DayFromYear (y + n)"
proof (induction n rule: int_ge_induct)
  case base
  then show ?case by simp
next
  case (step i)
  have "DayFromYear (y + (i + 1)) = DayFromYear (y + i) + DaysInYear (y + i)"
    using DayFromYear_Suc [of "y + i"] by (simp add: add.assoc)
  then show ?case using step DaysInYear_range [of "y + i"] by auto
qed

lemma DayFromYear_strict_mono: "y < y' \<Longrightarrow> DayFromYear y < DayFromYear y'"
  using DayFromYear_mono_aux [of "y' - y" y] by simp

lemma YearFromDay_unique:
  assumes "DayFromYear y \<le> d" "d < DayFromYear (y + 1)"
  shows "YearFromDay d = y"
proof (rule ccontr)
  assume ne: "YearFromDay d \<noteq> y"
  show False
  proof (cases "YearFromDay d < y")
    case True
    then have "YearFromDay d + 1 \<le> y" by simp
    then have "DayFromYear (YearFromDay d + 1) \<le> DayFromYear y"
      using DayFromYear_strict_mono [of "YearFromDay d + 1" y] by (cases "YearFromDay d + 1 = y") auto
    with YearFromDay_bounds(2) [of d] assms show False by simp
  next
    case False
    with ne have "y + 1 \<le> YearFromDay d" by simp
    then have "DayFromYear (y + 1) \<le> DayFromYear (YearFromDay d)"
      using DayFromYear_strict_mono [of "y + 1" "YearFromDay d"] by (cases "y + 1 = YearFromDay d") auto
    with YearFromDay_bounds(1) [of d] assms show False by simp
  qed
qed


subsection \<open>Calendar fields and time values are inverse to each other\<close>

lemma DayWithinYear_bounds:
  "0 \<le> DayWithinYear d" "DayWithinYear d < DaysInYear (YearFromDay d)"
  using YearFromDay_bounds [of d] DayFromYear_Suc [of "YearFromDay d"]
  by (simp_all add: DayWithinYear_def)

lemma MonthFromDay_range: "0 \<le> MonthFromDay d \<and> MonthFromDay d \<le> 11"
  by (simp add: MonthFromDay_def Let_def)

lemma MakeDay_inverse: "MakeDay (YearFromDay d) (MonthFromDay d) (DateFromDay d) = d"
proof -
  have m: "MonthFromDay d div 12 = 0" "MonthFromDay d mod 12 = MonthFromDay d"
    using MonthFromDay_range [of d] by simp_all
  have w: "firstDayOfMonth (MonthFromDay d) (InLeapYear (YearFromDay d)) + DateFromDay d - 1
      = DayWithinYear d"
    using DayWithinYear_bounds(1) [of d]
    by (simp add: MonthFromDay_def DateFromDay_def firstDayOfMonth_def Let_def)
  show ?thesis
    unfolding MakeDay_def Let_def m using w by (simp add: DayWithinYear_def)
qed

lemma MakeTime_inverse:
  "MakeTime (HourFromTime t) (MinFromTime t) (SecFromTime t) (msFromTime t) = TimeWithinDay t"
proof -
  have a: "t div 60000 = (t div 1000) div 60" "t div 3600000 = (t div 1000) div 60 div 60"
    "t div 86400000 = (t div 1000) div 60 div 60 div 24"
    by (simp_all add: zdiv_zmult2_eq [symmetric])
  define a1 where "a1 = t div 1000"
  define a2 where "a2 = a1 div 60"
  define a3 where "a3 = a2 div 60"
  define a4 where "a4 = a3 div 24"
  have e: "t = 1000 * a1 + t mod 1000" "a1 = 60 * a2 + a1 mod 60" "a2 = 60 * a3 + a2 mod 60"
    "a3 = 24 * a4 + a3 mod 24"
    by (simp_all add: a1_def a2_def a3_def a4_def)
  have "t mod 86400000 = t - 86400000 * (t div 86400000)"
    by (simp add: minus_mult_div_eq_mod [symmetric] algebra_simps)
  then have "t mod 86400000 = t - 86400000 * a4"
    by (simp add: a a1_def a2_def a3_def a4_def)
  then show ?thesis
    unfolding MakeTime_def HourFromTime_def MinFromTime_def SecFromTime_def msFromTime_def
      TimeWithinDay_def msPerDay_def a
    unfolding a1_def [symmetric] a2_def [symmetric] a3_def [symmetric]
    using e by linarith
qed


lemma wallClock_utcFields: "wallClock (utcFields t) = t"
proof -
  have "MakeDate (MakeDay (YearFromTime t) (MonthFromTime t) (DateFromTime t))
      (MakeTime (HourFromTime t) (MinFromTime t) (SecFromTime t) (msFromTime t)) = t"
    unfolding YearFromTime_def MonthFromTime_def DateFromTime_def MakeDay_inverse MakeTime_inverse
    by (simp add: MakeDate_def Day_def TimeWithinDay_def)
  then show ?thesis
    by (simp add: wallClock_def utcFields_def)
qed

lemma isLeapYear_iff: "isLeapYear yr \<longleftrightarrow> DaysInYear yr = 366"
  using mod_mod_cancel [of 100 400 yr] mod_mod_cancel [of 4 100 yr]
  by (auto simp: isLeapYear_def DaysInYear_def)

lemma InLeapYear_cases: "InLeapYear yr = (if isLeapYear yr then 1 else 0)"
  by (simp add: InLeapYear_def isLeapYear_iff)

lemma DaysInYear_leap: "DaysInYear yr = 365 + InLeapYear yr"
  using DaysInYear_range [of yr] by (auto simp: InLeapYear_def)

lemma fields_of_MakeDay:
  assumes "0 \<le> mn" "mn \<le> 11" "1 \<le> dy" "dy \<le> daysInMonth yr (mn + 1)"
  shows "YearFromDay (MakeDay yr mn dy) = yr"
    and "MonthFromDay (MakeDay yr mn dy) = mn"
    and "DateFromDay (MakeDay yr mn dy) = dy"
proof -
  define l where "l = InLeapYear yr"
  have l: "0 \<le> l" "l \<le> 1" by (simp_all add: l_def InLeapYear_def)
  have mm: "mn div 12 = 0" "mn mod 12 = mn" using assms by simp_all
  have md: "MakeDay yr mn dy = DayFromYear yr + firstDayOfMonth mn l + dy - 1"
    by (simp add: MakeDay_def Let_def mm l_def)
  have dim: "daysInMonth yr (mn + 1) =
      (if mn = 1 then 28 + l else if mn = 3 \<or> mn = 5 \<or> mn = 8 \<or> mn = 10 then 30 else 31)"
    using assms(1,2) by (auto simp: daysInMonth_def Let_def mm l_def InLeapYear_cases)
  have cases: "mn = 0 \<or> mn = 1 \<or> mn = 2 \<or> mn = 3 \<or> mn = 4 \<or> mn = 5 \<or> mn = 6 \<or>
      mn = 7 \<or> mn = 8 \<or> mn = 9 \<or> mn = 10 \<or> mn = 11"
    using assms(1,2) by arith
  note b = l assms(3) assms(4) [unfolded dim]
  have w: "0 \<le> firstDayOfMonth mn l + dy - 1" "firstDayOfMonth mn l + dy - 1 < 365 + l"
    using cases b by (elim disjE; simp add: firstDayOfMonth_def)+
  have y: "YearFromDay (MakeDay yr mn dy) = yr"
    by (rule YearFromDay_unique)
      (use w in \<open>simp_all add: md DayFromYear_Suc DaysInYear_leap l_def [symmetric]\<close>)
  have dw: "DayWithinYear (MakeDay yr mn dy) = firstDayOfMonth mn l + dy - 1"
    by (simp add: DayWithinYear_def y) (simp add: md)
  show "YearFromDay (MakeDay yr mn dy) = yr" by (rule y)
  show m: "MonthFromDay (MakeDay yr mn dy) = mn"
    unfolding MonthFromDay_def Let_def dw y l_def [symmetric]
    using cases b by (elim disjE; simp add: firstDayOfMonth_def)
  show "DateFromDay (MakeDay yr mn dy) = dy"
    unfolding DateFromDay_def Let_def dw y m l_def [symmetric]
    using cases by (elim disjE; simp add: firstDayOfMonth_def)
qed

lemma time_fields:
  assumes "0 \<le> h" "h < 24" "0 \<le> m" "m < 60" "0 \<le> s" "s < 60" "0 \<le> milli" "milli < 1000"
  shows "Day (MakeDate dd (MakeTime h m s milli)) = dd"
    and "HourFromTime (MakeDate dd (MakeTime h m s milli)) = h"
    and "MinFromTime (MakeDate dd (MakeTime h m s milli)) = m"
    and "SecFromTime (MakeDate dd (MakeTime h m s milli)) = s"
    and "msFromTime (MakeDate dd (MakeTime h m s milli)) = milli"
proof -
  define t where "t = MakeDate dd (MakeTime h m s milli)"
  have t: "t = 86400000 * dd + 3600000 * h + 60000 * m + 1000 * s + milli"
    by (simp add: t_def MakeDate_def MakeTime_def msPerDay_def)
  have "t div 86400000 = dd"
    by (rule int_div_pos_eq [where r = "3600000 * h + 60000 * m + 1000 * s + milli"])
      (use assms t in simp_all)
  then show "Day (MakeDate dd (MakeTime h m s milli)) = dd"
    by (simp add: Day_def msPerDay_def t_def)
  have "t div 3600000 = 24 * dd + h"
    by (rule int_div_pos_eq [where r = "60000 * m + 1000 * s + milli"]) (use assms t in simp_all)
  moreover have "(24 * dd + h) mod 24 = h"
    by (rule int_mod_pos_eq [where q = dd]) (use assms in simp_all)
  ultimately show "HourFromTime (MakeDate dd (MakeTime h m s milli)) = h"
    by (simp add: HourFromTime_def t_def)
  have "t div 60000 = 60 * (24 * dd + h) + m"
    by (rule int_div_pos_eq [where r = "1000 * s + milli"]) (use assms t in simp_all)
  moreover have "(60 * (24 * dd + h) + m) mod 60 = m"
    by (rule int_mod_pos_eq [where q = "24 * dd + h"]) (use assms in simp_all)
  ultimately show "MinFromTime (MakeDate dd (MakeTime h m s milli)) = m"
    by (simp add: MinFromTime_def t_def)
  have "t div 1000 = 60 * (60 * (24 * dd + h) + m) + s"
    by (rule int_div_pos_eq [where r = milli]) (use assms t in simp_all)
  moreover have "(60 * (60 * (24 * dd + h) + m) + s) mod 60 = s"
    by (rule int_mod_pos_eq [where q = "60 * (24 * dd + h) + m"]) (use assms in simp_all)
  ultimately show "SecFromTime (MakeDate dd (MakeTime h m s milli)) = s"
    by (simp add: SecFromTime_def t_def)
  have "t mod 1000 = milli"
    by (rule int_mod_pos_eq [where q = "60 * (60 * (24 * dd + h) + m) + s"])
      (use assms t in simp_all)
  then show "msFromTime (MakeDate dd (MakeTime h m s milli)) = milli"
    by (simp add: msFromTime_def t_def)
qed

lemma utcFields_wallClock:
  assumes "1 \<le> c_month obj" "c_month obj \<le> 12" "1 \<le> c_day obj"
    "c_day obj \<le> daysInMonth (c_year obj) (c_month obj)"
    "0 \<le> c_hour obj" "c_hour obj < 24" "0 \<le> c_minute obj" "c_minute obj < 60"
    "0 \<le> c_second obj" "c_second obj < 60" "0 \<le> c_millisecond obj" "c_millisecond obj < 1000"
  shows "utcFields (wallClock obj) = obj"
proof -
  define dd where "dd = MakeDay (c_year obj) (c_month obj - 1) (c_day obj)"
  define t where "t = MakeDate dd (MakeTime (c_hour obj) (c_minute obj) (c_second obj) (c_millisecond obj))"
  have t: "wallClock obj = t"
    by (simp add: wallClock_def t_def dd_def)
  note tf = time_fields [OF assms(5-12), of dd, folded t_def]
  have f: "YearFromDay dd = c_year obj" "MonthFromDay dd = c_month obj - 1"
    "DateFromDay dd = c_day obj"
    unfolding dd_def using assms(1-4) by (simp_all add: fields_of_MakeDay)
  show ?thesis
    unfolding utcFields_def t YearFromTime_def MonthFromTime_def DateFromTime_def tf f
    by simp
qed

subsection \<open>The last Saturday of March\<close>

lemma daysInMonth_march: "daysInMonth yr 3 = 31"
  by (simp add: daysInMonth_def)


lemma dayOfWeek_MakeDay:
  "dayOfWeek yr mo dy =
     (if (MakeDay yr (mo - 1) dy + 4) mod 7 = 0 then 7 else (MakeDay yr (mo - 1) dy + 4) mod 7)"
  by (simp add: dayOfWeek_def WeekDay_def Day_def MakeDate_def msPerDay_def Let_def)

lemma lastSaturday_range: "25 \<le> lastSaturday yr" "lastSaturday yr \<le> 31"
proof -
  have "0 \<le> (MakeDay yr 2 31 + 4) mod 7" "(MakeDay yr 2 31 + 4) mod 7 < 7" by simp_all
  then show "25 \<le> lastSaturday yr" "lastSaturday yr \<le> 31"
    by (auto simp: lastSaturday_def daysToSubtract_def dayOfWeek_MakeDay)
qed



subsection \<open>Time values, offsets and valid instances\<close>

lemma TimeClip_Some:
  "- 8640000000000000 \<le> t \<Longrightarrow> t \<le> 8640000000000000 \<Longrightarrow> TimeClip t = Some t"
  by (simp add: TimeClip_def)

lemma TimeClip_cases:
  "TimeClip t = (if - 8640000000000000 \<le> t \<and> t \<le> 8640000000000000 then Some t else None)"
  by (simp add: TimeClip_def)

lemma offsetAt_bound: "- 6000 \<le> offsetAt z t" "offsetAt z t \<le> 6000"
  by (transfer, simp)+

lemma zone_offset_Some:
  "- 8640000000000000 \<le> t \<Longrightarrow> t \<le> 8640000000000000 \<Longrightarrow>
     zone_offset z t = Some (offsetAt z t)"
  by (simp add: zone_offset_def TimeClip_def)

lemma newDateTime_Valid:
  "- 8640000000000000 \<le> ts + offset * 60000 \<Longrightarrow> ts + offset * 60000 \<le> 8640000000000000 \<Longrightarrow>
     newDateTime ts z offset l = Valid \<lparr>dt_ts = ts, dt_zone = z, dt_o = offset, dt_loc = l\<rparr>"
  by (simp add: newDateTime_def tsToObj_def TimeClip_def)

lemma DateTime_local_Valid:
  assumes "\<bar>t\<bar> \<le> 8639999640000000"
  shows "DateTime_local e t =
    Valid \<lparr>dt_ts = t, dt_zone = systemZone e, dt_o = offsetAt (systemZone e) t,
      dt_loc = defaultLocale e\<rparr>"
proof -
  have o: "zone_offset (systemZone e) t = Some (offsetAt (systemZone e) t)"
    using assms by (intro zone_offset_Some) simp_all
  show ?thesis
    unfolding DateTime_local_def o option.case
    using assms offsetAt_bound [of "systemZone e" t] by (intro newDateTime_Valid) simp_all
qed

lemma setZone_Valid:
  assumes "tzdata e timezone = Some z" "\<bar>dt_ts inst\<bar> \<le> 8639999640000000"
  shows "setZone e (Valid inst) timezone =
    Valid \<lparr>dt_ts = dt_ts inst, dt_zone = z, dt_o = offsetAt z (dt_ts inst), dt_loc = dt_loc inst\<rparr>"
proof -
  have o: "zone_offset z (dt_ts inst) = Some (offsetAt z (dt_ts inst))"
    using assms(2) by (intro zone_offset_Some) simp_all
  show ?thesis
    unfolding setZone_def assms(1) option.case DateTime.case o
    using assms(2) offsetAt_bound [of z "dt_ts inst"] by (intro newDateTime_Valid) simp_all
qed

lemma inZone_Date:
  assumes "tzdata e timezone = Some z" "\<bar>t\<bar> \<le> 8639999640000000"
  shows "inZone e (Date t) timezone =
    Valid \<lparr>dt_ts = t, dt_zone = z, dt_o = offsetAt z t, dt_loc = defaultLocale e\<rparr>"
  using setZone_Valid [OF assms(1), of "\<lparr>dt_ts = t, dt_zone = systemZone e,
      dt_o = offsetAt (systemZone e) t, dt_loc = defaultLocale e\<rparr>"] assms(2)
  by (simp add: inZone_def DateTime_fromJSDate_def DateTime_local_Valid)

lemma now_resolved:
  assumes "tzdata e timezone = Some z" "\<bar>clock e\<bar> \<le> 8639999640000000"
  shows "setZone e (DateTime_now e) timezone =
    Valid \<lparr>dt_ts = clock e, dt_zone = z, dt_o = offsetAt z (clock e), dt_loc = defaultLocale e\<rparr>"
  using setZone_Valid [OF assms(1), of "\<lparr>dt_ts = clock e, dt_zone = systemZone e,
      dt_o = offsetAt (systemZone e) (clock e), dt_loc = defaultLocale e\<rparr>"] assms(2)
  by (simp add: DateTime_now_def DateTime_local_Valid)

lemma clone_Valid:
  assumes "\<bar>ts\<bar> \<le> 8639999640000000" "dt_o inst = offsetAt (dt_zone inst) (dt_ts inst)"
  shows "clone inst (Some ts) offset =
    Valid \<lparr>dt_ts = ts, dt_zone = dt_zone inst, dt_o = offsetAt (dt_zone inst) ts,
      dt_loc = dt_loc inst\<rparr>"
proof (cases "ts = dt_ts inst")
  case True
  then show ?thesis using assms(2) by (simp add: clone_def)
next
  case False
  have o: "zone_offset (dt_zone inst) ts = Some (offsetAt (dt_zone inst) ts)"
    using assms(1) by (intro zone_offset_Some) simp_all
  have "newDateTime ts (dt_zone inst) (offsetAt (dt_zone inst) ts) (dt_loc inst) =
      Valid \<lparr>dt_ts = ts, dt_zone = dt_zone inst, dt_o = offsetAt (dt_zone inst) ts,
        dt_loc = dt_loc inst\<rparr>"
    using assms(1) offsetAt_bound [of "dt_zone inst" ts] by (intro newDateTime_Valid) simp_all
  then show ?thesis using False by (simp add: clone_def o)
qed

lemma toJSDate_Valid:
  "\<bar>dt_ts inst\<bar> \<le> 8640000000000000 \<Longrightarrow> toJSDate (Valid inst) = Date (dt_ts inst)"
  by (auto simp: toJSDate_def newDate_def TimeClip_def)

lemma toJSDate_Invalid: "toJSDate Invalid = InvalidDate"
  by (simp add: toJSDate_def newDate_def)

subsection \<open>The years that have a 31 March\<close>

lemma DayFromYear_ends: "DayFromYear 275760 = 99999744" "DayFromYear (- 271820) = - 99999744"
  "DayFromYear 275761 = 100000110" "DayFromYear (- 271821) = - 100000109"
  by (simp_all add: DayFromYear_def)

lemma DayFromYear_mono: "y \<le> y' \<Longrightarrow> DayFromYear y \<le> DayFromYear y'"
  using DayFromYear_strict_mono [of y y'] by (cases "y = y'") auto

lemma marchAt_days:
  "marchAt yr dy h m =
     86400000 * DayFromYear yr + 86400000 * InLeapYear yr + 86400000 * dy + 5011200000
       + 3600000 * h + 60000 * m"
  by (simp add: marchAt_def wallClock_def MakeDate_def MakeDay_def MakeTime_def msPerDay_def
      firstDayOfMonth_def Let_def)

lemma InLeapYear_range: "0 \<le> InLeapYear y" "InLeapYear y \<le> 1"
  by (simp_all add: InLeapYear_def)

lemma march31_range:
  assumes "- 271820 \<le> yr" "yr \<le> 275760"
  shows "- 8639970192000000 \<le> marchAt yr 31 0 0" "marchAt yr 31 0 0 \<le> 8639985657600000"
proof -
  have lo: "- 99999744 \<le> DayFromYear yr"
    using DayFromYear_mono [OF assms(1)] by (simp add: DayFromYear_ends)
  show "- 8639970192000000 \<le> marchAt yr 31 0 0"
    unfolding marchAt_days using lo InLeapYear_range(1) [of yr] by simp
  have "DayFromYear yr + InLeapYear yr \<le> 99999745"
  proof (cases "yr = 275760")
    case True
    then show ?thesis using InLeapYear_range(2) [of yr] by (simp add: DayFromYear_ends)
  next
    case False
    then have "DayFromYear yr < DayFromYear 275760"
      using assms(2) by (intro DayFromYear_strict_mono) simp
    then show ?thesis using InLeapYear_range(2) [of yr] by (simp add: DayFromYear_ends)
  qed
  then show "marchAt yr 31 0 0 \<le> 8639985657600000"
    unfolding marchAt_days by simp
qed

lemma march31_beyond:
  assumes "yr < - 271820 \<or> 275760 < yr"
  shows "TimeClip (marchAt yr 31 0 0) = None"
proof -
  from assms consider "yr \<le> - 271821" | "275761 \<le> yr" by linarith
  then show ?thesis
  proof cases
    case 1
    then have "DayFromYear yr \<le> - 100000109"
      using DayFromYear_mono [of yr "- 271821"] by (simp add: DayFromYear_ends)
    then have "marchAt yr 31 0 0 < - 8640000000000000"
      unfolding marchAt_days using InLeapYear_range(2) [of yr] by simp
    then show ?thesis by (simp add: TimeClip_def)
  next
    case 2
    then have "100000110 \<le> DayFromYear yr"
      using DayFromYear_mono [of 275761 yr] by (simp add: DayFromYear_ends)
    then have "8640000000000000 < marchAt yr 31 0 0"
      unfolding marchAt_days using InLeapYear_range(1) [of yr] by simp
    then show ?thesis by (simp add: TimeClip_def)
  qed
qed

subsection \<open>The local time of an instance, and the steps taken from it\<close>

lemma dt_c_wallClock: "wallClock (dt_c inst) = dt_ts inst + dt_o inst * 60000"
  by (simp add: dt_c_def wallClock_utcFields)

lemma utcFields_day_valid:
  "1 \<le> c_day (utcFields t)"
  "c_day (utcFields t) \<le> daysInMonth (c_year (utcFields t)) (c_month (utcFields t))"
proof -
  define d where "d = Day t"
  define y where "y = YearFromDay d"
  define l where "l = InLeapYear y"
  define w where "w = DayWithinYear d"
  have l: "0 \<le> l" "l \<le> 1" by (simp_all add: l_def InLeapYear_def)
  have w: "0 \<le> w" "w < 365 + l"
    using DayWithinYear_bounds [of d] by (simp_all add: w_def DaysInYear_leap l_def y_def)
  have mr: "0 \<le> MonthFromDay d" "MonthFromDay d \<le> 11"
    using MonthFromDay_range [of d] by simp_all
  have mm: "(MonthFromDay d + 1 - 1) mod 12 + 1 = MonthFromDay d + 1"
    using mr by simp
  have dim: "daysInMonth y (MonthFromDay d + 1) =
      (if MonthFromDay d = 1 then 28 + l
       else if MonthFromDay d = 3 \<or> MonthFromDay d = 5 \<or> MonthFromDay d = 8 \<or> MonthFromDay d = 10
       then 30 else 31)"
    unfolding daysInMonth_def Let_def mm by (auto simp: l_def InLeapYear_cases)
  have c: "c_day (utcFields t) = DateFromDay d" "c_year (utcFields t) = y"
    "c_month (utcFields t) = MonthFromDay d + 1"
    by (simp_all add: utcFields_def DateFromTime_def YearFromTime_def MonthFromTime_def
        d_def y_def)
  consider "w < 31" | "31 \<le> w" "w < 59 + l" | "59 + l \<le> w" "w < 90 + l"
    | "90 + l \<le> w" "w < 120 + l" | "120 + l \<le> w" "w < 151 + l" | "151 + l \<le> w" "w < 181 + l"
    | "181 + l \<le> w" "w < 212 + l" | "212 + l \<le> w" "w < 243 + l" | "243 + l \<le> w" "w < 273 + l"
    | "273 + l \<le> w" "w < 304 + l" | "304 + l \<le> w" "w < 334 + l" | "334 + l \<le> w"
    by linarith
  then have "1 \<le> DateFromDay d \<and> DateFromDay d \<le> daysInMonth y (MonthFromDay d + 1)"
    unfolding dim using w l
    by cases
      (simp_all add: MonthFromDay_def DateFromDay_def Let_def w_def [symmetric]
        y_def [symmetric] l_def [symmetric])
  then show "1 \<le> c_day (utcFields t)"
    "c_day (utcFields t) \<le> daysInMonth (c_year (utcFields t)) (c_month (utcFields t))"
    by (simp_all add: c)
qed

lemma wallClock_day: "wallClock (c\<lparr>c_day := d\<rparr>) = wallClock c + (d - c_day c) * 86400000"
  by (simp add: wallClock_def MakeDate_def MakeDay_def Let_def msPerDay_def algebra_simps)

lemma MakeDay_utcFields:
  "MakeDay (c_year (utcFields t)) (c_month (utcFields t) - 1) (c_day (utcFields t)) = Day t"
  using MakeDay_inverse [of "Day t"]
  by (simp add: utcFields_def YearFromTime_def MonthFromTime_def DateFromTime_def)

lemma weekday_local:
  "weekday (Valid inst) =
     Some (if (Day (dt_ts inst + dt_o inst * 60000) + 4) mod 7 = 0 then 7
           else (Day (dt_ts inst + dt_o inst * 60000) + 4) mod 7)"
  using MakeDay_utcFields [of "dt_ts inst + dt_o inst * 60000"]
  by (simp add: weekday_def dayOfWeek_MakeDay dt_c_def mult.commute)

lemma adjustTime_days:
  "adjustTime inst \<lparr>d_months = 0, d_days = k, d_hours = 0\<rparr> =
     (case TimeClip (dt_ts inst + dt_o inst * 60000 + k * 86400000) of
        None \<Rightarrow> None
      | Some l \<Rightarrow>
          (case fixOffset l (dt_o inst) (dt_zone inst) of
             None \<Rightarrow> None
           | Some (ts, offset) \<Rightarrow> Some (ts, Some offset)))"
proof -
  define c where "c = dt_c inst"
  have m: "min (c_day c) (daysInMonth (c_year c) (c_month c)) = c_day c"
    using utcFields_day_valid(2) [of "dt_ts inst + dt_o inst * 60 * 1000"]
    by (simp add: c_def dt_c_def)
  have c2: "c\<lparr>c_year := c_year c, c_month := c_month c + 0,
      c_day := min (c_day c) (daysInMonth (c_year c) (c_month c + 0)) + k\<rparr> =
      c\<lparr>c_day := c_day c + k\<rparr>"
    by (simp add: m)
  have w: "wallClock (c\<lparr>c_day := c_day c + k\<rparr>) =
      dt_ts inst + dt_o inst * 60000 + k * 86400000"
    by (simp add: wallClock_day c_def dt_c_wallClock)
  have l: "objToLocalTS (c\<lparr>c_day := c_day c + k\<rparr>) =
      TimeClip (dt_ts inst + dt_o inst * 60000 + k * 86400000)"
    using w by (simp add: objToLocalTS_def wallClock_def)
  show ?thesis
    unfolding adjustTime_def Let_def duration.simps c_def [symmetric] c2 objToTS_def l
    by (simp split: option.splits)
qed

lemma set_time_local:
  "set_time (Valid inst) 20 30 0 0 =
     (case TimeClip (Day (dt_ts inst + dt_o inst * 60000) * 86400000 + 73800000) of
        None \<Rightarrow> Invalid
      | Some l \<Rightarrow>
          (case fixOffset l (dt_o inst) (dt_zone inst) of
             None \<Rightarrow> Invalid
           | Some (ts, offset) \<Rightarrow> clone inst (Some ts) (Some offset)))"
proof -
  define c where "c = dt_c inst"
  have m: "min (daysInMonth (c_year c) (c_month c)) (c_day c) = c_day c"
    using utcFields_day_valid(2) [of "dt_ts inst + dt_o inst * 60 * 1000"]
    by (simp add: c_def dt_c_def)
  have d: "MakeDay (c_year c) (c_month c - 1) (c_day c) = Day (dt_ts inst + dt_o inst * 60000)"
    using MakeDay_utcFields [of "dt_ts inst + dt_o inst * 60000"]
    by (simp add: c_def dt_c_def mult.commute)
  have l: "objToLocalTS (c\<lparr>c_hour := 20, c_minute := 30, c_second := 0, c_millisecond := 0,
      c_day := min (daysInMonth (c_year c) (c_month c)) (c_day c)\<rparr>) =
      TimeClip (Day (dt_ts inst + dt_o inst * 60000) * 86400000 + 73800000)"
    unfolding m by (simp add: objToLocalTS_def d MakeDate_def MakeTime_def msPerDay_def)
  show ?thesis
    unfolding set_time_def DateTime.case Let_def c_def [symmetric] objToTS_def l
    by (simp add: clone_def split: option.splits)
qed

lemma minus_days:
  "minus (Valid inst) \<lparr>d_months = 0, d_days = n, d_hours = 0\<rparr> =
     (case TimeClip (dt_ts inst + dt_o inst * 60000 - n * 86400000) of
        None \<Rightarrow> Invalid
      | Some l \<Rightarrow>
          (case fixOffset l (dt_o inst) (dt_zone inst) of
             None \<Rightarrow> Invalid
           | Some (ts, offset) \<Rightarrow> clone inst (Some ts) (Some offset)))"
  using adjustTime_days [of inst "- n"]
  by (simp add: minus_def negate_def plus_def clone_def split: option.splits)

subsection \<open>Resolving a wall-clock reading\<close>

lemma fixOffset_unfold:
  "fixOffset L p z =
     (case zone_offset z (L - p * 60000) of
        None \<Rightarrow> None
      | Some o2 \<Rightarrow>
          if p = o2 then Some (L - p * 60000, p)
          else
            (case zone_offset z (L - o2 * 60000) of
               None \<Rightarrow> None
             | Some o3 \<Rightarrow>
                 if o2 = o3 then Some (L - o2 * 60000, o2)
                 else Some (L - min o2 o3 * 60000, max o2 o3)))"
proof -
  have a: "x * 60 * 1000 = x * 60000" for x :: int
    by simp
  have b: "L - p * 60000 - (o2 - p) * 60000 = L - o2 * 60000" for o2
    by (simp add: algebra_simps)
  show ?thesis
    unfolding fixOffset_def Let_def a b ..
qed

lemma fixOffset_settled:
  assumes "settled z lo hi L c" "lo \<le> o1" "o1 \<le> hi" "\<bar>o1\<bar> \<le> 6000"
    and "\<bar>L\<bar> \<le> 8639999000000000"
  shows "fixOffset L o1 z = Some (L - c * 60000, c)"
proof -
  have a: "offsetAt z (L - o1 * 60000) = c" and b: "offsetAt z (L - c * 60000) = c"
    using assms(1-3) by (simp_all add: settled_def)
  have c: "\<bar>c\<bar> \<le> 6000"
    using offsetAt_bound [of z "L - c * 60000"] b by simp
  have za: "zone_offset z (L - o1 * 60000) = Some c"
    using assms(4,5) a by (subst zone_offset_Some) simp_all
  have zb: "zone_offset z (L - c * 60000) = Some c"
    using assms(5) c b by (subst zone_offset_Some) simp_all
  show ?thesis
    by (simp add: fixOffset_unfold za zb)
qed

lemma settled_offset: "settled z lo hi L c \<Longrightarrow> offsetAt z (L - c * 60000) = c"
  by (simp add: settled_def)

lemma fixOffset_bounded:
  assumes "\<bar>L\<bar> \<le> 8639999000000000" "\<bar>p\<bar> \<le> 6000"
  shows "\<exists>ts offset. fixOffset L p z = Some (ts, offset)
    \<and> L - 360000000 \<le> ts \<and> ts \<le> L + 360000000 \<and> \<bar>offset\<bar> \<le> 6000"
proof -
  define o2 where "o2 = offsetAt z (L - p * 60000)"
  define o3 where "o3 = offsetAt z (L - o2 * 60000)"
  have b2: "\<bar>o2\<bar> \<le> 6000"
    using offsetAt_bound [of z "L - p * 60000"] by (simp add: o2_def)
  have b3: "\<bar>o3\<bar> \<le> 6000"
    using offsetAt_bound [of z "L - o2 * 60000"] by (simp add: o3_def)
  have z2: "zone_offset z (L - p * 60000) = Some o2"
    unfolding o2_def using assms by (intro zone_offset_Some) simp_all
  have z3: "zone_offset z (L - o2 * 60000) = Some o3"
    unfolding o3_def using assms(1) b2 by (intro zone_offset_Some) simp_all
  have f: "fixOffset L p z =
      (if p = o2 then Some (L - p * 60000, p)
       else if o2 = o3 then Some (L - o2 * 60000, o2)
       else Some (L - min o2 o3 * 60000, max o2 o3))"
    by (simp add: fixOffset_unfold z2 z3)
  show ?thesis
    unfolding f using assms(2) b2 b3 by (auto simp: min_def max_def)
qed


subsection \<open>What \<open>getEarthHourDate\<close> answers in any zone\<close>

lemma zone_offset_value:
  assumes "zone_offset z t = Some p"
  shows "p = offsetAt z t" and "\<bar>p\<bar> \<le> 6000" and "\<bar>t\<bar> \<le> 8640000000000000"
  using assms offsetAt_bound [of z t]
  by (auto simp: zone_offset_def TimeClip_def split: if_splits)

lemma Day_bounds: "Day t * 86400000 \<le> t" "t < Day t * 86400000 + 86400000"
  using div_bounds [of 86400000 t] by (simp_all add: Day_def msPerDay_def)

lemma clone_bounded:
  assumes "\<bar>ts\<bar> \<le> 8639999640000000" "\<bar>dt_o inst\<bar> \<le> 6000"
  shows "\<exists>i. clone inst (Some ts) offset = Valid i \<and> dt_ts i = ts \<and> dt_zone i = dt_zone inst
    \<and> dt_loc i = dt_loc inst \<and> \<bar>dt_o i\<bar> \<le> 6000"
proof (cases "ts = dt_ts inst")
  case True
  then show ?thesis using assms(2) by (simp add: clone_def)
next
  case False
  have o: "zone_offset (dt_zone inst) ts = Some (offsetAt (dt_zone inst) ts)"
    using assms(1) by (intro zone_offset_Some) simp_all
  have "newDateTime ts (dt_zone inst) (offsetAt (dt_zone inst) ts) (dt_loc inst) =
      Valid \<lparr>dt_ts = ts, dt_zone = dt_zone inst, dt_o = offsetAt (dt_zone inst) ts,
        dt_loc = dt_loc inst\<rparr>"
    using assms(1) offsetAt_bound [of "dt_zone inst" ts] by (intro newDateTime_Valid) simp_all
  then show ?thesis
    using False offsetAt_bound [of "dt_zone inst" ts] by (simp add: clone_def o)
qed

lemma fromObject_bounded:
  assumes tz: "tzdata e timezone = Some z"
    and p: "zone_offset z (clock e) = Some p"
    and yr: "- 271820 \<le> yr" "yr \<le> 275760"
  shows "\<exists>i. DateTime_fromObject e (Some yr) 3 31 timezone = Inr (Valid i) \<and> dt_zone i = z
    \<and> dt_loc i = defaultLocale e \<and> \<bar>dt_o i\<bar> \<le> 6000
    \<and> marchAt yr 31 0 0 - 360000000 \<le> dt_ts i \<and> dt_ts i \<le> marchAt yr 31 0 0 + 360000000"
proof -
  define L where "L = marchAt yr 31 0 0"
  note r = march31_range [OF yr, folded L_def]
  have l: "objToLocalTS \<lparr>c_year = yr, c_month = 3, c_day = 31, c_hour = 0, c_minute = 0,
      c_second = 0, c_millisecond = 0\<rparr> = Some L"
    using r by (simp add: objToLocalTS_def L_def marchAt_def wallClock_def TimeClip_def)
  have La: "\<bar>L\<bar> \<le> 8639999000000000"
    using r by simp
  have pb: "\<bar>p\<bar> \<le> 6000"
    by (rule zone_offset_value(2) [OF p])
  from fixOffset_bounded [OF La pb, of z]
  obtain ts offset where f: "fixOffset L p z = Some (ts, offset)"
    and b: "L - 360000000 \<le> ts" "ts \<le> L + 360000000" "\<bar>offset\<bar> \<le> 6000"
    by blast
  have n: "newDateTime ts z offset (defaultLocale e) =
      Valid \<lparr>dt_ts = ts, dt_zone = z, dt_o = offset, dt_loc = defaultLocale e\<rparr>"
    using r b by (intro newDateTime_Valid) simp_all
  have "DateTime_fromObject e (Some yr) 3 31 timezone =
      Inr (Valid \<lparr>dt_ts = ts, dt_zone = z, dt_o = offset, dt_loc = defaultLocale e\<rparr>)"
    by (simp add: DateTime_fromObject_def tz daysInMonth_march Let_def p objToTS_def l f n)
  then show ?thesis
    using b by (simp add: L_def)
qed

lemma minus_days_bounded:
  assumes "\<bar>dt_ts inst\<bar> \<le> 8639995000000000" "\<bar>dt_o inst\<bar> \<le> 6000" "0 \<le> n" "n \<le> 6"
  shows "\<exists>i. minus (Valid inst) \<lparr>d_months = 0, d_days = n, d_hours = 0\<rparr> = Valid i
    \<and> dt_zone i = dt_zone inst \<and> dt_loc i = dt_loc inst \<and> \<bar>dt_o i\<bar> \<le> 6000
    \<and> dt_ts inst - n * 86400000 - 720000000 \<le> dt_ts i
    \<and> dt_ts i \<le> dt_ts inst - n * 86400000 + 720000000"
proof -
  define L where "L = dt_ts inst + dt_o inst * 60000 - n * 86400000"
  have L: "dt_ts inst - n * 86400000 - 360000000 \<le> L" "L \<le> dt_ts inst - n * 86400000 + 360000000"
    using assms(2) by (simp_all add: L_def)
  have c: "TimeClip L = Some L"
    using L assms(1,3,4) by (intro TimeClip_Some) simp_all
  have La: "\<bar>L\<bar> \<le> 8639999000000000"
    using L assms by simp
  from fixOffset_bounded [OF La assms(2), of "dt_zone inst"]
  obtain ts offset where f: "fixOffset L (dt_o inst) (dt_zone inst) = Some (ts, offset)"
    and b: "L - 360000000 \<le> ts" "ts \<le> L + 360000000"
    by blast
  have ta: "\<bar>ts\<bar> \<le> 8639999640000000"
    using b L assms by simp
  from clone_bounded [OF ta assms(2), of "Some offset"]
  obtain i where i: "clone inst (Some ts) (Some offset) = Valid i" "dt_ts i = ts"
    "dt_zone i = dt_zone inst" "dt_loc i = dt_loc inst" "\<bar>dt_o i\<bar> \<le> 6000"
    by blast
  have "minus (Valid inst) \<lparr>d_months = 0, d_days = n, d_hours = 0\<rparr> = Valid i"
    by (simp add: minus_days L_def [symmetric] c f i(1))
  then show ?thesis
    using i b L by simp
qed

lemma set_time_bounded:
  assumes "\<bar>dt_ts inst\<bar> \<le> 8639995000000000" "\<bar>dt_o inst\<bar> \<le> 6000"
  shows "\<exists>i. set_time (Valid inst) 20 30 0 0 = Valid i
    \<and> dt_zone i = dt_zone inst \<and> dt_loc i = dt_loc inst \<and> \<bar>dt_o i\<bar> \<le> 6000
    \<and> dt_ts inst - 740000000 \<le> dt_ts i \<and> dt_ts i \<le> dt_ts inst + 800000000"
proof -
  define L where "L = Day (dt_ts inst + dt_o inst * 60000) * 86400000 + 73800000"
  have L: "dt_ts inst - 380000000 \<le> L" "L \<le> dt_ts inst + 440000000"
    using assms(2) Day_bounds [of "dt_ts inst + dt_o inst * 60000"] by (simp_all add: L_def)
  have c: "TimeClip L = Some L"
    using L assms(1) by (intro TimeClip_Some) simp_all
  have La: "\<bar>L\<bar> \<le> 8639999000000000"
    using L assms by simp
  from fixOffset_bounded [OF La assms(2), of "dt_zone inst"]
  obtain ts offset where f: "fixOffset L (dt_o inst) (dt_zone inst) = Some (ts, offset)"
    and b: "L - 360000000 \<le> ts" "ts \<le> L + 360000000"
    by blast
  have ta: "\<bar>ts\<bar> \<le> 8639999640000000"
    using b L assms by simp
  from clone_bounded [OF ta assms(2), of "Some offset"]
  obtain i where i: "clone inst (Some ts) (Some offset) = Valid i" "dt_ts i = ts"
    "dt_zone i = dt_zone inst" "dt_loc i = dt_loc inst" "\<bar>dt_o i\<bar> \<le> 6000"
    by blast
  have "set_time (Valid inst) 20 30 0 0 = Valid i"
    by (simp add: set_time_local L_def [symmetric] c f i(1))
  then show ?thesis
    using i b L by simp
qed

lemma weekday_range:
  "\<exists>wd. weekday (Valid inst) = Some wd \<and> 0 \<le> daysToSubtract wd \<and> daysToSubtract wd \<le> 6"
proof -
  define w where "w = (Day (dt_ts inst + dt_o inst * 60000) + 4) mod 7"
  have "0 \<le> w" "w < 7" by (simp_all add: w_def)
  then show ?thesis
    unfolding weekday_local w_def [symmetric] by (auto simp: daysToSubtract_def)
qed

lemma getEarthHourDate_bounded:
  assumes tz: "tzdata e timezone = Some z"
    and p: "zone_offset z (clock e) = Some p"
    and yr: "- 271820 \<le> yr" "yr \<le> 275760"
  shows "\<exists>s. getEarthHourDate e (Some yr) timezone = Inr (Date s)
    \<and> marchAt yr 31 0 0 - 2400000000 \<le> s \<and> s \<le> marchAt yr 31 0 0 + 1900000000"
proof -
  note r = march31_range [OF yr]
  from fromObject_bounded [OF tz p yr]
  obtain i1 where d: "DateTime_fromObject e (Some yr) 3 31 timezone = Inr (Valid i1)"
    and b1: "\<bar>dt_o i1\<bar> \<le> 6000" "marchAt yr 31 0 0 - 360000000 \<le> dt_ts i1"
      "dt_ts i1 \<le> marchAt yr 31 0 0 + 360000000"
    by blast
  from weekday_range [of i1]
  obtain wd where w: "weekday (Valid i1) = Some wd" "0 \<le> daysToSubtract wd"
    "daysToSubtract wd \<le> 6"
    by blast
  have a1: "\<bar>dt_ts i1\<bar> \<le> 8639995000000000"
    using b1 r by simp
  from minus_days_bounded [OF a1 b1(1) w(2,3)]
  obtain i2 where m: "minus (Valid i1) \<lparr>d_months = 0, d_days = daysToSubtract wd, d_hours = 0\<rparr>
      = Valid i2"
    and b2: "\<bar>dt_o i2\<bar> \<le> 6000"
      "dt_ts i1 - daysToSubtract wd * 86400000 - 720000000 \<le> dt_ts i2"
      "dt_ts i2 \<le> dt_ts i1 - daysToSubtract wd * 86400000 + 720000000"
    by blast
  have a2: "\<bar>dt_ts i2\<bar> \<le> 8639995000000000"
    using b1 b2 r w(2,3) by simp
  from set_time_bounded [OF a2 b2(1)]
  obtain i3 where st: "set_time (Valid i2) 20 30 0 0 = Valid i3"
    and b3: "dt_ts i2 - 740000000 \<le> dt_ts i3" "dt_ts i3 \<le> dt_ts i2 + 800000000"
    by blast
  have j: "toJSDate (Valid i3) = Date (dt_ts i3)"
    using b1 b2 b3 r w(2,3) by (intro toJSDate_Valid) simp
  have "getEarthHourDate e (Some yr) timezone = Inr (Date (dt_ts i3))"
    by (simp add: getEarthHourDate_def andThen_def d w(1) m st j)
  then show ?thesis
    using b1 b2 b3 w(2,3) by simp
qed

subsection \<open>What \<open>getEarthHourDate\<close> answers in a zone that changes at most once\<close>

lemma marchAt_MakeDay:
  "marchAt yr dy h m = MakeDay yr 2 dy * 86400000 + h * 3600000 + m * 60000"
  by (simp add: marchAt_def wallClock_def MakeDate_def MakeTime_def msPerDay_def)

lemma Day_of_day:
  assumes "0 \<le> x" "x < 86400000"
  shows "Day (d * 86400000 + x) = d"
proof -
  have "(d * 86400000 + x) div 86400000 = d"
    by (rule int_div_pos_eq [where r = x]) (use assms in simp_all)
  then show ?thesis by (simp add: Day_def msPerDay_def)
qed

lemma weekday_on_day:
  assumes "Day (dt_ts inst + dt_o inst * 60000) = MakeDay yr 2 dy"
  shows "weekday (Valid inst) = Some (dayOfWeek yr 3 dy)"
  by (simp add: weekday_local assms dayOfWeek_MakeDay)



subsection \<open>Years out of range, a zone that does not resolve, a year that is NaN\<close>

lemma getEarthHourDate_of_Invalid:
  "DateTime_fromObject e yr 3 31 timezone = Inr Invalid \<Longrightarrow>
     getEarthHourDate e yr timezone = Inr InvalidDate"
  by (simp add: getEarthHourDate_def andThen_def weekday_def set_time_def toJSDate_Invalid)

lemma getEarthHourDate_unresolved:
  assumes "tzdata e timezone = None"
  shows "getEarthHourDate e yr timezone = Inr InvalidDate"
  by (rule getEarthHourDate_of_Invalid) (simp add: DateTime_fromObject_def assms)

lemma getEarthHourDate_NaN:
  assumes "tzdata e timezone = Some z"
  shows "getEarthHourDate e None timezone = Inl InvalidArgumentError"
  by (simp add: getEarthHourDate_def andThen_def DateTime_fromObject_def assms)

lemma getEarthHourDate_beyond:
  assumes "tzdata e timezone = Some z" "yr < - 271820 \<or> 275760 < yr"
  shows "getEarthHourDate e (Some yr) timezone = Inr InvalidDate"
proof -
  have "objToLocalTS \<lparr>c_year = yr, c_month = 3, c_day = 31, c_hour = 0, c_minute = 0,
      c_second = 0, c_millisecond = 0\<rparr> = None"
    using march31_beyond [OF assms(2)] by (simp add: objToLocalTS_def marchAt_def wallClock_def)
  then show ?thesis
    by (intro getEarthHourDate_of_Invalid)
      (simp add: DateTime_fromObject_def assms(1) daysInMonth_march Let_def objToTS_def)
qed

lemma getEarthHourDate_no_clock:
  assumes "tzdata e timezone = Some z" "zone_offset z (clock e) = None"
  shows "getEarthHourDate e (Some yr) timezone = Inr InvalidDate"
  by (intro getEarthHourDate_of_Invalid)
    (simp add: DateTime_fromObject_def assms daysInMonth_march Let_def objToTS_def
      split: option.splits)

lemma getEarthHourDate_Date_bounds:
  assumes "tzdata e timezone = Some z" "getEarthHourDate e (Some yr) timezone = Inr (Date s)"
  shows "- 271820 \<le> yr" and "yr \<le> 275760"
    and "marchAt yr 31 0 0 - 2400000000 \<le> s" and "s \<le> marchAt yr 31 0 0 + 1900000000"
    and "\<bar>clock e\<bar> \<le> 8640000000000000"
proof -
  have yr: "- 271820 \<le> yr \<and> yr \<le> 275760"
    using getEarthHourDate_beyond [OF assms(1), of yr] assms(2) by fastforce
  then show "- 271820 \<le> yr" and "yr \<le> 275760" by simp_all
  obtain p where p: "zone_offset z (clock e) = Some p"
    using getEarthHourDate_no_clock [OF assms(1), of yr] assms(2)
    by (cases "zone_offset z (clock e)") auto
  show "\<bar>clock e\<bar> \<le> 8640000000000000"
    by (rule zone_offset_value(3) [OF p])
  from yr have y1: "- 271820 \<le> yr" and y2: "yr \<le> 275760" by simp_all
  from getEarthHourDate_bounded [OF assms(1) p y1 y2] assms(2)
  show "marchAt yr 31 0 0 - 2400000000 \<le> s" and "s \<le> marchAt yr 31 0 0 + 1900000000"
    by auto
qed

subsection \<open>The calendar year of a time value\<close>

lemma Day_ge: "d * 86400000 \<le> t \<Longrightarrow> d \<le> Day t"
  using Day_bounds(2) [of t] by linarith

lemma Day_lt: "t < d * 86400000 \<Longrightarrow> Day t < d"
  using Day_bounds(1) [of t] by linarith

lemma year_near_march31:
  assumes "marchAt yr 31 0 0 - 7689600000 \<le> t" "t < marchAt yr 31 0 0 + 23846400000"
  shows "YearFromTime t = yr"
proof -
  have l: "0 \<le> InLeapYear yr" by (simp add: InLeapYear_def)
  have "DayFromYear yr * 86400000 \<le> t"
    using assms(1) l unfolding marchAt_days by simp
  then have a: "DayFromYear yr \<le> Day t" by (rule Day_ge)
  have "t < DayFromYear (yr + 1) * 86400000"
    using assms(2) unfolding marchAt_days DayFromYear_Suc DaysInYear_leap by simp
  then have b: "Day t < DayFromYear (yr + 1)" by (rule Day_lt)
  show ?thesis
    unfolding YearFromTime_def by (rule YearFromDay_unique [OF a b])
qed

lemma year_in_range:
  assumes "\<bar>t\<bar> \<le> 8600000360000000"
  shows "- 271820 \<le> YearFromTime t" and "YearFromTime t < 275760"
proof -
  define y where "y = YearFromTime t"
  have b: "DayFromYear y \<le> Day t" "Day t < DayFromYear (y + 1)"
    using YearFromDay_bounds [of "Day t"] by (simp_all add: y_def YearFromTime_def)
  have d: "- 8600000360000000 \<le> Day t * 86400000 + 86400000" "Day t * 86400000 \<le> 8600000360000000"
    using Day_bounds [of t] assms by simp_all
  show "- 271820 \<le> YearFromTime t"
  proof (rule ccontr)
    assume "\<not> - 271820 \<le> YearFromTime t"
    then have "y + 1 \<le> - 271820" by (simp add: y_def)
    then have "DayFromYear (y + 1) \<le> - 99999744"
      using DayFromYear_mono [of "y + 1" "- 271820"] by (simp add: DayFromYear_ends)
    with b(2) d(1) show False by simp
  qed
  show "YearFromTime t < 275760"
  proof (rule ccontr)
    assume "\<not> YearFromTime t < 275760"
    then have "275760 \<le> y" by (simp add: y_def)
    then have "99999744 \<le> DayFromYear y"
      using DayFromYear_mono [of 275760 y] by (simp add: DayFromYear_ends)
    with b(1) d(2) show False by simp
  qed
qed

lemma year_of_now:
  assumes "tzdata e timezone = Some z" "\<bar>clock e\<bar> \<le> 8639999640000000"
  shows "dt_year (setZone e (DateTime_now e) timezone) =
    Some (YearFromTime (clock e + offsetAt z (clock e) * 60000))"
  by (simp add: now_resolved [OF assms] dt_year_def dt_c_def utcFields_def mult.commute)

lemma year_end:
  assumes "YearFromTime t = y"
  shows "t < marchAt (y + 1) 31 0 0 - 7689600000"
proof -
  have "Day t < DayFromYear (y + 1)"
    using YearFromDay_bounds(2) [of "Day t"] assms by (simp add: YearFromTime_def)
  then have "t < DayFromYear (y + 1) * 86400000"
    using Day_bounds(2) [of t] by linarith
  then show ?thesis
    unfolding marchAt_days using InLeapYear_range(1) [of "y + 1"] by simp
qed

subsection \<open>One hour after an instant\<close>

lemma adjustTime_hours:
  assumes "dt_o inst = offsetAt (dt_zone inst) (dt_ts inst)" "\<bar>dt_ts inst\<bar> \<le> 8639999640000000"
  shows "adjustTime inst \<lparr>d_months = 0, d_days = 0, d_hours = 1\<rparr> =
    Some (dt_ts inst + 3600000, zone_offset (dt_zone inst) (dt_ts inst + 3600000))"
proof -
  define c where "c = dt_c inst"
  have m: "min (c_day c) (daysInMonth (c_year c) (c_month c)) = c_day c"
    using utcFields_day_valid(2) [of "dt_ts inst + dt_o inst * 60 * 1000"]
    by (simp add: c_def dt_c_def)
  have c2: "c\<lparr>c_year := c_year c, c_month := c_month c + 0,
      c_day := min (c_day c) (daysInMonth (c_year c) (c_month c + 0)) + 0\<rparr> = c"
    by (simp add: m)
  have b: "\<bar>dt_o inst\<bar> \<le> 6000"
    using offsetAt_bound [of "dt_zone inst" "dt_ts inst"] assms(1) by simp
  have l: "objToLocalTS c = Some (dt_ts inst + dt_o inst * 60000)"
    using dt_c_wallClock [of inst] assms(2) b
    by (auto simp: objToLocalTS_def wallClock_def c_def TimeClip_def)
  have z: "zone_offset (dt_zone inst) (dt_ts inst) = Some (dt_o inst)"
    using assms by (subst zone_offset_Some) simp_all
  have f: "fixOffset (dt_ts inst + dt_o inst * 60000) (dt_o inst) (dt_zone inst) =
      Some (dt_ts inst, dt_o inst)"
    by (simp add: fixOffset_unfold z)
  show ?thesis
    unfolding adjustTime_def Let_def duration.simps c_def [symmetric] c2 objToTS_def l
      option.case f prod.case
    by simp
qed

lemma addHourToStart_Date:
  assumes "tzdata e timezone = Some z" "\<bar>s\<bar> \<le> 8639999000000000"
  shows "addHourToStart e (Date s) timezone = Date (s + 3600000)"
proof -
  define inst where
    "inst = \<lparr>dt_ts = s, dt_zone = z, dt_o = offsetAt z s, dt_loc = defaultLocale e\<rparr>"
  have i: "setZone e (DateTime_fromJSDate e (Date s)) timezone = Valid inst"
    using inZone_Date [OF assms(1), of s] assms(2) by (simp add: inZone_def inst_def)
  have a: "adjustTime inst \<lparr>d_months = 0, d_days = 0, d_hours = 1\<rparr> =
      Some (s + 3600000, zone_offset z (s + 3600000))"
    using adjustTime_hours [of inst] assms(2) by (simp add: inst_def)
  have c: "clone inst (Some (s + 3600000)) (zone_offset z (s + 3600000)) =
      Valid \<lparr>dt_ts = s + 3600000, dt_zone = z, dt_o = offsetAt z (s + 3600000),
        dt_loc = defaultLocale e\<rparr>"
    using clone_Valid [of "s + 3600000" inst] assms(2) by (simp add: inst_def)
  show ?thesis
    unfolding addHourToStart_def i plus_def DateTime.case a option.case prod.case c
    using assms(2) by (subst toJSDate_Valid) simp_all
qed

lemma addHourToStart_Invalid: "addHourToStart e InvalidDate timezone = InvalidDate"
  by (simp add: addHourToStart_def DateTime_fromJSDate_def setZone_def plus_def toJSDate_Invalid
      split: option.splits)

subsection \<open>Rounded minutes\<close>

lemma Math_round_minutes:
  "Math_round (Some (of_int d / 60000)) = Some ((d + 30000) div 60000)"
proof -
  have "(of_int d / 60000 + 1 / 2 :: rat) = of_int (d + 30000) / of_int 60000"
    by (simp add: field_simps)
  then have "\<lfloor>of_int d / 60000 + 1 / 2 :: rat\<rfloor> = (d + 30000) div 60000"
    by (simp only: floor_divide_of_int_eq)
  then show ?thesis by (simp add: Math_round_def)
qed

lemma minutesUntil_Date:
  assumes "tzdata e timezone = Some z" "\<bar>t\<bar> \<le> 8639999640000000"
  shows "minutesUntil e (Date t) timezone (Valid now) =
    Some ((t - dt_ts now + 30000) div 60000)"
  using inZone_Date [OF assms, unfolded inZone_def] Math_round_minutes [of "t - dt_ts now"]
  by (simp add: minutesUntil_def diff_minutes_def valueOf_def Let_def)

lemma minutes_window:
  fixes d :: int
  shows "0 \<le> d \<Longrightarrow> 0 \<le> (d + 30000) div 60000"
    and "d \<le> 3600000 \<Longrightarrow> (d + 30000) div 60000 \<le> 60"
    and "0 < (d + 30000) div 60000 \<longleftrightarrow> 30000 \<le> d"
    and "d \<le> 0 \<Longrightarrow> (d + 30000) div 60000 \<le> 0"
    and "- 3600000 \<le> d \<Longrightarrow> - 60 \<le> (d + 30000) div 60000"
    and "(d + 30000) div 60000 < 0 \<longleftrightarrow> d < - 30000"
    and "60000 * ((d + 30000) div 60000) - 30000 \<le> d"
    and "d < 60000 * ((d + 30000) div 60000) + 30000"
  using div_bounds [of 60000 "d + 30000"] by linarith+


subsection \<open>Which occurrence the functions select\<close>

lemma thisYears_select:
  assumes "tzdata e timezone = Some z"
    and "dt_year (setZone e (DateTime_now e) timezone) = Some y"
    and "getEarthHourDate e (Some y) timezone = Inr (Date s)"
    and "\<bar>s\<bar> \<le> 8639999000000000"
  shows "getThisYearsEarthHourStart e timezone = Inr (Date s)"
    and "getThisYearsEarthHourEnd e timezone = Inr (Date (s + 3600000))"
  using assms(2,3) addHourToStart_Date [OF assms(1,4)]
  by (simp_all add: getThisYearsEarthHourStart_def getThisYearsEarthHourEnd_def Let_def
      andThen_def)

lemma upcoming_select:
  assumes "tzdata e timezone = Some z" "\<bar>clock e\<bar> \<le> 8639999640000000"
    and "dt_year (setZone e (DateTime_now e) timezone) = Some y"
    and "getEarthHourDate e (Some y) timezone = Inr (Date s)"
    and "\<bar>s\<bar> \<le> 8639999000000000"
  shows "getUpcomingEarthHourStart e timezone =
    (if s \<le> clock e then getEarthHourDate e (Some (y + 1)) timezone else Inr (Date s))"
proof -
  have i: "setZone e (DateTime_fromJSDate e (Date s)) timezone =
      Valid \<lparr>dt_ts = s, dt_zone = z, dt_o = offsetAt z s, dt_loc = defaultLocale e\<rparr>"
    using inZone_Date [OF assms(1), of s] assms(5) by (simp add: inZone_def)
  have j: "toJSDate (Valid \<lparr>dt_ts = s, dt_zone = z, dt_o = offsetAt z s,
      dt_loc = defaultLocale e\<rparr>) = Date s"
    using assms(5) by (subst toJSDate_Valid) simp_all
  show ?thesis
    using assms(3,4)
    by (simp add: getUpcomingEarthHourStart_def Let_def andThen_def now_resolved [OF assms(1,2)]
        i j js_ge_def valueOf_def)
qed

lemma minutesStart_select:
  assumes "tzdata e timezone = Some z" "\<bar>clock e\<bar> \<le> 8639999640000000"
    and "dt_year (setZone e (DateTime_now e) timezone) = Some y"
    and "getEarthHourDate e (Some y) timezone = Inr (Date s)"
    and "\<bar>s\<bar> \<le> 8639999000000000"
    and "getEarthHourDate e (Some (y + 1)) timezone = Inr (Date s2)"
    and "\<bar>s2\<bar> \<le> 8639999000000000"
  shows "getMinutesUntilEarthHourStart e timezone =
    Inr (Some (((if clock e < s + 3600000 then s else s2) - clock e + 30000) div 60000))"
proof -
  have k: "setZone e (DateTime_fromJSDate e (Date (s + 3600000))) timezone =
      Valid \<lparr>dt_ts = s + 3600000, dt_zone = z, dt_o = offsetAt z (s + 3600000),
        dt_loc = defaultLocale e\<rparr>"
    using inZone_Date [OF assms(1), of "s + 3600000"] assms(5) by (simp add: inZone_def)
  have m1: "minutesUntil e (Date s) timezone (Valid now) =
      Some ((s - dt_ts now + 30000) div 60000)" for now
    using assms(5) by (intro minutesUntil_Date [OF assms(1)]) simp
  have m2: "minutesUntil e (Date s2) timezone (Valid now) =
      Some ((s2 - dt_ts now + 30000) div 60000)" for now
    using assms(7) by (intro minutesUntil_Date [OF assms(1)]) simp
  show ?thesis
    using assms(6)
    by (simp add: getMinutesUntilEarthHourStart_def Let_def andThen_def
        thisYears_select [OF assms(1,3,4,5)] upcoming_select [OF assms(1-5)]
        now_resolved [OF assms(1,2)] k js_lt_def valueOf_def m1 m2)
qed

lemma minutesEnd_select:
  assumes "tzdata e timezone = Some z" "\<bar>clock e\<bar> \<le> 8639999640000000"
    and "dt_year (setZone e (DateTime_now e) timezone) = Some y"
    and "getEarthHourDate e (Some y) timezone = Inr (Date s)"
    and "\<bar>s\<bar> \<le> 8639999000000000"
    and "getEarthHourDate e (Some (y + 1)) timezone = Inr (Date s2)"
    and "\<bar>s2\<bar> \<le> 8639999000000000"
  shows "getMinutesUntilEarthHourEnd e timezone =
    Inr (Some (((if clock e < s + 3600000 then s else s2) + 3600000 - clock e + 30000)
      div 60000))"
proof -
  have k: "setZone e (DateTime_fromJSDate e (Date (s + 3600000))) timezone =
      Valid \<lparr>dt_ts = s + 3600000, dt_zone = z, dt_o = offsetAt z (s + 3600000),
        dt_loc = defaultLocale e\<rparr>"
    using inZone_Date [OF assms(1), of "s + 3600000"] assms(5) by (simp add: inZone_def)
  have m1: "minutesUntil e (Date (s + 3600000)) timezone (Valid now) =
      Some ((s + 3600000 - dt_ts now + 30000) div 60000)" for now
    using assms(5) by (intro minutesUntil_Date [OF assms(1)]) simp
  have m2: "minutesUntil e (Date (s2 + 3600000)) timezone (Valid now) =
      Some ((s2 + 3600000 - dt_ts now + 30000) div 60000)" for now
    using assms(7) by (intro minutesUntil_Date [OF assms(1)]) simp
  show ?thesis
    using assms(6)
    by (simp add: getMinutesUntilEarthHourEnd_def getUpcomingEarthHourEnd_def Let_def
        andThen_def thisYears_select [OF assms(1,3,4,5)] upcoming_select [OF assms(1-5)]
        now_resolved [OF assms(1,2)] k js_lt_def valueOf_def m1 m2
        addHourToStart_Date [OF assms(1,5)] addHourToStart_Date [OF assms(1,7)])
qed

subsection \<open>The occurrences of this year and of the next, seen from the clock\<close>

lemma occurrences:
  assumes tz: "tzdata e timezone = Some z" and clk: "\<bar>clock e\<bar> \<le> 8600000000000000"
  shows "\<exists>y s s2.
      dt_year (setZone e (DateTime_now e) timezone) = Some y
    \<and> getEarthHourDate e (Some y) timezone = Inr (Date s)
    \<and> getEarthHourDate e (Some (y + 1)) timezone = Inr (Date s2)
    \<and> \<bar>s\<bar> \<le> 8639990000000000 \<and> \<bar>s2\<bar> \<le> 8639990000000000
    \<and> clock e + 4924800000 < s2"
proof -
  define t where "t = clock e + offsetAt z (clock e) * 60000"
  define y where "y = YearFromTime t"
  have c2: "\<bar>clock e\<bar> \<le> 8639999640000000"
    using clk by simp
  have tb: "clock e - 360000000 \<le> t" "t \<le> clock e + 360000000"
    using offsetAt_bound [of z "clock e"] by (simp_all add: t_def)
  have yn: "dt_year (setZone e (DateTime_now e) timezone) = Some y"
    by (simp add: year_of_now [OF tz c2] y_def t_def)
  have yr: "- 271820 \<le> y" "y < 275760"
    using year_in_range [of t] tb clk by (simp_all add: y_def)
  have p: "zone_offset z (clock e) = Some (offsetAt z (clock e))"
    using clk by (intro zone_offset_Some) simp_all
  from getEarthHourDate_bounded [OF tz p yr(1)] yr(2)
  obtain s where s: "getEarthHourDate e (Some y) timezone = Inr (Date s)"
    "marchAt y 31 0 0 - 2400000000 \<le> s" "s \<le> marchAt y 31 0 0 + 1900000000"
    by auto
  have yr2: "- 271820 \<le> y + 1" "y + 1 \<le> 275760"
    using yr by simp_all
  from getEarthHourDate_bounded [OF tz p yr2]
  obtain s2 where s2: "getEarthHourDate e (Some (y + 1)) timezone = Inr (Date s2)"
    "marchAt (y + 1) 31 0 0 - 2400000000 \<le> s2" "s2 \<le> marchAt (y + 1) 31 0 0 + 1900000000"
    by auto
  have r1: "- 8639970192000000 \<le> marchAt y 31 0 0" "marchAt y 31 0 0 \<le> 8639985657600000"
    using march31_range [of y] yr by simp_all
  note r2 = march31_range [OF yr2]
  have e: "t < marchAt (y + 1) 31 0 0 - 7689600000"
    by (rule year_end) (simp add: y_def)
  have "\<bar>s\<bar> \<le> 8639990000000000" "\<bar>s2\<bar> \<le> 8639990000000000"
    "clock e + 4924800000 < s2"
    using s(2,3) s2(2,3) r1 r2 e tb by simp_all
  with yn s(1) s2(1) show ?thesis by blast
qed

lemma year_at_occurrence:
  assumes tz: "tzdata e timezone = Some z"
    and g: "getEarthHourDate e (Some yr) timezone = Inr (Date s)"
    and win: "s - 60000 \<le> clock e" "clock e \<le> s + 3600000"
  shows "dt_year (setZone e (DateTime_now e) timezone) = Some yr"
    and "\<bar>clock e\<bar> \<le> 8639999640000000" and "\<bar>s\<bar> \<le> 8639999000000000"
proof -
  note b = getEarthHourDate_Date_bounds [OF tz g]
  note r = march31_range [OF b(1,2)]
  show c: "\<bar>clock e\<bar> \<le> 8639999640000000" and "\<bar>s\<bar> \<le> 8639999000000000"
    using b(3,4) r win by simp_all
  define t where "t = clock e + offsetAt z (clock e) * 60000"
  have tb: "clock e - 360000000 \<le> t" "t \<le> clock e + 360000000"
    using offsetAt_bound [of z "clock e"] by (simp_all add: t_def)
  have "YearFromTime t = yr"
    using b(3,4) win tb by (intro year_near_march31) simp_all
  then show "dt_year (setZone e (DateTime_now e) timezone) = Some yr"
    by (simp add: year_of_now [OF tz c] t_def)
qed

subsection \<open>The window of this year's occurrence\<close>

lemma now_of_year:
  assumes "tzdata e timezone = Some z"
    and "dt_year (setZone e (DateTime_now e) timezone) = Some y"
  shows "\<exists>n. setZone e (DateTime_now e) timezone = Valid n \<and> dt_ts n = clock e"
    and "y = YearFromTime (clock e + offsetAt z (clock e) * 60000)"
  using assms
  by (auto simp: dt_year_def setZone_def DateTime_now_def DateTime_local_def newDateTime_def
      dt_c_def utcFields_def zone_offset_def TimeClip_def mult.commute
      split: option.splits DateTime.splits if_splits)

lemma occurrence_bound:
  assumes "tzdata e timezone = Some z" "getEarthHourDate e (Some yr) timezone = Inr (Date s)"
  shows "\<bar>s\<bar> \<le> 8639999000000000"
proof -
  note b = getEarthHourDate_Date_bounds [OF assms]
  show ?thesis
    using b(3,4) march31_range [OF b(1,2)] by simp
qed

lemma isCurrentlyEarthHour_select:
  assumes "tzdata e timezone = Some z"
    and "dt_year (setZone e (DateTime_now e) timezone) = Some y"
    and "getEarthHourDate e (Some y) timezone = Inr (Date s)"
  shows "isCurrentlyEarthHour e timezone = Inr (s \<le> clock e \<and> clock e < s + 3600000)"
proof -
  note sb = occurrence_bound [OF assms(1,3)]
  from now_of_year(1) [OF assms(1,2)] obtain n where
    n: "setZone e (DateTime_now e) timezone = Valid n" "dt_ts n = clock e"
    by blast
  have i: "setZone e (DateTime_fromJSDate e (Date s)) timezone =
      Valid \<lparr>dt_ts = s, dt_zone = z, dt_o = offsetAt z s, dt_loc = defaultLocale e\<rparr>"
    using inZone_Date [OF assms(1), of s] sb by (simp add: inZone_def)
  have k: "setZone e (DateTime_fromJSDate e (Date (s + 3600000))) timezone =
      Valid \<lparr>dt_ts = s + 3600000, dt_zone = z, dt_o = offsetAt z (s + 3600000),
        dt_loc = defaultLocale e\<rparr>"
    using inZone_Date [OF assms(1), of "s + 3600000"] sb by (simp add: inZone_def)
  show ?thesis
    by (simp add: isCurrentlyEarthHour_def Let_def andThen_def
        thisYears_select [OF assms(1,2,3) sb] n i k js_ge_def js_lt_def valueOf_def)
qed


subsection \<open>What \<open>getEarthHourDate\<close> answers where its three readings are settled\<close>

lemma marchAt_fields:
  assumes "1 \<le> dy" "dy \<le> 31" "0 \<le> h" "h < 24" "0 \<le> m" "m < 60"
  shows "utcFields (marchAt yr dy h m) =
    \<lparr>c_year = yr, c_month = 3, c_day = dy, c_hour = h, c_minute = m, c_second = 0,
     c_millisecond = 0\<rparr>"
  unfolding marchAt_def
  by (rule utcFields_wallClock) (use assms in \<open>simp_all add: daysInMonth_march\<close>)

lemma getEarthHourDate_settled:
  assumes tz: "tzdata e timezone = Some z"
    and prov: "zone_offset z (clock e) = Some p" "lo \<le> p" "p \<le> hi"
    and yr: "- 271820 \<le> yr" "yr \<le> 275760"
    and zs: "zone_settled_for z lo hi yr c"
  shows "getEarthHourDate e (Some yr) timezone =
    Inr (Date (marchAt yr (lastSaturday yr) 20 30 - c * 60000))"
proof -
  define L31 where "L31 = marchAt yr 31 0 0"
  define n where "n = daysToSubtract (dayOfWeek yr 3 31)"
  define L2 where "L2 = marchAt yr (lastSaturday yr) 0 0"
  define L3 where "L3 = marchAt yr (lastSaturday yr) 20 30"
  from zs obtain c1 c2 where
    s1: "settled z lo hi L31 c1" and s2: "settled z lo hi L2 c2" and s3: "settled z lo hi L3 c"
    by (auto simp: zone_settled_for_def L31_def L2_def L3_def)
  note r = march31_range [OF yr, folded L31_def]
  have n: "0 \<le> n" "n \<le> 6" "lastSaturday yr = 31 - n"
    using lastSaturday_range [of yr] by (simp_all add: n_def lastSaturday_def)
  have L: "L2 = L31 - n * 86400000" "L3 = L31 - n * 86400000 + 73800000"
    by (simp_all add: L2_def L3_def L31_def n(3) marchAt_days)
  have md: "L31 = MakeDay yr 2 31 * 86400000"
    by (simp add: L31_def marchAt_MakeDay)
  have z1: "offsetAt z (L31 - c1 * 60000) = c1" and z2: "offsetAt z (L2 - c2 * 60000) = c2"
    and z3: "offsetAt z (L3 - c * 60000) = c"
    using s1 s2 s3 by (simp_all add: settled_offset)
  have cb: "\<bar>c1\<bar> \<le> 6000" "\<bar>c2\<bar> \<le> 6000" "\<bar>c\<bar> \<le> 6000"
    using offsetAt_bound [of z "L31 - c1 * 60000"] offsetAt_bound [of z "L2 - c2 * 60000"]
      offsetAt_bound [of z "L3 - c * 60000"] z1 z2 z3 by simp_all
  have cr: "lo \<le> c1" "c1 \<le> hi" "lo \<le> c2" "c2 \<le> hi"
    using s1 s2 by (simp_all add: settled_def)
  have pb: "\<bar>p\<bar> \<le> 6000"
    by (rule zone_offset_value(2) [OF prov(1)])
  have La: "\<bar>L31\<bar> \<le> 8639999000000000" "\<bar>L2\<bar> \<le> 8639999000000000"
    "\<bar>L3\<bar> \<le> 8639999000000000"
    using r n by (simp_all add: L)
  \<comment> \<open>31 March 00:00\<close>
  define i1 where "i1 = \<lparr>dt_ts = L31 - c1 * 60000, dt_zone = z, dt_o = c1,
      dt_loc = defaultLocale e\<rparr>"
  have f1: "fixOffset L31 p z = Some (L31 - c1 * 60000, c1)"
    by (rule fixOffset_settled [OF s1 prov(2,3) pb La(1)])
  have l1: "objToLocalTS \<lparr>c_year = yr, c_month = 3, c_day = 31, c_hour = 0, c_minute = 0,
      c_second = 0, c_millisecond = 0\<rparr> = Some L31"
    using r by (simp add: objToLocalTS_def L31_def marchAt_def wallClock_def TimeClip_def)
  have n1: "newDateTime (L31 - c1 * 60000) z c1 (defaultLocale e) = Valid i1"
    unfolding i1_def using r by (intro newDateTime_Valid) simp_all
  have d: "DateTime_fromObject e (Some yr) 3 31 timezone = Inr (Valid i1)"
    by (simp add: DateTime_fromObject_def tz daysInMonth_march Let_def prov(1) objToTS_def l1
        f1 n1)
  have t1: "dt_ts i1 = L31 - c1 * 60000" "dt_o i1 = c1" "dt_zone i1 = z"
    by (simp_all add: i1_def)
  have day1: "Day (dt_ts i1 + dt_o i1 * 60000) = MakeDay yr 2 31"
    using Day_of_day [of 0 "MakeDay yr 2 31"] by (simp add: t1 md)
  have wd: "weekday (Valid i1) = Some (dayOfWeek yr 3 31)"
    by (rule weekday_on_day [OF day1])
  \<comment> \<open>the Saturday at 00:00\<close>
  define i2 where "i2 = \<lparr>dt_ts = L2 - c2 * 60000, dt_zone = z, dt_o = c2,
      dt_loc = defaultLocale e\<rparr>"
  have tc2: "TimeClip (L31 - c1 * 60000 + c1 * 60000 - n * 86400000) = Some L2"
    using La(2) by (auto simp: L TimeClip_def)
  have f2: "fixOffset L2 c1 z = Some (L2 - c2 * 60000, c2)"
    by (rule fixOffset_settled [OF s2 cr(1,2) cb(1) La(2)])
  have cl2: "clone i1 (Some (L2 - c2 * 60000)) (Some c2) = Valid i2"
    using clone_Valid [of "L2 - c2 * 60000" i1 "Some c2"] La(2) cb(2) z1 z2
    by (simp add: i1_def i2_def)
  have m: "minus (Valid i1) \<lparr>d_months = 0, d_days = n, d_hours = 0\<rparr> = Valid i2"
    unfolding minus_days t1 tc2 option.case f2 prod.case by (rule cl2)
  have t2: "dt_ts i2 = L2 - c2 * 60000" "dt_o i2 = c2" "dt_zone i2 = z"
    by (simp_all add: i2_def)
  have day2: "Day (L2 - c2 * 60000 + c2 * 60000) = MakeDay yr 2 31 - n"
    using Day_of_day [of 0 "MakeDay yr 2 31 - n"] by (simp add: L md algebra_simps)
  \<comment> \<open>the Saturday at 20:30\<close>
  define i3 where "i3 = \<lparr>dt_ts = L3 - c * 60000, dt_zone = z, dt_o = c,
      dt_loc = defaultLocale e\<rparr>"
  have tc3: "TimeClip (Day (L2 - c2 * 60000 + c2 * 60000) * 86400000 + 73800000) = Some L3"
    unfolding day2 using La(3) by (auto simp: L md TimeClip_def algebra_simps)
  have f3: "fixOffset L3 c2 z = Some (L3 - c * 60000, c)"
    by (rule fixOffset_settled [OF s3 cr(3,4) cb(2) La(3)])
  have cl3: "clone i2 (Some (L3 - c * 60000)) (Some c) = Valid i3"
    using clone_Valid [of "L3 - c * 60000" i2 "Some c"] La(3) cb(3) z2 z3
    by (simp add: i2_def i3_def)
  have st: "set_time (Valid i2) 20 30 0 0 = Valid i3"
    unfolding set_time_local t2 tc3 option.case f3 prod.case by (rule cl3)
  have j: "toJSDate (Valid i3) = Date (L3 - c * 60000)"
    using toJSDate_Valid [of i3] La(3) cb(3) by (simp add: i3_def)
  show ?thesis
    by (simp add: getEarthHourDate_def andThen_def d wd m [unfolded n_def] st j L3_def)
qed

subsection \<open>One month before\<close>

lemma daysInMonth_february: "daysInMonth yr 2 = (if isLeapYear yr then 29 else 28)"
  by (simp add: daysInMonth_def)

lemma februaryAt_fields:
  assumes "1 \<le> dy" "dy \<le> daysInMonth yr 2"
  shows "utcFields (februaryAt yr dy 20 30) =
    \<lparr>c_year = yr, c_month = 2, c_day = dy, c_hour = 20, c_minute = 30, c_second = 0,
     c_millisecond = 0\<rparr>"
  unfolding februaryAt_def
  by (rule utcFields_wallClock) (use assms in simp_all)

lemma februaryAt_days:
  "februaryAt yr dy 20 30 = marchAt yr 31 0 0 - (59 + InLeapYear yr - dy) * 86400000 + 73800000"
  by (simp add: februaryAt_def marchAt_def wallClock_def MakeDate_def MakeDay_def MakeTime_def
      msPerDay_def firstDayOfMonth_def Let_def)

lemma oneMonthBefore_settled:
  assumes tz: "tzdata e timezone = Some z"
    and prov: "zone_offset z (clock e) = Some p" "lo \<le> p" "p \<le> hi"
    and yr: "- 271820 \<le> yr" "yr \<le> 275760"
    and zs: "zone_settled_for z lo hi yr c"
    and s4: "settled z lo hi (februaryAt yr (min (lastSaturday yr) (daysInMonth yr 2)) 20 30) c4"
  shows "getOneMonthBeforeEarthHour e (Some yr) timezone =
      Inr (Date (februaryAt yr (min (lastSaturday yr) (daysInMonth yr 2)) 20 30 - c4 * 60000))"
    and "toObject (inZone e
        (Date (februaryAt yr (min (lastSaturday yr) (daysInMonth yr 2)) 20 30 - c4 * 60000))
        timezone) =
      Some \<lparr>c_year = yr, c_month = 2, c_day = min (lastSaturday yr) (daysInMonth yr 2),
        c_hour = 20, c_minute = 30, c_second = 0, c_millisecond = 0\<rparr>"
proof -
  define L3 where "L3 = marchAt yr (lastSaturday yr) 20 30"
  define dy where "dy = min (lastSaturday yr) (daysInMonth yr 2)"
  define F where "F = februaryAt yr dy 20 30"
  define inst where "inst = \<lparr>dt_ts = L3 - c * 60000, dt_zone = z, dt_o = c,
      dt_loc = defaultLocale e\<rparr>"
  note s4 = s4 [folded dy_def, folded F_def]
  note r = march31_range [OF yr]
  have s3: "settled z lo hi L3 c"
    using zs by (simp add: zone_settled_for_def L3_def)
  have z3: "offsetAt z (L3 - c * 60000) = c" and z4: "offsetAt z (F - c4 * 60000) = c4"
    using s3 s4 by (simp_all add: settled_offset)
  have cb: "\<bar>c\<bar> \<le> 6000" "\<bar>c4\<bar> \<le> 6000"
    using offsetAt_bound [of z "L3 - c * 60000"] offsetAt_bound [of z "F - c4 * 60000"] z3 z4
    by simp_all
  have cr: "lo \<le> c" "c \<le> hi"
    using s3 by (simp_all add: settled_def)
  have ls: "25 \<le> lastSaturday yr" "lastSaturday yr \<le> 31"
    by (rule lastSaturday_range)+
  have d: "1 \<le> dy" "dy \<le> daysInMonth yr 2" "28 \<le> daysInMonth yr 2" "daysInMonth yr 2 \<le> 29"
    using ls by (simp_all add: dy_def daysInMonth_february)
  have L3b: "\<bar>L3\<bar> \<le> 8639998000000000"
    using r ls by (simp add: L3_def marchAt_days)
  have Fb: "\<bar>F\<bar> \<le> 8639998000000000"
    using r d InLeapYear_range [of yr] unfolding F_def februaryAt_days by simp
  have g: "getEarthHourDate e (Some yr) timezone = Inr (Date (L3 - c * 60000))"
    unfolding L3_def by (rule getEarthHourDate_settled [OF tz prov yr zs])
  have i: "setZone e (DateTime_fromJSDate e (Date (L3 - c * 60000))) timezone = Valid inst"
    using inZone_Date [OF tz, of "L3 - c * 60000"] L3b cb
    by (simp add: inZone_def inst_def z3)
  have f: "dt_c inst = \<lparr>c_year = yr, c_month = 3, c_day = lastSaturday yr, c_hour = 20,
      c_minute = 30, c_second = 0, c_millisecond = 0\<rparr>"
    using ls by (simp add: dt_c_def inst_def L3_def marchAt_fields)
  have l: "objToLocalTS \<lparr>c_year = yr, c_month = 2, c_day = dy, c_hour = 20, c_minute = 30,
      c_second = 0, c_millisecond = 0\<rparr> = Some F"
    using Fb by (auto simp: objToLocalTS_def F_def februaryAt_def wallClock_def TimeClip_def)
  have fo: "fixOffset F c z = Some (F - c4 * 60000, c4)"
    using Fb by (intro fixOffset_settled [OF s4 cr cb(1)]) simp
  have a: "adjustTime inst \<lparr>d_months = - 1, d_days = 0, d_hours = 0\<rparr> =
      Some (F - c4 * 60000, Some c4)"
    by (simp add: adjustTime_def Let_def f dy_def [symmetric] objToTS_def l)
      (simp add: inst_def fo)
  have cl: "clone inst (Some (F - c4 * 60000)) (Some c4) =
      Valid \<lparr>dt_ts = F - c4 * 60000, dt_zone = z, dt_o = c4, dt_loc = defaultLocale e\<rparr>"
    using clone_Valid [of "F - c4 * 60000" inst "Some c4"] Fb cb z3 z4 by (simp add: inst_def)
  have j: "toJSDate (Valid \<lparr>dt_ts = F - c4 * 60000, dt_zone = z, dt_o = c4,
      dt_loc = defaultLocale e\<rparr>) = Date (F - c4 * 60000)"
    using Fb cb by (subst toJSDate_Valid) simp_all
  show "getOneMonthBeforeEarthHour e (Some yr) timezone = Inr (Date (F - c4 * 60000))"
    by (simp add: getOneMonthBeforeEarthHour_def andThen_def g Let_def i minus_def negate_def
        plus_def a cl j)
  have "inZone e (Date (F - c4 * 60000)) timezone =
      Valid \<lparr>dt_ts = F - c4 * 60000, dt_zone = z, dt_o = c4, dt_loc = defaultLocale e\<rparr>"
    using inZone_Date [OF tz, of "F - c4 * 60000"] Fb cb by (simp add: z4)
  then show "toObject (inZone e (Date (F - c4 * 60000)) timezone) =
      Some \<lparr>c_year = yr, c_month = 2, c_day = dy, c_hour = 20, c_minute = 30, c_second = 0,
        c_millisecond = 0\<rparr>"
    using februaryAt_fields [OF d(1,2)] by (simp add: toObject_def dt_c_def F_def)
qed

lemma settled_from_range:
  assumes "\<forall>t. a \<le> t \<and> t < b \<longrightarrow> offsetAt z t = c"
    and "lo \<le> c" "c \<le> hi" "a \<le> L - hi * 60000" "L - lo * 60000 < b"
  shows "settled z lo hi L c"
  unfolding settled_def
proof (intro conjI allI impI)
  fix o1 assume "lo \<le> o1 \<and> o1 \<le> hi"
  then have "a \<le> L - o1 * 60000 \<and> L - o1 * 60000 < b"
    using assms(4,5) by simp
  then show "offsetAt z (L - o1 * 60000) = c"
    using assms(1) by blast
qed (use assms in simp_all)

subsection \<open>The years of the examples\<close>

lemmas calendar_defs = marchAt_def wallClock_def MakeDate_def MakeDay_def MakeTime_def
  DayFromYear_def firstDayOfMonth_def InLeapYear_def DaysInYear_def msPerDay_def
  lastSaturday_def daysToSubtract_def dayOfWeek_def WeekDay_def Day_def

lemma values_2025:
  "lastSaturday 2025 = 29" "marchAt 2025 31 0 0 = 1743379200000"
  "marchAt 2025 29 0 0 = 1743206400000" "marchAt 2025 29 20 30 = 1743280200000"
  "marchAt 2025 25 0 0 = 1742860800000" "marchAt 2025 31 20 30 = 1743453000000"
  by (simp_all add: calendar_defs)

lemma values_2024:
  "lastSaturday 2024 = 30" "marchAt 2024 31 0 0 = 1711843200000"
  "marchAt 2024 30 0 0 = 1711756800000" "marchAt 2024 30 20 30 = 1711830600000"
  "marchAt 2024 25 0 0 = 1711324800000" "marchAt 2024 31 20 30 = 1711917000000"
  by (simp_all add: calendar_defs)


lemma february_values:
  "daysInMonth 2025 2 = 28" "daysInMonth 2024 2 = 29"
  "februaryAt 2025 28 20 30 = 1740774600000" "februaryAt 2024 29 20 30 = 1709238600000"
  by (simp_all add: daysInMonth_def isLeapYear_def februaryAt_def calendar_defs)

subsection \<open>Formatting\<close>

lemma suffix_table:
  "\<forall>v\<in>{0..99}.
     (case or_else (or_else (index [''th'', ''st'', ''nd'', ''rd''] (js_rem (v - 20) 10))
        (index [''th'', ''st'', ''nd'', ''rd''] v)) (index [''th'', ''st'', ''nd'', ''rd''] 0) of
        None \<Rightarrow> ''undefined'' | Some x \<Rightarrow> x) = englishOrdinalSuffix v"
  by code_simp

lemma englishOrdinalSuffix_mod: "englishOrdinalSuffix (n mod 100) = englishOrdinalSuffix n"
  using mod_mod_cancel [of 10 100 n] by (simp add: englishOrdinalSuffix_def)

lemma ordinalEn_suffix:
  assumes "0 \<le> n"
  shows "ordinalEn n = numberToString n @ englishOrdinalSuffix n"
proof -
  have v: "js_rem n 100 = n mod 100"
    using assms by (simp add: js_rem_def)
  have "n mod 100 \<in> {0..99}"
    by simp
  then show ?thesis
    using suffix_table englishOrdinalSuffix_mod [of n]
    by (simp add: ordinalEn_def Let_def v del: atLeastAtMost_iff)
qed

lemma startsWith_nonempty: "startsWith l ''en'' \<Longrightarrow> or_default (Some l) ''en'' = l"
  by (auto simp: startsWith_def or_default_def)



subsection \<open>The zones of the examples\<close>

lemma europe_amsterdam_offset:
  "offsetAt europe_amsterdam t =
     (if 1711846800000 \<le> t \<and> t < 1729990800000 then 120
      else if 1743296400000 \<le> t \<and> t < 1761440400000 then 120
      else if 1774746000000 \<le> t \<and> t < 1792890000000 then 120
      else 60)"
  by transfer simp



lemma numberToString_values: "numberToString 29 = ''29''" "numberToString 2025 = ''2025''"
  by code_simp+

lemma test_env_locale:
  "validLocale (test_env t) ''en''" "validLocale (test_env t) ''nl''"
  "validLocale (test_env t) ''en-GB''" "\<not> validLocale (test_env t) ''en_US''"
  "monthLong (test_env t) ''en'' 3 = ''March''" "monthLong (test_env t) ''nl'' 3 = ''maart''"
  "monthLong (test_env t) ''en-GB'' 3 = ''March''"
  "yearText (test_env t) l 2025 = ''2025''"
  by (simp_all add: test_env_def numberToString_values)



subsection \<open>Formatting a date that the zone shows\<close>

lemma toObject_Some:
  assumes "toObject dt = Some obj"
  shows "\<exists>inst. dt = Valid inst \<and> dt_c inst = obj \<and> 1 \<le> c_day obj"
  using assms utcFields_day_valid(1)
  by (cases dt) (auto simp: toObject_def dt_c_def)

lemma dt_c_loc: "dt_c (inst\<lparr>dt_loc := l\<rparr>) = dt_c inst"
  by (simp add: dt_c_def)

lemma formatDateFriendly_fields:
  assumes "toObject (inZone e d timezone) = Some obj"
  shows "formatDateFriendly e d timezone locale =
    (if validLocale e (or_default locale ''en'')
     then Inr ((if startsWith (or_default locale ''en'') ''en''
                then numberToString (c_day obj) @ englishOrdinalSuffix (c_day obj)
                else numberToString (c_day obj))
          @ '' '' @ monthLong e (or_default locale ''en'') (c_month obj)
          @ '' '' @ yearText e (or_default locale ''en'') (c_year obj))
     else Inl RangeError)"
proof -
  from toObject_Some [OF assms] obtain inst where
    i: "setZone e (DateTime_fromJSDate e d) timezone = Valid inst" "dt_c inst = obj"
      "1 \<le> c_day obj"
    by (auto simp: inZone_def)
  have o: "ordinalEn (c_day obj) = numberToString (c_day obj) @ englishOrdinalSuffix (c_day obj)"
    using i(3) by (intro ordinalEn_suffix) simp
  show ?thesis
    by (simp add: formatDateFriendly_def Let_def andThen_def setLocale_def toFormat_MMMM_def
        toFormat_yyyy_def dt_day_def i(1) dt_c_loc i(2) o)
qed

lemma formatDateFriendlyNoYear_fields:
  assumes "toObject (inZone e d timezone) = Some obj"
  shows "formatDateFriendlyNoYear e d timezone locale =
    (if validLocale e (or_default locale ''en'')
     then Inr ((if startsWith (or_default locale ''en'') ''en''
                then numberToString (c_day obj) @ englishOrdinalSuffix (c_day obj)
                else numberToString (c_day obj))
          @ '' '' @ monthLong e (or_default locale ''en'') (c_month obj))
     else Inl RangeError)"
proof -
  from toObject_Some [OF assms] obtain inst where
    i: "setZone e (DateTime_fromJSDate e d) timezone = Valid inst" "dt_c inst = obj"
      "1 \<le> c_day obj"
    by (auto simp: inZone_def)
  have o: "ordinalEn (c_day obj) = numberToString (c_day obj) @ englishOrdinalSuffix (c_day obj)"
    using i(3) by (intro ordinalEn_suffix) simp
  show ?thesis
    by (simp add: formatDateFriendlyNoYear_def Let_def andThen_def setLocale_def
        toFormat_MMMM_def dt_day_def i(1) dt_c_loc i(2) o)
qed

lemma suffix_29: "numberToString 29 = ''29''" "englishOrdinalSuffix 29 = ''th''"
  by (simp_all add: numberToString_values englishOrdinalSuffix_def)

subsection \<open>An unresolvable zone\<close>

lemma setZone_unresolved: "tzdata e timezone = None \<Longrightarrow> setZone e dt timezone = Invalid"
  by (simp add: setZone_def)

lemma minutesUntil_Invalid: "minutesUntil e d timezone Invalid = None"
  by (simp add: minutesUntil_def Let_def diff_minutes_def valueOf_def Math_round_def
      split: option.splits)


section \<open>The claims\<close>





text \<open>
  C2 (corrected).  The claim puts the roll-forward boundary of the upcoming occurrence at the
  end instant.  \<open>getUpcomingEarthHourStart\<close> compares with the start: at exactly 20:30 on
  29 March 2025 in Europe/Amsterdam, an hour before the end, it already answers the start
  of 2026 (the case "return next year when at or after this year's EH start" of the tests).
\<close>

theorem upcoming_boundary_counterexample:
  "getEarthHourDate (test_env 1743276600000) (Some 2025) ''Europe/Amsterdam'' =
      Inr (Date 1743276600000)
   \<and> getEarthHourEnd (test_env 1743276600000) (Some 2025) ''Europe/Amsterdam'' =
      Inr (Date 1743280200000)
   \<and> clock (test_env 1743276600000) < 1743280200000
   \<and> getEarthHourDate (test_env 1743276600000) (Some 2026) ''Europe/Amsterdam'' =
      Inr (Date 1774726200000)
   \<and> getUpcomingEarthHourStart (test_env 1743276600000) ''Europe/Amsterdam'' =
      Inr (Date 1774726200000)"
  by (intro conjI; code_simp)

text \<open>
  C2 as amended.  In a zone that resolves, with the clock within 8 600 000 000 000 000
  milliseconds of the epoch, \<open>s\<close> the start of the occurrence of the current year and \<open>s2\<close>
  that of the next: \<open>getUpcomingEarthHourStart\<close> and \<open>getUpcomingEarthHourEnd\<close> answer
  this year's occurrence for every now strictly before the start \<open>s\<close> and next year's from
  \<open>s\<close> on; the selection inside the two minutes-until functions answers this year's
  occurrence for every now strictly before the end \<open>s + 1 hour\<close> and next year's from the
  end on.
\<close>

theorem upcoming_rolls_at_start:
  assumes "tzdata e timezone = Some z" and "\<bar>clock e\<bar> \<le> 8600000000000000"
  shows "\<exists>y s s2.
      dt_year (setZone e (DateTime_now e) timezone) = Some y
    \<and> getEarthHourDate e (Some y) timezone = Inr (Date s)
    \<and> getEarthHourEnd e (Some y) timezone = Inr (Date (s + 3600000))
    \<and> getEarthHourDate e (Some (y + 1)) timezone = Inr (Date s2)
    \<and> getUpcomingEarthHourStart e timezone = Inr (if clock e < s then Date s else Date s2)
    \<and> getUpcomingEarthHourEnd e timezone =
        Inr (if clock e < s then Date (s + 3600000) else Date (s2 + 3600000))
    \<and> getMinutesUntilEarthHourStart e timezone =
        Inr (minutesUntil e (if clock e < s + 3600000 then Date s else Date s2) timezone
          (setZone e (DateTime_now e) timezone))
    \<and> getMinutesUntilEarthHourEnd e timezone =
        Inr (minutesUntil e
          (if clock e < s + 3600000 then Date (s + 3600000) else Date (s2 + 3600000))
          timezone (setZone e (DateTime_now e) timezone))"
proof -
  note tz = assms(1)
  have clk: "\<bar>clock e\<bar> \<le> 8639999640000000"
    using assms(2) by simp
  from occurrences [OF assms] obtain y s s2 where
    y: "dt_year (setZone e (DateTime_now e) timezone) = Some y"
    and s: "getEarthHourDate e (Some y) timezone = Inr (Date s)"
    and s2: "getEarthHourDate e (Some (y + 1)) timezone = Inr (Date s2)"
    and b: "\<bar>s\<bar> \<le> 8639990000000000" "\<bar>s2\<bar> \<le> 8639990000000000"
    by blast
  have sb: "\<bar>s\<bar> \<le> 8639999000000000" "\<bar>s2\<bar> \<le> 8639999000000000"
    "\<bar>s + 3600000\<bar> \<le> 8639999640000000" "\<bar>s2 + 3600000\<bar> \<le> 8639999640000000"
    "\<bar>s\<bar> \<le> 8639999640000000" "\<bar>s2\<bar> \<le> 8639999640000000"
    using b by simp_all
  have en: "getEarthHourEnd e (Some y) timezone = Inr (Date (s + 3600000))"
    by (simp add: getEarthHourEnd_def andThen_def s addHourToStart_Date [OF tz sb(1)])
  have u: "getUpcomingEarthHourStart e timezone = Inr (if clock e < s then Date s else Date s2)"
    by (simp add: upcoming_select [OF tz clk y s sb(1)] s2)
  have ue: "getUpcomingEarthHourEnd e timezone =
      Inr (if clock e < s then Date (s + 3600000) else Date (s2 + 3600000))"
    by (simp add: getUpcomingEarthHourEnd_def andThen_def u addHourToStart_Date [OF tz sb(1)]
        addHourToStart_Date [OF tz sb(2)])
  have n: "setZone e (DateTime_now e) timezone =
      Valid \<lparr>dt_ts = clock e, dt_zone = z, dt_o = offsetAt z (clock e),
        dt_loc = defaultLocale e\<rparr>"
    by (rule now_resolved [OF tz clk])
  have ms: "getMinutesUntilEarthHourStart e timezone =
      Inr (minutesUntil e (if clock e < s + 3600000 then Date s else Date s2) timezone
        (setZone e (DateTime_now e) timezone))"
    by (simp add: minutesStart_select [OF tz clk y s sb(1) s2 sb(2)] n
        minutesUntil_Date [OF tz sb(5)] minutesUntil_Date [OF tz sb(6)])
  have me: "getMinutesUntilEarthHourEnd e timezone =
      Inr (minutesUntil e
        (if clock e < s + 3600000 then Date (s + 3600000) else Date (s2 + 3600000))
        timezone (setZone e (DateTime_now e) timezone))"
    by (simp add: minutesEnd_select [OF tz clk y s sb(1) s2 sb(2)] n
        minutesUntil_Date [OF tz sb(3)] minutesUntil_Date [OF tz sb(4)])
  show ?thesis
    using y s en s2 u ue ms me by blast
qed

theorem upcoming_rolls_at_start_witness:
  "getUpcomingEarthHourStart (test_env 1743280199999) ''Europe/Amsterdam'' =
      Inr (Date 1774726200000)
   \<and> getUpcomingEarthHourEnd (test_env 1743280199999) ''Europe/Amsterdam'' =
      Inr (Date 1774729800000)
   \<and> getMinutesUntilEarthHourStart (test_env 1743280199999) ''Europe/Amsterdam'' =
       Inr (minutesUntil (test_env 1743280199999) (Date 1743276600000) ''Europe/Amsterdam''
         (setZone (test_env 1743280199999) (DateTime_now (test_env 1743280199999))
           ''Europe/Amsterdam''))"
proof -
  define E where "E = test_env 1743280199999"
  have tz: "tzdata E ''Europe/Amsterdam'' = Some europe_amsterdam"
    by (simp add: E_def test_env_def)
  have c: "clock E = 1743280199999"
    by (simp add: E_def test_env_def)
  have cb: "\<bar>clock E\<bar> \<le> 8600000000000000"
    by (simp add: c)
  have y0: "dt_year (setZone E (DateTime_now E) ''Europe/Amsterdam'') = Some 2025"
    unfolding E_def by code_simp
  have s0: "getEarthHourDate E (Some 2025) ''Europe/Amsterdam'' = Inr (Date 1743276600000)"
    unfolding E_def by code_simp
  have s1: "getEarthHourDate E (Some 2026) ''Europe/Amsterdam'' = Inr (Date 1774726200000)"
    unfolding E_def by code_simp
  from upcoming_rolls_at_start [OF tz cb] obtain y s s2 where
    r: "dt_year (setZone E (DateTime_now E) ''Europe/Amsterdam'') = Some y"
      "getEarthHourDate E (Some y) ''Europe/Amsterdam'' = Inr (Date s)"
      "getEarthHourDate E (Some (y + 1)) ''Europe/Amsterdam'' = Inr (Date s2)"
      "getUpcomingEarthHourStart E ''Europe/Amsterdam'' =
        Inr (if clock E < s then Date s else Date s2)"
      "getUpcomingEarthHourEnd E ''Europe/Amsterdam'' =
        Inr (if clock E < s then Date (s + 3600000) else Date (s2 + 3600000))"
      "getMinutesUntilEarthHourStart E ''Europe/Amsterdam'' =
        Inr (minutesUntil E (if clock E < s + 3600000 then Date s else Date s2)
          ''Europe/Amsterdam'' (setZone E (DateTime_now E) ''Europe/Amsterdam''))"
    by blast
  have "y = 2025" using r(1) y0 by simp
  then have "s = 1743276600000" "s2 = 1774726200000" using r(2,3) s0 s1 by simp_all
  then show ?thesis
    using r(4,5,6) c by (simp add: E_def [symmetric])
qed

text \<open>
  C3 (corrected).  The claim has \<open>getMinutesUntilEarthHourEnd\<close> positive for every now inside
  the active window, and negative at the instant now passes the end.  The minutes are
  rounded: at 21:29:45 on 29 March 2025 in Europe/Amsterdam, fifteen seconds before the end,
  the answer is 0; and at the end itself, 21:30:00, the answer is the 524160 minutes to the
  end of the occurrence of 2026, not a negative number.
\<close>

theorem minutesUntilEnd_counterexample:
  "getThisYearsEarthHourStart (test_env 1743280185000) ''Europe/Amsterdam'' =
      Inr (Date 1743276600000)
   \<and> getThisYearsEarthHourEnd (test_env 1743280185000) ''Europe/Amsterdam'' =
      Inr (Date 1743280200000)
   \<and> clock (test_env 1743280185000) = 1743280185000
   \<and> getMinutesUntilEarthHourEnd (test_env 1743280185000) ''Europe/Amsterdam'' = Inr (Some 0)
   \<and> getThisYearsEarthHourEnd (test_env 1743280200000) ''Europe/Amsterdam'' =
      Inr (Date 1743280200000)
   \<and> clock (test_env 1743280200000) = 1743280200000
   \<and> getMinutesUntilEarthHourEnd (test_env 1743280200000) ''Europe/Amsterdam'' =
      Inr (Some 524160)"
  by (intro conjI; code_simp)

text \<open>
  C3 as amended.  In a zone that resolves, with the clock within 8 600 000 000 000 000
  milliseconds of the epoch, \<open>s\<close> the start of the occurrence of the calendar year of now
  and \<open>s2\<close> that of the next year: for every now before the end \<open>s + 1 hour\<close>,
  \<open>getMinutesUntilEarthHourEnd\<close> is the distance to that end rounded to the nearest minute
  (a half minute going up) and is not negative; for every now inside the active window
  (start \<open>\<le>\<close> now \<open><\<close> end) it is at most 60, and positive exactly while at least 30 seconds
  remain.  At the end and after it the function does not go negative: it is the rounded
  distance to the end of next year's occurrence, at least 82080 minutes (57 days).
\<close>

theorem minutesUntilEnd_in_window:
  assumes "tzdata e timezone = Some z" and "\<bar>clock e\<bar> \<le> 8600000000000000"
  shows "\<exists>y s s2 m.
      dt_year (setZone e (DateTime_now e) timezone) = Some y
    \<and> getEarthHourDate e (Some y) timezone = Inr (Date s)
    \<and> getEarthHourDate e (Some (y + 1)) timezone = Inr (Date s2)
    \<and> getThisYearsEarthHourStart e timezone = Inr (Date s)
    \<and> getThisYearsEarthHourEnd e timezone = Inr (Date (s + 3600000))
    \<and> getMinutesUntilEarthHourEnd e timezone = Inr (Some m)
    \<and> (clock e < s + 3600000 \<longrightarrow>
          0 \<le> m \<and> 60000 * m - 30000 \<le> s + 3600000 - clock e
          \<and> s + 3600000 - clock e < 60000 * m + 30000)
    \<and> (s \<le> clock e \<and> clock e < s + 3600000 \<longrightarrow>
          m \<le> 60 \<and> (0 < m \<longleftrightarrow> clock e + 30000 \<le> s + 3600000))
    \<and> (s + 3600000 \<le> clock e \<longrightarrow>
          82080 \<le> m \<and> 60000 * m - 30000 \<le> s2 + 3600000 - clock e
          \<and> s2 + 3600000 - clock e < 60000 * m + 30000)"
proof -
  note tz = assms(1)
  have clk: "\<bar>clock e\<bar> \<le> 8639999640000000"
    using assms(2) by simp
  from occurrences [OF assms] obtain y s s2 where
    y: "dt_year (setZone e (DateTime_now e) timezone) = Some y"
    and s: "getEarthHourDate e (Some y) timezone = Inr (Date s)"
    and s2: "getEarthHourDate e (Some (y + 1)) timezone = Inr (Date s2)"
    and b: "\<bar>s\<bar> \<le> 8639990000000000" "\<bar>s2\<bar> \<le> 8639990000000000"
    and far: "clock e + 4924800000 < s2"
    by blast
  have sb: "\<bar>s\<bar> \<le> 8639999000000000" "\<bar>s2\<bar> \<le> 8639999000000000"
    using b by simp_all
  define m where
    "m = ((if clock e < s + 3600000 then s else s2) + 3600000 - clock e + 30000) div 60000"
  have v: "getMinutesUntilEarthHourEnd e timezone = Inr (Some m)"
    unfolding m_def by (rule minutesEnd_select [OF tz clk y s sb(1) s2 sb(2)])
  have mw: "m = (s + 3600000 - clock e + 30000) div 60000" if "clock e < s + 3600000"
    using that by (simp add: m_def)
  have ma: "m = (s2 + 3600000 - clock e + 30000) div 60000" if "s + 3600000 \<le> clock e"
    using that by (simp add: m_def)
  have a: "0 \<le> m \<and> 60000 * m - 30000 \<le> s + 3600000 - clock e
      \<and> s + 3600000 - clock e < 60000 * m + 30000" if "clock e < s + 3600000"
  proof -
    have "0 \<le> m"
      unfolding mw [OF that] using that by (intro minutes_window(1)) simp
    then show ?thesis
      unfolding mw [OF that] using minutes_window(7,8) [of "s + 3600000 - clock e"] by simp
  qed
  have bb: "m \<le> 60 \<and> (0 < m \<longleftrightarrow> clock e + 30000 \<le> s + 3600000)"
    if "s \<le> clock e" "clock e < s + 3600000"
  proof -
    have "m \<le> 60"
      unfolding mw [OF that(2)] using that by (intro minutes_window(2)) simp
    moreover have "0 < m \<longleftrightarrow> 30000 \<le> s + 3600000 - clock e"
      unfolding mw [OF that(2)] by (rule minutes_window(3))
    ultimately show ?thesis by auto
  qed
  have c: "82080 \<le> m \<and> 60000 * m - 30000 \<le> s2 + 3600000 - clock e
      \<and> s2 + 3600000 - clock e < 60000 * m + 30000" if "s + 3600000 \<le> clock e"
  proof -
    have r: "60000 * m - 30000 \<le> s2 + 3600000 - clock e"
      "s2 + 3600000 - clock e < 60000 * m + 30000"
      unfolding ma [OF that] using minutes_window(7,8) [of "s2 + 3600000 - clock e"]
      by simp_all
    then have "82080 \<le> m"
      using far by simp
    with r show ?thesis by simp
  qed
  show ?thesis
    using y s s2 thisYears_select [OF tz y s sb(1)] v a bb c by blast
qed

theorem minutesUntilEnd_in_window_witness:
  "(\<exists>m. getMinutesUntilEarthHourEnd (test_env 1743277500000) ''Europe/Amsterdam'' =
        Inr (Some m) \<and> 0 < m \<and> m \<le> 60)
   \<and> (\<exists>m. getMinutesUntilEarthHourEnd (test_env 1743280200000) ''Europe/Amsterdam'' =
        Inr (Some m) \<and> 82080 \<le> m)"
proof -
  have tz: "tzdata (test_env t) ''Europe/Amsterdam'' = Some europe_amsterdam" for t
    by (simp add: test_env_def)
  have c: "clock (test_env t) = t" for t
    by (simp add: test_env_def)
  have s1: "getThisYearsEarthHourStart (test_env 1743277500000) ''Europe/Amsterdam'' =
      Inr (Date 1743276600000)"
    by code_simp
  have s2: "getThisYearsEarthHourStart (test_env 1743280200000) ''Europe/Amsterdam'' =
      Inr (Date 1743276600000)"
    by code_simp
  have "\<exists>m. getMinutesUntilEarthHourEnd (test_env 1743277500000) ''Europe/Amsterdam'' =
      Inr (Some m) \<and> 0 < m \<and> m \<le> 60"
    using minutesUntilEnd_in_window [OF tz, of 1743277500000] s1 by (auto simp: c)
  moreover have "\<exists>m. getMinutesUntilEarthHourEnd (test_env 1743280200000)
      ''Europe/Amsterdam'' = Inr (Some m) \<and> 82080 \<le> m"
    using minutesUntilEnd_in_window [OF tz, of 1743280200000] s2 by (auto simp: c)
  ultimately show ?thesis by blast
qed

text \<open>
  C4 (corrected).  The claim has \<open>getEarthHourDate\<close> fail with an InvalidZone error for a
  zone that does not resolve.  Neither the utilities nor Luxon (which is left to answer
  invalid values instead of throwing) raise anything: the call returns a \<^verbatim>\<open>Date\<close>, the
  Invalid Date.
\<close>

theorem unresolved_zone_counterexample:
  "tzdata (test_env 0) ''Mars/Olympus_Mons'' = None
   \<and> getEarthHourDate (test_env 0) (Some 2025) ''Mars/Olympus_Mons'' = Inr InvalidDate"
  by (simp add: test_env_def getEarthHourDate_unresolved)

text \<open>
  C4 as amended.  For a zone that does not resolve, \<open>getEarthHourDate\<close> raises no error and
  returns the Invalid Date, never an instant; the functions built on it return the Invalid
  Date, NaN (\<open>None\<close>) for the minutes, and false for \<open>isCurrentlyEarthHour\<close>.
\<close>

theorem unresolved_zone_returns_invalid:
  assumes "tzdata e timezone = None"
  shows "getEarthHourDate e yr timezone = Inr InvalidDate
    \<and> getEarthHourEnd e yr timezone = Inr InvalidDate
    \<and> getThisYearsEarthHourStart e timezone = Inr InvalidDate
    \<and> getThisYearsEarthHourEnd e timezone = Inr InvalidDate
    \<and> getUpcomingEarthHourStart e timezone = Inr InvalidDate
    \<and> getUpcomingEarthHourEnd e timezone = Inr InvalidDate
    \<and> getOneMonthBeforeEarthHour e yr timezone = Inr InvalidDate
    \<and> getMinutesUntilEarthHourStart e timezone = Inr None
    \<and> getMinutesUntilEarthHourEnd e timezone = Inr None
    \<and> isCurrentlyEarthHour e timezone = Inr False"
proof -
  note g = getEarthHourDate_unresolved [OF assms]
  note n = setZone_unresolved [OF assms]
  have a: "getEarthHourEnd e yr timezone = Inr InvalidDate"
    by (simp add: getEarthHourEnd_def andThen_def g addHourToStart_Invalid)
  have b: "getThisYearsEarthHourStart e timezone = Inr InvalidDate"
    "getThisYearsEarthHourEnd e timezone = Inr InvalidDate"
    by (simp_all add: getThisYearsEarthHourStart_def getThisYearsEarthHourEnd_def andThen_def g
        addHourToStart_Invalid)
  have c: "getUpcomingEarthHourStart e timezone = Inr InvalidDate"
    by (simp add: getUpcomingEarthHourStart_def Let_def andThen_def n g js_ge_def valueOf_def
        toJSDate_Invalid)
  have d: "getUpcomingEarthHourEnd e timezone = Inr InvalidDate"
    by (simp add: getUpcomingEarthHourEnd_def andThen_def c addHourToStart_Invalid)
  have f: "getOneMonthBeforeEarthHour e yr timezone = Inr InvalidDate"
    by (simp add: getOneMonthBeforeEarthHour_def Let_def andThen_def g n minus_def plus_def
        toJSDate_Invalid)
  have h: "getMinutesUntilEarthHourStart e timezone = Inr None"
    "getMinutesUntilEarthHourEnd e timezone = Inr None"
    by (simp_all add: getMinutesUntilEarthHourStart_def getMinutesUntilEarthHourEnd_def Let_def
        andThen_def n b c d js_lt_def valueOf_def minutesUntil_Invalid)
  have i: "isCurrentlyEarthHour e timezone = Inr False"
    by (simp add: isCurrentlyEarthHour_def Let_def andThen_def n b js_ge_def valueOf_def)
  show ?thesis
    using g a b c d f h i by simp
qed

theorem unresolved_zone_returns_invalid_witness:
  "getEarthHourDate (test_env 0) (Some 2025) ''Mars/Olympus_Mons'' = Inr InvalidDate
   \<and> getUpcomingEarthHourStart (test_env 0) ''Mars/Olympus_Mons'' = Inr InvalidDate
   \<and> getMinutesUntilEarthHourStart (test_env 0) ''Mars/Olympus_Mons'' = Inr None
   \<and> isCurrentlyEarthHour (test_env 0) ''Mars/Olympus_Mons'' = Inr False"
proof -
  have "tzdata (test_env 0) ''Mars/Olympus_Mons'' = None"
    by (simp add: test_env_def)
  from unresolved_zone_returns_invalid [OF this, of "Some 2025"] show ?thesis
    by simp
qed


text \<open>
  C5.  \<open>isCurrentlyEarthHour\<close> evaluates the half-open interval from start to end against
  the occurrence of this calendar year.  In a zone that resolves, for every now: with \<open>y\<close>
  the calendar year that now shows in the zone and \<open>s\<close> what \<open>getEarthHourDate\<close> answers for
  \<open>y\<close>, the function is true exactly when \<open>s\<close> \<open>\<le>\<close> now \<open><\<close> \<open>s\<close> + 1 hour (and there are such
  \<open>y\<close> and \<open>s\<close> at every now within 8 600 000 000 000 000 milliseconds of the epoch).  And
  for the occurrence of any year, starting at \<open>s\<close>: with now between a minute before \<open>s\<close>
  and the end, that year is the calendar year of now; the function is false at \<open>s\<close> minus 1
  minute, true at exactly \<open>s\<close>, true at \<open>s\<close> plus 59 minutes and false at exactly the end
  \<open>s\<close> + 1 hour.
\<close>

theorem isCurrentlyEarthHour_half_open:
  assumes "tzdata e timezone = Some z"
  shows "(\<forall>y s. dt_year (setZone e (DateTime_now e) timezone) = Some y
            \<and> getEarthHourDate e (Some y) timezone = Inr (Date s) \<longrightarrow>
              y = YearFromTime (clock e + offsetAt z (clock e) * 60000)
            \<and> getThisYearsEarthHourStart e timezone = Inr (Date s)
            \<and> getThisYearsEarthHourEnd e timezone = Inr (Date (s + 3600000))
            \<and> isCurrentlyEarthHour e timezone = Inr (s \<le> clock e \<and> clock e < s + 3600000))
    \<and> (\<bar>clock e\<bar> \<le> 8600000000000000 \<longrightarrow>
          (\<exists>y s. dt_year (setZone e (DateTime_now e) timezone) = Some y
            \<and> getEarthHourDate e (Some y) timezone = Inr (Date s)))
    \<and> (\<forall>yr s. getEarthHourDate e (Some yr) timezone = Inr (Date s) \<longrightarrow>
          (s - 60000 \<le> clock e \<and> clock e \<le> s + 3600000 \<longrightarrow>
              dt_year (setZone e (DateTime_now e) timezone) = Some yr)
        \<and> (clock e = s - 60000 \<longrightarrow> isCurrentlyEarthHour e timezone = Inr False)
        \<and> (clock e = s \<longrightarrow> isCurrentlyEarthHour e timezone = Inr True)
        \<and> (clock e = s + 59 * 60000 \<longrightarrow> isCurrentlyEarthHour e timezone = Inr True)
        \<and> (clock e = s + 3600000 \<longrightarrow> isCurrentlyEarthHour e timezone = Inr False))"
proof -
  note tz = assms
  have a: "y = YearFromTime (clock e + offsetAt z (clock e) * 60000)
      \<and> getThisYearsEarthHourStart e timezone = Inr (Date s)
      \<and> getThisYearsEarthHourEnd e timezone = Inr (Date (s + 3600000))
      \<and> isCurrentlyEarthHour e timezone = Inr (s \<le> clock e \<and> clock e < s + 3600000)"
    if y: "dt_year (setZone e (DateTime_now e) timezone) = Some y"
      and s: "getEarthHourDate e (Some y) timezone = Inr (Date s)" for y s
    using now_of_year(2) [OF tz y] thisYears_select [OF tz y s occurrence_bound [OF tz s]]
      isCurrentlyEarthHour_select [OF tz y s]
    by blast
  have b: "\<exists>y s. dt_year (setZone e (DateTime_now e) timezone) = Some y
      \<and> getEarthHourDate e (Some y) timezone = Inr (Date s)"
    if c: "\<bar>clock e\<bar> \<le> 8600000000000000"
    using occurrences [OF tz c] by blast
  have p: "isCurrentlyEarthHour e timezone = Inr (s \<le> clock e \<and> clock e < s + 3600000)"
    if g: "getEarthHourDate e (Some yr) timezone = Inr (Date s)"
      and w: "s - 60000 \<le> clock e" "clock e \<le> s + 3600000" for yr s
    by (rule isCurrentlyEarthHour_select [OF tz year_at_occurrence(1) [OF tz g w] g])
  have q: "(s - 60000 \<le> clock e \<and> clock e \<le> s + 3600000 \<longrightarrow>
              dt_year (setZone e (DateTime_now e) timezone) = Some yr)
        \<and> (clock e = s - 60000 \<longrightarrow> isCurrentlyEarthHour e timezone = Inr False)
        \<and> (clock e = s \<longrightarrow> isCurrentlyEarthHour e timezone = Inr True)
        \<and> (clock e = s + 59 * 60000 \<longrightarrow> isCurrentlyEarthHour e timezone = Inr True)
        \<and> (clock e = s + 3600000 \<longrightarrow> isCurrentlyEarthHour e timezone = Inr False)"
    if g: "getEarthHourDate e (Some yr) timezone = Inr (Date s)" for yr s
  proof (intro conjI impI)
    assume "s - 60000 \<le> clock e \<and> clock e \<le> s + 3600000"
    then show "dt_year (setZone e (DateTime_now e) timezone) = Some yr"
      using year_at_occurrence(1) [OF tz g] by blast
  next
    assume "clock e = s - 60000"
    then show "isCurrentlyEarthHour e timezone = Inr False"
      using p [OF g] by simp
  next
    assume "clock e = s"
    then show "isCurrentlyEarthHour e timezone = Inr True"
      using p [OF g] by simp
  next
    assume "clock e = s + 59 * 60000"
    then show "isCurrentlyEarthHour e timezone = Inr True"
      using p [OF g] by simp
  next
    assume "clock e = s + 3600000"
    then show "isCurrentlyEarthHour e timezone = Inr False"
      using p [OF g] by simp
  qed
  show ?thesis
    using a b q by blast
qed

theorem isCurrentlyEarthHour_half_open_witness:
  "isCurrentlyEarthHour (test_env 1743276540000) ''Europe/Amsterdam'' = Inr False
   \<and> isCurrentlyEarthHour (test_env 1743276600000) ''Europe/Amsterdam'' = Inr True
   \<and> isCurrentlyEarthHour (test_env 1743280140000) ''Europe/Amsterdam'' = Inr True
   \<and> isCurrentlyEarthHour (test_env 1743280200000) ''Europe/Amsterdam'' = Inr False
   \<and> isCurrentlyEarthHour (test_env 1743238800000) ''Europe/Amsterdam'' = Inr False"
proof -
  have tz: "tzdata (test_env t) ''Europe/Amsterdam'' = Some europe_amsterdam" for t
    by (simp add: test_env_def)
  have c: "clock (test_env t) = t" for t
    by (simp add: test_env_def)
  have g1: "getEarthHourDate (test_env 1743276540000) (Some 2025) ''Europe/Amsterdam'' =
      Inr (Date 1743276600000)"
    by code_simp
  have g2: "getEarthHourDate (test_env 1743276600000) (Some 2025) ''Europe/Amsterdam'' =
      Inr (Date 1743276600000)"
    by code_simp
  have g3: "getEarthHourDate (test_env 1743280140000) (Some 2025) ''Europe/Amsterdam'' =
      Inr (Date 1743276600000)"
    by code_simp
  have g4: "getEarthHourDate (test_env 1743280200000) (Some 2025) ''Europe/Amsterdam'' =
      Inr (Date 1743276600000)"
    by code_simp
  have y5: "dt_year (setZone (test_env 1743238800000) (DateTime_now (test_env 1743238800000))
      ''Europe/Amsterdam'') = Some 2025"
    by code_simp
  have g5: "getEarthHourDate (test_env 1743238800000) (Some 2025) ''Europe/Amsterdam'' =
      Inr (Date 1743276600000)"
    by code_simp
  have "isCurrentlyEarthHour (test_env 1743276540000) ''Europe/Amsterdam'' = Inr False"
    using isCurrentlyEarthHour_half_open [OF tz, of 1743276540000] g1 by (simp add: c)
  moreover have "isCurrentlyEarthHour (test_env 1743276600000) ''Europe/Amsterdam'' = Inr True"
    using isCurrentlyEarthHour_half_open [OF tz, of 1743276600000] g2 by (simp add: c)
  moreover have "isCurrentlyEarthHour (test_env 1743280140000) ''Europe/Amsterdam'' = Inr True"
    using isCurrentlyEarthHour_half_open [OF tz, of 1743280140000] g3 by (simp add: c)
  moreover have "isCurrentlyEarthHour (test_env 1743280200000) ''Europe/Amsterdam'' = Inr False"
    using isCurrentlyEarthHour_half_open [OF tz, of 1743280200000] g4 by (simp add: c)
  moreover have "isCurrentlyEarthHour (test_env 1743238800000) ''Europe/Amsterdam'' = Inr False"
  proof -
    from isCurrentlyEarthHour_half_open [OF tz, of 1743238800000] y5 g5
    have "isCurrentlyEarthHour (test_env 1743238800000) ''Europe/Amsterdam'' =
        Inr (1743276600000 \<le> clock (test_env 1743238800000)
          \<and> clock (test_env 1743238800000) < 1743276600000 + 3600000)"
      by blast
    then show ?thesis
      by (simp add: c)
  qed
  ultimately show ?thesis by blast
qed

text \<open>
  C6 (corrected).  The claim has \<open>getMinutesUntilEarthHourStart\<close> positive for every now
  before the start and negative for every now in the active window.  The minutes are
  rounded: on 29 March 2025 in Europe/Amsterdam the answer is 0 at 20:29:45, before the
  start, and 0 at 20:30:00, the first instant of the window.
\<close>

theorem minutesUntilStart_counterexample:
  "getThisYearsEarthHourStart (test_env 1743276585000) ''Europe/Amsterdam'' =
      Inr (Date 1743276600000)
   \<and> clock (test_env 1743276585000) = 1743276585000
   \<and> getMinutesUntilEarthHourStart (test_env 1743276585000) ''Europe/Amsterdam'' =
      Inr (Some 0)
   \<and> getThisYearsEarthHourStart (test_env 1743276600000) ''Europe/Amsterdam'' =
      Inr (Date 1743276600000)
   \<and> getThisYearsEarthHourEnd (test_env 1743276600000) ''Europe/Amsterdam'' =
      Inr (Date 1743280200000)
   \<and> clock (test_env 1743276600000) = 1743276600000
   \<and> getMinutesUntilEarthHourStart (test_env 1743276600000) ''Europe/Amsterdam'' =
      Inr (Some 0)"
  by (intro conjI; code_simp)

text \<open>
  C6 as amended.  In a zone that resolves, with the clock within 8 600 000 000 000 000
  milliseconds of the epoch, \<open>s\<close> the start of the occurrence of the calendar year of now
  and \<open>s2\<close> that of the next year: for every now before this year's end,
  \<open>getMinutesUntilEarthHourStart\<close> is the distance to \<open>s\<close> rounded to the nearest minute (a
  half minute going up); it is not negative for every now strictly before the start, and
  positive there exactly while at least 30 seconds remain; for every now in the active
  window it is between -60 and 0, and negative exactly when more than 30 seconds have
  passed since the start; for every now at or after this year's end it is the rounded
  distance to next year's start \<open>s2\<close>, and positive: at least 82080 minutes (57 days).
\<close>

theorem minutesUntilStart_sign_pattern:
  assumes "tzdata e timezone = Some z" and "\<bar>clock e\<bar> \<le> 8600000000000000"
  shows "\<exists>y s s2 m.
      dt_year (setZone e (DateTime_now e) timezone) = Some y
    \<and> getEarthHourDate e (Some y) timezone = Inr (Date s)
    \<and> getEarthHourDate e (Some (y + 1)) timezone = Inr (Date s2)
    \<and> getThisYearsEarthHourStart e timezone = Inr (Date s)
    \<and> getThisYearsEarthHourEnd e timezone = Inr (Date (s + 3600000))
    \<and> getMinutesUntilEarthHourStart e timezone = Inr (Some m)
    \<and> (clock e < s + 3600000 \<longrightarrow>
          60000 * m - 30000 \<le> s - clock e \<and> s - clock e < 60000 * m + 30000)
    \<and> (clock e < s \<longrightarrow> 0 \<le> m \<and> (0 < m \<longleftrightarrow> clock e + 30000 \<le> s))
    \<and> (s \<le> clock e \<and> clock e < s + 3600000 \<longrightarrow>
          - 60 \<le> m \<and> m \<le> 0 \<and> (m < 0 \<longleftrightarrow> s + 30000 < clock e))
    \<and> (s + 3600000 \<le> clock e \<longrightarrow>
          82080 \<le> m \<and> 60000 * m - 30000 \<le> s2 - clock e
          \<and> s2 - clock e < 60000 * m + 30000)"
proof -
  note tz = assms(1)
  have clk: "\<bar>clock e\<bar> \<le> 8639999640000000"
    using assms(2) by simp
  from occurrences [OF assms] obtain y s s2 where
    y: "dt_year (setZone e (DateTime_now e) timezone) = Some y"
    and s: "getEarthHourDate e (Some y) timezone = Inr (Date s)"
    and s2: "getEarthHourDate e (Some (y + 1)) timezone = Inr (Date s2)"
    and b: "\<bar>s\<bar> \<le> 8639990000000000" "\<bar>s2\<bar> \<le> 8639990000000000"
    and far: "clock e + 4924800000 < s2"
    by blast
  have sb: "\<bar>s\<bar> \<le> 8639999000000000" "\<bar>s2\<bar> \<le> 8639999000000000"
    using b by simp_all
  define m where
    "m = ((if clock e < s + 3600000 then s else s2) - clock e + 30000) div 60000"
  have v: "getMinutesUntilEarthHourStart e timezone = Inr (Some m)"
    unfolding m_def by (rule minutesStart_select [OF tz clk y s sb(1) s2 sb(2)])
  have mw: "m = (s - clock e + 30000) div 60000" if "clock e < s + 3600000"
    using that by (simp add: m_def)
  have ma: "m = (s2 - clock e + 30000) div 60000" if "s + 3600000 \<le> clock e"
    using that by (simp add: m_def)
  have r: "60000 * m - 30000 \<le> s - clock e \<and> s - clock e < 60000 * m + 30000"
    if "clock e < s + 3600000"
    unfolding mw [OF that] using minutes_window(7,8) [of "s - clock e"] by simp
  have a: "0 \<le> m \<and> (0 < m \<longleftrightarrow> clock e + 30000 \<le> s)" if "clock e < s"
  proof -
    have w: "clock e < s + 3600000" using that by simp
    have "0 \<le> m"
      unfolding mw [OF w] using that by (intro minutes_window(1)) simp
    moreover have "0 < m \<longleftrightarrow> 30000 \<le> s - clock e"
      unfolding mw [OF w] by (rule minutes_window(3))
    ultimately show ?thesis by auto
  qed
  have bb: "- 60 \<le> m \<and> m \<le> 0 \<and> (m < 0 \<longleftrightarrow> s + 30000 < clock e)"
    if "s \<le> clock e" "clock e < s + 3600000"
  proof -
    have "- 60 \<le> m"
      unfolding mw [OF that(2)] using that by (intro minutes_window(5)) simp
    moreover have "m \<le> 0"
      unfolding mw [OF that(2)] using that by (intro minutes_window(4)) simp
    moreover have "m < 0 \<longleftrightarrow> s - clock e < - 30000"
      unfolding mw [OF that(2)] by (rule minutes_window(6))
    ultimately show ?thesis by auto
  qed
  have c: "82080 \<le> m \<and> 60000 * m - 30000 \<le> s2 - clock e \<and> s2 - clock e < 60000 * m + 30000"
    if "s + 3600000 \<le> clock e"
  proof -
    have q: "60000 * m - 30000 \<le> s2 - clock e" "s2 - clock e < 60000 * m + 30000"
      unfolding ma [OF that] using minutes_window(7,8) [of "s2 - clock e"] by simp_all
    then have "82080 \<le> m"
      using far by simp
    with q show ?thesis by simp
  qed
  show ?thesis
    using y s s2 thisYears_select [OF tz y s sb(1)] v r a bb c by blast
qed

theorem minutesUntilStart_sign_pattern_witness:
  "(\<exists>m. getMinutesUntilEarthHourStart (test_env 1743238800000) ''Europe/Amsterdam'' =
        Inr (Some m) \<and> 0 < m)
   \<and> (\<exists>m. getMinutesUntilEarthHourStart (test_env 1743277500000) ''Europe/Amsterdam'' =
        Inr (Some m) \<and> - 60 \<le> m \<and> m < 0)
   \<and> (\<exists>m. getMinutesUntilEarthHourStart (test_env 1743282000000) ''Europe/Amsterdam'' =
        Inr (Some m) \<and> 82080 \<le> m
        \<and> 60000 * m - 30000 \<le> 1774726200000 - 1743282000000
        \<and> 1774726200000 - 1743282000000 < 60000 * m + 30000)"
proof -
  have tz: "tzdata (test_env t) ''Europe/Amsterdam'' = Some europe_amsterdam" for t
    by (simp add: test_env_def)
  have c: "clock (test_env t) = t" for t
    by (simp add: test_env_def)
  have s1: "getThisYearsEarthHourStart (test_env 1743238800000) ''Europe/Amsterdam'' =
      Inr (Date 1743276600000)"
    by code_simp
  have s2: "getThisYearsEarthHourStart (test_env 1743277500000) ''Europe/Amsterdam'' =
      Inr (Date 1743276600000)"
    by code_simp
  have y3: "dt_year (setZone (test_env 1743282000000) (DateTime_now (test_env 1743282000000))
      ''Europe/Amsterdam'') = Some 2025"
    by code_simp
  have s3: "getThisYearsEarthHourStart (test_env 1743282000000) ''Europe/Amsterdam'' =
      Inr (Date 1743276600000)"
    by code_simp
  have n3: "getEarthHourDate (test_env 1743282000000) (Some 2026) ''Europe/Amsterdam'' =
      Inr (Date 1774726200000)"
    by code_simp
  have "\<exists>m. getMinutesUntilEarthHourStart (test_env 1743238800000) ''Europe/Amsterdam'' =
      Inr (Some m) \<and> 0 < m"
    using minutesUntilStart_sign_pattern [OF tz, of 1743238800000] s1 by (auto simp: c)
  moreover have "\<exists>m. getMinutesUntilEarthHourStart (test_env 1743277500000)
      ''Europe/Amsterdam'' = Inr (Some m) \<and> - 60 \<le> m \<and> m < 0"
    using minutesUntilStart_sign_pattern [OF tz, of 1743277500000] s2 by (auto simp: c)
  moreover have "\<exists>m. getMinutesUntilEarthHourStart (test_env 1743282000000)
      ''Europe/Amsterdam'' = Inr (Some m) \<and> 82080 \<le> m
        \<and> 60000 * m - 30000 \<le> 1774726200000 - 1743282000000
        \<and> 1774726200000 - 1743282000000 < 60000 * m + 30000"
  proof -
    have cb: "\<bar>clock (test_env 1743282000000)\<bar> \<le> 8600000000000000"
      by (simp add: c)
    from minutesUntilStart_sign_pattern [OF tz cb] obtain y s s2 m where
      r: "dt_year (setZone (test_env 1743282000000) (DateTime_now (test_env 1743282000000))
          ''Europe/Amsterdam'') = Some y"
        "getThisYearsEarthHourStart (test_env 1743282000000) ''Europe/Amsterdam'' =
          Inr (Date s)"
        "getEarthHourDate (test_env 1743282000000) (Some (y + 1)) ''Europe/Amsterdam'' =
          Inr (Date s2)"
        "getMinutesUntilEarthHourStart (test_env 1743282000000) ''Europe/Amsterdam'' =
          Inr (Some m)"
        "s + 3600000 \<le> clock (test_env 1743282000000) \<longrightarrow>
          82080 \<le> m \<and> 60000 * m - 30000 \<le> s2 - clock (test_env 1743282000000)
          \<and> s2 - clock (test_env 1743282000000) < 60000 * m + 30000"
      by blast
    have ys: "y = 2025" "s = 1743276600000"
      using r(1,2) y3 s3 by simp_all
    then have "s2 = 1774726200000"
      using r(3) n3 by simp
    then show ?thesis
      using r(4,5) ys by (simp add: c)
  qed
  ultimately show ?thesis by blast
qed





text \<open>
  C8.  \<open>getOneMonthBeforeEarthHour\<close> takes one calendar month off the start of the
  occurrence and clamps the day to the length of February: the result reads, in the zone,
  as 20:30 on the last Saturday's day number or on the last day of February, whichever is
  smaller.  In a zone with the offsets of Europe/Amsterdam (offset 60 from 28 February to
  the last Sunday of March 01:00 UTC, offset 120 after it) that is 2025-02-28 20:30 for
  2025, February 2025 having no 29th, and 2024-02-29 20:30 for the leap year 2024.
\<close>

theorem oneMonthBefore_clamps:
  assumes "tzdata e timezone = Some z"
    and "\<bar>clock e\<bar> \<le> 8640000000000000"
    and "60 \<le> offsetAt z (clock e)" and "offsetAt z (clock e) \<le> 120"
    and "\<forall>t. 1740700800000 \<le> t \<and> t < 1743296400000 \<longrightarrow> offsetAt z t = 60"
    and "\<forall>t. 1743296400000 \<le> t \<and> t < 1743465600000 \<longrightarrow> offsetAt z t = 120"
    and "\<forall>t. 1709164800000 \<le> t \<and> t < 1711846800000 \<longrightarrow> offsetAt z t = 60"
  shows "getOneMonthBeforeEarthHour e (Some 2025) timezone = Inr (Date 1740771000000)
    \<and> toObject (inZone e (Date 1740771000000) timezone) =
        Some \<lparr>c_year = 2025, c_month = 2, c_day = 28, c_hour = 20, c_minute = 30,
          c_second = 0, c_millisecond = 0\<rparr>
    \<and> getOneMonthBeforeEarthHour e (Some 2024) timezone = Inr (Date 1709235000000)
    \<and> toObject (inZone e (Date 1709235000000) timezone) =
        Some \<lparr>c_year = 2024, c_month = 2, c_day = 29, c_hour = 20, c_minute = 30,
          c_second = 0, c_millisecond = 0\<rparr>
    \<and> (\<forall>yr lo hi c c4. - 271820 \<le> yr \<and> yr \<le> 275760
          \<and> lo \<le> offsetAt z (clock e) \<and> offsetAt z (clock e) \<le> hi
          \<and> zone_settled_for z lo hi yr c
          \<and> settled z lo hi (februaryAt yr (min (lastSaturday yr) (daysInMonth yr 2)) 20 30) c4
          \<longrightarrow> (\<exists>d. getOneMonthBeforeEarthHour e (Some yr) timezone = Inr (Date d)
                \<and> toObject (inZone e (Date d) timezone) =
                    Some \<lparr>c_year = yr, c_month = 2,
                      c_day = min (lastSaturday yr) (daysInMonth yr 2), c_hour = 20,
                      c_minute = 30, c_second = 0, c_millisecond = 0\<rparr>))"
proof -
  note tz = assms(1)
  note cet25 = assms(5) and cest25 = assms(6) and cet24 = assms(7)
  have zo: "zone_offset z (clock e) = Some (offsetAt z (clock e))"
    using assms(2) by (intro zone_offset_Some) simp_all
  have y25: "- 271820 \<le> (2025::int)" "(2025::int) \<le> 275760"
    and y24: "- 271820 \<le> (2024::int)" "(2024::int) \<le> 275760"
    by simp_all
  have z25: "zone_settled_for z 60 120 2025 60"
    unfolding zone_settled_for_def values_2025
    by (intro conjI exI [where x = 120] exI [where x = 60] settled_from_range [OF cest25]
        settled_from_range [OF cet25]) simp_all
  have e25: "februaryAt 2025 (min (lastSaturday 2025) (daysInMonth 2025 2)) 20 30 =
      1740774600000"
    by (simp add: values_2025 february_values)
  have f25: "settled z 60 120
      (februaryAt 2025 (min (lastSaturday 2025) (daysInMonth 2025 2)) 20 30) 60"
    unfolding e25 by (intro settled_from_range [OF cet25]) simp_all
  have z24: "zone_settled_for z 60 120 2024 60"
    unfolding zone_settled_for_def values_2024
    by (intro conjI exI [where x = 60] settled_from_range [OF cet24]) simp_all
  have e24: "februaryAt 2024 (min (lastSaturday 2024) (daysInMonth 2024 2)) 20 30 =
      1709238600000"
    by (simp add: values_2024 february_values)
  have f24: "settled z 60 120
      (februaryAt 2024 (min (lastSaturday 2024) (daysInMonth 2024 2)) 20 30) 60"
    unfolding e24 by (intro settled_from_range [OF cet24]) simp_all
  have m: "min (lastSaturday 2025) (daysInMonth 2025 2) = 28"
    "min (lastSaturday 2024) (daysInMonth 2024 2) = 29"
    by (simp_all add: values_2025 values_2024 february_values)
  note r25 = oneMonthBefore_settled [OF tz zo assms(3,4) y25 z25 f25, unfolded m]
  note r24 = oneMonthBefore_settled [OF tz zo assms(3,4) y24 z24 f24, unfolded m]
  have g: "\<exists>d. getOneMonthBeforeEarthHour e (Some yr) timezone = Inr (Date d)
      \<and> toObject (inZone e (Date d) timezone) =
          Some \<lparr>c_year = yr, c_month = 2, c_day = min (lastSaturday yr) (daysInMonth yr 2),
            c_hour = 20, c_minute = 30, c_second = 0, c_millisecond = 0\<rparr>"
    if "- 271820 \<le> yr" "yr \<le> 275760" "lo \<le> offsetAt z (clock e)" "offsetAt z (clock e) \<le> hi"
      "zone_settled_for z lo hi yr c"
      "settled z lo hi (februaryAt yr (min (lastSaturday yr) (daysInMonth yr 2)) 20 30) c4"
    for yr lo hi c c4
    using oneMonthBefore_settled [OF tz zo that(3,4) that(1,2) that(5,6)] by blast
  have r: "getOneMonthBeforeEarthHour e (Some 2025) timezone = Inr (Date 1740771000000)"
    "toObject (inZone e (Date 1740771000000) timezone) =
        Some \<lparr>c_year = 2025, c_month = 2, c_day = 28, c_hour = 20, c_minute = 30,
          c_second = 0, c_millisecond = 0\<rparr>"
    "getOneMonthBeforeEarthHour e (Some 2024) timezone = Inr (Date 1709235000000)"
    "toObject (inZone e (Date 1709235000000) timezone) =
        Some \<lparr>c_year = 2024, c_month = 2, c_day = 29, c_hour = 20, c_minute = 30,
          c_second = 0, c_millisecond = 0\<rparr>"
    using r25 r24 by (simp_all add: february_values)
  show ?thesis
    using r g by (intro conjI allI impI) (simp_all, blast)
qed

theorem oneMonthBefore_clamps_witness:
  "getOneMonthBeforeEarthHour (test_env 0) (Some 2025) ''Europe/Amsterdam'' =
      Inr (Date 1740771000000)
   \<and> toObject (inZone (test_env 0) (Date 1740771000000) ''Europe/Amsterdam'') =
        Some \<lparr>c_year = 2025, c_month = 2, c_day = 28, c_hour = 20, c_minute = 30,
          c_second = 0, c_millisecond = 0\<rparr>
   \<and> getOneMonthBeforeEarthHour (test_env 0) (Some 2024) ''Europe/Amsterdam'' =
      Inr (Date 1709235000000)
   \<and> toObject (inZone (test_env 0) (Date 1709235000000) ''Europe/Amsterdam'') =
        Some \<lparr>c_year = 2024, c_month = 2, c_day = 29, c_hour = 20, c_minute = 30,
          c_second = 0, c_millisecond = 0\<rparr>"
proof -
  have tz: "tzdata (test_env 0) ''Europe/Amsterdam'' = Some europe_amsterdam"
    by (simp add: test_env_def)
  have k: "\<bar>clock (test_env 0)\<bar> \<le> 8640000000000000"
    by (simp add: test_env_def)
  have p: "60 \<le> offsetAt europe_amsterdam (clock (test_env 0))"
    "offsetAt europe_amsterdam (clock (test_env 0)) \<le> 120"
    by (simp_all add: europe_amsterdam_offset)
  have a: "\<forall>t. 1740700800000 \<le> t \<and> t < 1743296400000 \<longrightarrow> offsetAt europe_amsterdam t = 60"
    and b: "\<forall>t. 1743296400000 \<le> t \<and> t < 1743465600000 \<longrightarrow> offsetAt europe_amsterdam t = 120"
    and c: "\<forall>t. 1709164800000 \<le> t \<and> t < 1711846800000 \<longrightarrow> offsetAt europe_amsterdam t = 60"
    by (simp_all add: europe_amsterdam_offset)
  show ?thesis
    using oneMonthBefore_clamps [OF tz k p a b c] by blast
qed

text \<open>
  C9 (corrected).  The claim has the ordinal suffix exactly when the locale is English and
  the bare numeral for every other locale.  The program tests whether the tag starts with
  the two lower-case letters "en".  The tag "EN" is English (tags are compared without
  regard to case, and \<^verbatim>\<open>Intl\<close> takes it), yet the day of the start of the 2025 occurrence is
  rendered bare: "29 March 2025".  The tag "enm" is Middle English, another language, yet
  the day gets the suffix.
\<close>

theorem formatDateFriendly_locale_counterexample:
  "getEarthHourDate (test_env 0) (Some 2025) ''Europe/Amsterdam'' = Inr (Date 1743276600000)
   \<and> isEnglish ''EN'' \<and> validLocale (test_env 0) ''EN''
   \<and> formatDateFriendly (test_env 0) (Date 1743276600000) ''Europe/Amsterdam'' (Some ''EN'') =
       Inr ''29 March 2025''
   \<and> \<not> isEnglish ''enm'' \<and> validLocale (test_env 0) ''enm''
   \<and> formatDateFriendly (test_env 0) (Date 1743276600000) ''Europe/Amsterdam'' (Some ''enm'') =
       Inr ''29th March 2025''"
  by (intro conjI; code_simp)

text \<open>
  C9 as amended.  \<open>ordinalEn\<close> adds the standard English ordinal suffix (units digit 1: st,
  2: nd, 3: rd, otherwise th, and th for 11 to 13).  For a date that the zone shows and a
  locale tag that is not empty, \<open>formatDateFriendly\<close> raises a \<^verbatim>\<open>RangeError\<close> when \<^verbatim>\<open>Intl\<close>
  does not take the tag (as for "en_US"); otherwise it renders the day with that suffix
  exactly when the tag starts with the lower-case letters "en", and as the bare numeral for
  every other tag.  The start of the 2025 occurrence, being 29 March 2025 in its zone, is
  formatted "29th March 2025" for locale "en" and "29 maart 2025" for locale "nl", the
  locale data naming March "March" and "maart" and writing the year 2025 as "2025".
\<close>

theorem formatDateFriendly_ordinal:
  "(\<forall>n. 0 \<le> n \<longrightarrow> ordinalEn n = numberToString n @ englishOrdinalSuffix n)
    \<and> (\<forall>obj l. toObject (inZone e d timezone) = Some obj \<and> l \<noteq> [] \<longrightarrow>
          formatDateFriendly e d timezone (Some l) =
            (if \<not> validLocale e l then Inl RangeError
             else if startsWith l ''en''
             then Inr (numberToString (c_day obj) @ englishOrdinalSuffix (c_day obj)
                    @ '' '' @ monthLong e l (c_month obj) @ '' '' @ yearText e l (c_year obj))
             else Inr (numberToString (c_day obj)
                    @ '' '' @ monthLong e l (c_month obj) @ '' '' @ yearText e l (c_year obj))))
    \<and> (\<forall>s. getEarthHourDate e (Some 2025) timezone = Inr (Date s)
          \<and> toObject (inZone e (Date s) timezone) =
              Some \<lparr>c_year = 2025, c_month = 3, c_day = 29, c_hour = 20, c_minute = 30,
                c_second = 0, c_millisecond = 0\<rparr>
          \<longrightarrow> (validLocale e ''en'' \<and> monthLong e ''en'' 3 = ''March''
                \<and> yearText e ''en'' 2025 = ''2025'' \<longrightarrow>
                  formatDateFriendly e (Date s) timezone (Some ''en'') = Inr ''29th March 2025'')
            \<and> (validLocale e ''nl'' \<and> monthLong e ''nl'' 3 = ''maart''
                \<and> yearText e ''nl'' 2025 = ''2025'' \<longrightarrow>
                  formatDateFriendly e (Date s) timezone (Some ''nl'') = Inr ''29 maart 2025''))"
proof -
  have a: "\<forall>n. 0 \<le> n \<longrightarrow> ordinalEn n = numberToString n @ englishOrdinalSuffix n"
    by (simp add: ordinalEn_suffix)
  have b: "formatDateFriendly e d timezone (Some l) =
        (if \<not> validLocale e l then Inl RangeError
         else if startsWith l ''en''
         then Inr (numberToString (c_day obj) @ englishOrdinalSuffix (c_day obj)
                @ '' '' @ monthLong e l (c_month obj) @ '' '' @ yearText e l (c_year obj))
         else Inr (numberToString (c_day obj)
                @ '' '' @ monthLong e l (c_month obj) @ '' '' @ yearText e l (c_year obj)))"
    if "toObject (inZone e d timezone) = Some obj" "l \<noteq> []" for obj l
    using that(2) by (simp add: formatDateFriendly_fields [OF that(1)] or_default_def)
  have en: "formatDateFriendly e (Date s) timezone (Some ''en'') = Inr ''29th March 2025''"
    if "toObject (inZone e (Date s) timezone) =
          Some \<lparr>c_year = 2025, c_month = 3, c_day = 29, c_hour = 20, c_minute = 30,
            c_second = 0, c_millisecond = 0\<rparr>"
      "validLocale e ''en''" "monthLong e ''en'' 3 = ''March''"
      "yearText e ''en'' 2025 = ''2025''" for s
    using that(2-4)
    by (simp add: formatDateFriendly_fields [OF that(1)] or_default_def startsWith_def
        suffix_29)
  have nl: "formatDateFriendly e (Date s) timezone (Some ''nl'') = Inr ''29 maart 2025''"
    if "toObject (inZone e (Date s) timezone) =
          Some \<lparr>c_year = 2025, c_month = 3, c_day = 29, c_hour = 20, c_minute = 30,
            c_second = 0, c_millisecond = 0\<rparr>"
      "validLocale e ''nl''" "monthLong e ''nl'' 3 = ''maart''"
      "yearText e ''nl'' 2025 = ''2025''" for s
    using that(2-4)
    by (simp add: formatDateFriendly_fields [OF that(1)] or_default_def startsWith_def
        suffix_29)
  show ?thesis
    using a b en nl by blast
qed

theorem formatDateFriendly_ordinal_witness:
  "formatDateFriendly (test_env 0) (Date 1743276600000) ''Europe/Amsterdam'' (Some ''en'') =
       Inr ''29th March 2025''
   \<and> formatDateFriendly (test_env 0) (Date 1743276600000) ''Europe/Amsterdam'' (Some ''nl'') =
       Inr ''29 maart 2025''
   \<and> formatDateFriendly (test_env 0) (Date 1743276600000) ''Europe/Amsterdam''
       (Some ''en_US'') = Inl RangeError
   \<and> ordinalEn 1 = ''1st'' \<and> ordinalEn 2 = ''2nd'' \<and> ordinalEn 3 = ''3rd'' \<and> ordinalEn 4 = ''4th''
   \<and> ordinalEn 11 = ''11th'' \<and> ordinalEn 12 = ''12th'' \<and> ordinalEn 13 = ''13th''
   \<and> ordinalEn 21 = ''21st'' \<and> ordinalEn 22 = ''22nd'' \<and> ordinalEn 23 = ''23rd''
   \<and> ordinalEn 31 = ''31st''"
proof -
  have g: "getEarthHourDate (test_env 0) (Some 2025) ''Europe/Amsterdam'' =
      Inr (Date 1743276600000)"
    by code_simp
  have f: "toObject (inZone (test_env 0) (Date 1743276600000) ''Europe/Amsterdam'') =
      Some \<lparr>c_year = 2025, c_month = 3, c_day = 29, c_hour = 20, c_minute = 30,
        c_second = 0, c_millisecond = 0\<rparr>"
    by code_simp
  note t = formatDateFriendly_ordinal [of "test_env 0" "Date 1743276600000" "''Europe/Amsterdam''"]
  have n: "numberToString 1 = ''1''" "numberToString 2 = ''2''" "numberToString 3 = ''3''"
    "numberToString 4 = ''4''" "numberToString 11 = ''11''" "numberToString 12 = ''12''"
    "numberToString 13 = ''13''" "numberToString 21 = ''21''" "numberToString 22 = ''22''"
    "numberToString 23 = ''23''" "numberToString 31 = ''31''"
    by code_simp+
  have o: "ordinalEn k = numberToString k @ englishOrdinalSuffix k" if "0 \<le> k" for k
    using t that by blast
  have en: "formatDateFriendly (test_env 0) (Date 1743276600000) ''Europe/Amsterdam''
      (Some ''en'') = Inr ''29th March 2025''"
    using t g f test_env_locale [of 0] by blast
  have nl: "formatDateFriendly (test_env 0) (Date 1743276600000) ''Europe/Amsterdam''
      (Some ''nl'') = Inr ''29 maart 2025''"
    using t g f test_env_locale [of 0] by blast
  have us: "formatDateFriendly (test_env 0) (Date 1743276600000) ''Europe/Amsterdam''
      (Some ''en_US'') = Inl RangeError"
    using t f test_env_locale(4) [of 0] by simp
  show ?thesis
    using en nl us by (simp add: o n englishOrdinalSuffix_def)
qed

text \<open>
  C10.  With the locale omitted or empty, \<open>formatDateFriendly\<close> and
  \<open>formatDateFriendlyNoYear\<close> take the locale "en" and so render the day of a date that the
  zone shows with the English ordinal suffix; and every locale tag that starts with "en"
  (such as "en-GB"), not only the tag "en" itself, selects the ordinal rendering.  A
  string with that prefix that is not a locale tag, one that \<^verbatim>\<open>Intl\<close> does not take, is not
  rendered: it raises a \<^verbatim>\<open>RangeError\<close>.
\<close>

theorem locale_default_and_prefix:
  "formatDateFriendly e d timezone None = formatDateFriendly e d timezone (Some ''en'')
    \<and> formatDateFriendly e d timezone (Some []) = formatDateFriendly e d timezone (Some ''en'')
    \<and> formatDateFriendlyNoYear e d timezone None =
        formatDateFriendlyNoYear e d timezone (Some ''en'')
    \<and> formatDateFriendlyNoYear e d timezone (Some []) =
        formatDateFriendlyNoYear e d timezone (Some ''en'')
    \<and> (\<forall>obj. toObject (inZone e d timezone) = Some obj \<and> validLocale e ''en'' \<longrightarrow>
          formatDateFriendly e d timezone None =
            Inr (numberToString (c_day obj) @ englishOrdinalSuffix (c_day obj)
              @ '' '' @ monthLong e ''en'' (c_month obj)
              @ '' '' @ yearText e ''en'' (c_year obj))
        \<and> formatDateFriendlyNoYear e d timezone None =
            Inr (numberToString (c_day obj) @ englishOrdinalSuffix (c_day obj)
              @ '' '' @ monthLong e ''en'' (c_month obj)))
    \<and> (\<forall>obj l. toObject (inZone e d timezone) = Some obj \<and> startsWith l ''en'' \<longrightarrow>
          formatDateFriendly e d timezone (Some l) =
            (if validLocale e l
             then Inr (numberToString (c_day obj) @ englishOrdinalSuffix (c_day obj)
               @ '' '' @ monthLong e l (c_month obj) @ '' '' @ yearText e l (c_year obj))
             else Inl RangeError)
        \<and> formatDateFriendlyNoYear e d timezone (Some l) =
            (if validLocale e l
             then Inr (numberToString (c_day obj) @ englishOrdinalSuffix (c_day obj)
               @ '' '' @ monthLong e l (c_month obj))
             else Inl RangeError))
    \<and> startsWith ''en-GB'' ''en''"
proof -
  have a: "formatDateFriendly e d timezone None = formatDateFriendly e d timezone (Some ''en'')"
    "formatDateFriendly e d timezone (Some []) = formatDateFriendly e d timezone (Some ''en'')"
    "formatDateFriendlyNoYear e d timezone None =
      formatDateFriendlyNoYear e d timezone (Some ''en'')"
    "formatDateFriendlyNoYear e d timezone (Some []) =
      formatDateFriendlyNoYear e d timezone (Some ''en'')"
    by (simp_all add: formatDateFriendly_def formatDateFriendlyNoYear_def or_default_def)
  have b: "formatDateFriendly e d timezone None =
        Inr (numberToString (c_day obj) @ englishOrdinalSuffix (c_day obj)
          @ '' '' @ monthLong e ''en'' (c_month obj)
          @ '' '' @ yearText e ''en'' (c_year obj))
      \<and> formatDateFriendlyNoYear e d timezone None =
        Inr (numberToString (c_day obj) @ englishOrdinalSuffix (c_day obj)
          @ '' '' @ monthLong e ''en'' (c_month obj))"
    if "toObject (inZone e d timezone) = Some obj" "validLocale e ''en''" for obj
    using that(2)
    by (simp add: formatDateFriendly_fields [OF that(1)]
        formatDateFriendlyNoYear_fields [OF that(1)] or_default_def startsWith_def)
  have c: "formatDateFriendly e d timezone (Some l) =
        (if validLocale e l
         then Inr (numberToString (c_day obj) @ englishOrdinalSuffix (c_day obj)
           @ '' '' @ monthLong e l (c_month obj) @ '' '' @ yearText e l (c_year obj))
         else Inl RangeError)
      \<and> formatDateFriendlyNoYear e d timezone (Some l) =
        (if validLocale e l
         then Inr (numberToString (c_day obj) @ englishOrdinalSuffix (c_day obj)
           @ '' '' @ monthLong e l (c_month obj))
         else Inl RangeError)"
    if "toObject (inZone e d timezone) = Some obj" "startsWith l ''en''" for obj l
    using that(2)
    by (simp add: formatDateFriendly_fields [OF that(1)]
        formatDateFriendlyNoYear_fields [OF that(1)] startsWith_nonempty)
  have g: "startsWith ''en-GB'' ''en''"
    by (simp add: startsWith_def)
  show ?thesis
    using a b c g by blast
qed

theorem locale_default_and_prefix_witness:
  "formatDateFriendly (test_env 0) (Date 1743276600000) ''Europe/Amsterdam'' None =
      Inr ''29th March 2025''
   \<and> formatDateFriendlyNoYear (test_env 0) (Date 1743276600000) ''Europe/Amsterdam'' None =
      Inr ''29th March''
   \<and> formatDateFriendly (test_env 0) (Date 1743276600000) ''Europe/Amsterdam'' (Some ''en-GB'') =
      Inr ''29th March 2025''
   \<and> formatDateFriendlyNoYear (test_env 0) (Date 1743276600000) ''Europe/Amsterdam''
        (Some ''en-GB'') = Inr ''29th March''
   \<and> formatDateFriendlyNoYear (test_env 0) (Date 1743276600000) ''Europe/Amsterdam''
        (Some ''en_US'') = Inl RangeError"
proof -
  have f: "toObject (inZone (test_env 0) (Date 1743276600000) ''Europe/Amsterdam'') =
      Some \<lparr>c_year = 2025, c_month = 3, c_day = 29, c_hour = 20, c_minute = 30,
        c_second = 0, c_millisecond = 0\<rparr>"
    by code_simp
  have p: "startsWith ''en-GB'' ''en''" "startsWith ''en_US'' ''en''"
    by (simp_all add: startsWith_def)
  note t = locale_default_and_prefix [of "test_env 0" "Date 1743276600000" "''Europe/Amsterdam''"]
  from t have q: "\<forall>obj. toObject (inZone (test_env 0) (Date 1743276600000) ''Europe/Amsterdam'')
        = Some obj \<and> validLocale (test_env 0) ''en'' \<longrightarrow>
      formatDateFriendly (test_env 0) (Date 1743276600000) ''Europe/Amsterdam'' None =
        Inr (numberToString (c_day obj) @ englishOrdinalSuffix (c_day obj)
          @ '' '' @ monthLong (test_env 0) ''en'' (c_month obj)
          @ '' '' @ yearText (test_env 0) ''en'' (c_year obj))
      \<and> formatDateFriendlyNoYear (test_env 0) (Date 1743276600000) ''Europe/Amsterdam'' None =
        Inr (numberToString (c_day obj) @ englishOrdinalSuffix (c_day obj)
          @ '' '' @ monthLong (test_env 0) ''en'' (c_month obj))"
    by blast
  from t have r: "\<forall>obj l. toObject (inZone (test_env 0) (Date 1743276600000)
        ''Europe/Amsterdam'') = Some obj \<and> startsWith l ''en'' \<longrightarrow>
      formatDateFriendly (test_env 0) (Date 1743276600000) ''Europe/Amsterdam'' (Some l) =
        (if validLocale (test_env 0) l
         then Inr (numberToString (c_day obj) @ englishOrdinalSuffix (c_day obj)
           @ '' '' @ monthLong (test_env 0) l (c_month obj)
           @ '' '' @ yearText (test_env 0) l (c_year obj))
         else Inl RangeError)
      \<and> formatDateFriendlyNoYear (test_env 0) (Date 1743276600000) ''Europe/Amsterdam''
          (Some l) =
        (if validLocale (test_env 0) l
         then Inr (numberToString (c_day obj) @ englishOrdinalSuffix (c_day obj)
           @ '' '' @ monthLong (test_env 0) l (c_month obj))
         else Inl RangeError)"
    by blast
  have a: "formatDateFriendly (test_env 0) (Date 1743276600000) ''Europe/Amsterdam'' None =
      Inr ''29th March 2025''"
    "formatDateFriendlyNoYear (test_env 0) (Date 1743276600000) ''Europe/Amsterdam'' None =
      Inr ''29th March''"
    using q [rule_format, OF conjI [OF f test_env_locale(1)]]
    by (simp_all add: suffix_29 test_env_locale)
  have b: "formatDateFriendly (test_env 0) (Date 1743276600000) ''Europe/Amsterdam''
        (Some ''en-GB'') = Inr ''29th March 2025''"
    "formatDateFriendlyNoYear (test_env 0) (Date 1743276600000) ''Europe/Amsterdam''
        (Some ''en-GB'') = Inr ''29th March''"
    using r [rule_format, OF conjI [OF f p(1)]]
    by (simp_all add: suffix_29 test_env_locale)
  have c: "formatDateFriendlyNoYear (test_env 0) (Date 1743276600000) ''Europe/Amsterdam''
        (Some ''en_US'') = Inl RangeError"
    using r [rule_format, OF conjI [OF f p(2)]]
    by (simp add: test_env_locale)
  show ?thesis
    using a b c by simp
qed

end
